(* ===== verification/Prelude.thy ===== *)
theory Prelude
  imports Main "HOL-Library.Word" "HOL-Library.Sublist"
begin

text \<open>
  Shared vocabulary of the development: bytes and UTF-8 strings as lists of 8-bit words, byte
  literals, the result type of fallible operations, the sequencing of Rust's \<open>?\<close> operator over
  an explicitly passed state, and the rules by which facts about such sequences are proved.

  A Rust \<open>&[u8]\<close> or \<open>Vec<u8>\<close> is a \<open>byte list\<close>.  A \<open>&str\<close> or \<open>String\<close> is the byte list of its
  UTF-8 encoding (\<open>str\<close>), which is what \<open>len\<close>, slicing and \<open>as_bytes\<close> of the language count.
  A \<open>Result<T, E>\<close> is \<open>E + T\<close>, the error on the left.
\<close>

unbundle bit_operations_syntax

type_synonym byte = "8 word"
type_synonym u16 = "16 word"
type_synonym u32 = "32 word"
type_synonym str = "byte list"

abbreviation Err :: "'e \<Rightarrow> 'e + 'a" where "Err \<equiv> Inl"
abbreviation Ok :: "'a \<Rightarrow> 'e + 'a" where "Ok \<equiv> Inr"

subsection \<open>Byte literals\<close>

definition lit :: "string \<Rightarrow> byte list" where
  "lit s = map of_char s"

abbreviation CR :: byte where "CR \<equiv> 13"
abbreviation LF :: byte where "LF \<equiv> 10"
abbreviation HT :: byte where "HT \<equiv> 9"
abbreviation SP :: byte where "SP \<equiv> 32"
abbreviation DOT :: byte where "DOT \<equiv> 46"
abbreviation CRLF :: "byte list" where "CRLF \<equiv> [13, 10]"

lemma lit_Nil [simp]: "lit [] = []"
  by (simp add: lit_def)

lemma lit_Cons: "lit (c # cs) = of_char c # lit cs"
  by (simp add: lit_def)

lemma length_lit [simp]: "length (lit s) = length s"
  by (simp add: lit_def)

subsection \<open>Collections of hints\<close>

named_theorems io_defs
  \<open>definitions of the client's low-level input and output steps\<close>

named_theorems holds_intros
  \<open>rules that take a statement about an outcome apart along the program's sequencing\<close>

subsection \<open>Sequencing with the question-mark operator\<close>

text \<open>
  An operation on a state \<open>'s\<close> that may fail yields an outcome \<open>('e + 'a) \<times> 's\<close>: the state is
  returned on both branches, because a Rust method that returns early through \<open>?\<close> keeps every
  mutation made so far.  \<open>and_then p k\<close> is \<open>let a = p?; k(a)\<close>.
\<close>

definition and_then ::
    "('e + 'a) \<times> 's \<Rightarrow> ('a \<Rightarrow> 's \<Rightarrow> ('e + 'b) \<times> 's) \<Rightarrow> ('e + 'b) \<times> 's" where
  "and_then p k = (case p of (Inl e, s) \<Rightarrow> (Inl e, s) | (Inr a, s) \<Rightarrow> k a s)"

lemma and_then_simps [simp]:
  "and_then (Inl e, s) k = (Inl e, s)"
  "and_then (Inr a, s) k = k a s"
  by (simp_all add: and_then_def)

lemma and_then_Ok_iff:
  "and_then p k = (Inr b, s') \<longleftrightarrow> (\<exists>a s. p = (Inr a, s) \<and> k a s = (Inr b, s'))"
  by (auto simp: and_then_def split: prod.splits sum.splits)

lemma and_then_Err_iff:
  "and_then p k = (Inl e, s') \<longleftrightarrow>
     p = (Inl e, s') \<or> (\<exists>a s. p = (Inr a, s) \<and> k a s = (Inl e, s'))"
  by (auto simp: and_then_def split: prod.splits sum.splits)

lemma and_then_OkE:
  assumes "and_then p k = (Inr b, s')"
  obtains a s where "p = (Inr a, s)" and "k a s = (Inr b, s')"
  using assms by (auto simp: and_then_Ok_iff)

lemma and_then_cong [fundef_cong]:
  assumes "p = p'" and "\<And>a s. p' = (Inr a, s) \<Longrightarrow> k a s = k' a s"
  shows "and_then p k = and_then p' k'"
  using assms by (auto simp: and_then_def split: prod.splits sum.splits)

text \<open>\<open>?\<close> on a pure result: the state is untouched.\<close>

definition check :: "'e + 'a \<Rightarrow> 's \<Rightarrow> ('e + 'a) \<times> 's" where
  "check r s = (r, s)"

lemma check_simps [simp]: "check r s = (r, s)"
  by (simp add: check_def)

definition map_err :: "('e \<Rightarrow> 'f) \<Rightarrow> 'e + 'a \<Rightarrow> 'f + 'a" where
  "map_err f r = (case r of Inl e \<Rightarrow> Inl (f e) | Inr a \<Rightarrow> Inr a)"

lemma map_err_simps [simp]:
  "map_err f (Inl e) = Inl (f e)"
  "map_err f (Inr a) = Inr a"
  by (simp_all add: map_err_def)

lemma map_err_Ok_iff [simp]: "map_err f r = Inr a \<longleftrightarrow> r = Inr a"
  by (cases r) simp_all

subsection \<open>Statements about outcomes\<close>

text \<open>
  \<open>holds p Q E\<close>: the outcome \<open>p\<close> satisfies \<open>Q\<close> if it is a success and \<open>E\<close> if it is an error.
  The rules follow the shape of a program: one for \<open>and_then\<close>, one for each way to branch.
\<close>

definition holds ::
    "('e + 'a) \<times> 's \<Rightarrow> ('a \<Rightarrow> 's \<Rightarrow> bool) \<Rightarrow> ('e \<Rightarrow> 's \<Rightarrow> bool) \<Rightarrow> bool" where
  "holds p Q E = (case p of (Inl e, s) \<Rightarrow> E e s | (Inr a, s) \<Rightarrow> Q a s)"

lemma holds_simps [simp]:
  "holds (Inl e, s) Q E = E e s"
  "holds (Inr a, s) Q E = Q a s"
  by (simp_all add: holds_def)

lemma holds_and_then [holds_intros]:
  assumes "holds p R E" and "\<And>a s. R a s \<Longrightarrow> holds (k a s) Q E"
  shows "holds (and_then p k) Q E"
proof -
  obtain r s where p: "p = (r, s)" by (cases p)
  show ?thesis using assms by (cases r) (auto simp: p)
qed

lemma holds_weaken:
  assumes "holds p Q E" and "\<And>a s. Q a s \<Longrightarrow> Q' a s" and "\<And>e s. E e s \<Longrightarrow> E' e s"
  shows "holds p Q' E'"
  using assms by (auto simp: holds_def split: prod.splits sum.splits)

lemma holds_if [holds_intros]:
  assumes "b \<Longrightarrow> holds p Q E" and "\<not> b \<Longrightarrow> holds q Q E"
  shows "holds (if b then p else q) Q E"
  using assms by simp

lemma holds_OkD: "holds p Q E \<Longrightarrow> p = (Inr a, s) \<Longrightarrow> Q a s"
  by simp

lemma holds_ErrD: "holds p Q E \<Longrightarrow> p = (Inl e, s) \<Longrightarrow> E e s"
  by simp

lemma holds_conj:
  "holds p Q E \<Longrightarrow> holds p Q' E' \<Longrightarrow>
   holds p (\<lambda>a s. Q a s \<and> Q' a s) (\<lambda>e s. E e s \<and> E' e s)"
  by (auto simp: holds_def split: prod.splits sum.splits)

lemma holds_same_iff: "holds p (\<lambda>_. I) (\<lambda>_. I) \<longleftrightarrow> I (snd p)"
  by (auto simp: holds_def split: prod.splits sum.splits)

subsection \<open>Lists\<close>

subsection \<open>Words\<close>

lemma unat_ucast_up:
  "LENGTH('a::len) \<le> LENGTH('b::len) \<Longrightarrow> unat (ucast (x :: 'a word) :: 'b word) = unat x"
proof -
  assume le: "LENGTH('a) \<le> LENGTH('b)"
  have "unat x < 2 ^ LENGTH('a)" by (rule unsigned_less)
  also have "(2::nat) ^ LENGTH('a) \<le> 2 ^ LENGTH('b)" using le by simp
  finally show ?thesis by (simp add: unsigned_ucast_eq take_bit_nat_eq_self)
qed

lemma unat_ucast_byte [simp]:
  "unat (ucast (b :: byte) :: u16) = unat b"
  "unat (ucast (b :: byte) :: u32) = unat b"
  by (simp_all add: unat_ucast_up)

lemma take_drop_Cons_nth: "i < length xs \<Longrightarrow> drop i xs = xs ! i # drop (Suc i) xs"
  by (rule Cons_nth_drop_Suc [symmetric])

end
