(* ===== verification/Rust_Str.thy ===== *)
theory Rust_Str
  imports Prelude
begin

text \<open>
  The operations of Rust's \<open>str\<close>, \<open>u8\<close> and \<open>char\<close> that the crates use, on byte lists: ASCII
  classes and case folding, splitting, searching, joining, decimal printing and parsing, and
  UTF-8 validation with the replacement semantics of \<open>String::from_utf8_lossy\<close>.
\<close>

subsection \<open>ASCII\<close>

definition is_ascii :: "str \<Rightarrow> bool" where
  "is_ascii s = list_all (\<lambda>b. b < 128) s"

definition is_ascii_digit :: "byte \<Rightarrow> bool" where
  "is_ascii_digit b = (48 \<le> b \<and> b \<le> 57)"

definition is_ascii_alphanumeric :: "byte \<Rightarrow> bool" where
  "is_ascii_alphanumeric b =
     (is_ascii_digit b \<or> (65 \<le> b \<and> b \<le> 90) \<or> (97 \<le> b \<and> b \<le> 122))"

definition is_ascii_whitespace :: "byte \<Rightarrow> bool" where
  "is_ascii_whitespace b = (b = 9 \<or> b = 10 \<or> b = 12 \<or> b = 13 \<or> b = 32)"

definition to_ascii_lowercase :: "byte \<Rightarrow> byte" where
  "to_ascii_lowercase b = (if 65 \<le> b \<and> b \<le> 90 then b + 32 else b)"

definition eq_ignore_ascii_case :: "str \<Rightarrow> str \<Rightarrow> bool" where
  "eq_ignore_ascii_case s t = (map to_ascii_lowercase s = map to_ascii_lowercase t)"

lemma eq_ignore_ascii_case_refl [simp]: "eq_ignore_ascii_case s s"
  by (simp add: eq_ignore_ascii_case_def)

lemma eq_ignore_ascii_case_sym: "eq_ignore_ascii_case s t \<Longrightarrow> eq_ignore_ascii_case t s"
  by (simp add: eq_ignore_ascii_case_def)

lemma eq_ignore_ascii_case_trans:
  "eq_ignore_ascii_case s t \<Longrightarrow> eq_ignore_ascii_case t u \<Longrightarrow> eq_ignore_ascii_case s u"
  by (simp add: eq_ignore_ascii_case_def)

subsection \<open>Splitting and searching\<close>

text \<open>\<open>split_ascii_whitespace\<close>: the maximal runs of non-whitespace bytes.\<close>

fun split_ascii_whitespace_from :: "str \<Rightarrow> str \<Rightarrow> str list" where
  "split_ascii_whitespace_from acc [] = (if acc = [] then [] else [acc])"
| "split_ascii_whitespace_from acc (b # bs) =
     (if is_ascii_whitespace b
      then (if acc = [] then [] else [acc]) @ split_ascii_whitespace_from [] bs
      else split_ascii_whitespace_from (acc @ [b]) bs)"

definition split_ascii_whitespace :: "str \<Rightarrow> str list" where
  "split_ascii_whitespace s = split_ascii_whitespace_from [] s"

lemma split_ascii_whitespace_from_pieces:
  "list_all (\<lambda>b. \<not> is_ascii_whitespace b) acc \<Longrightarrow>
   p \<in> set (split_ascii_whitespace_from acc s) \<Longrightarrow>
   p \<noteq> [] \<and> list_all (\<lambda>b. \<not> is_ascii_whitespace b) p"
proof (induction acc s rule: split_ascii_whitespace_from.induct)
  case (1 acc)
  then show ?case by (auto split: if_splits)
next
  case (2 acc b bs)
  show ?case
  proof (cases "is_ascii_whitespace b")
    case True
    with 2 show ?thesis by (auto split: if_splits)
  next
    case False
    with 2 show ?thesis by auto
  qed
qed

text \<open>\<open>split(c)\<close> on one ASCII character: always at least one piece.\<close>

fun split_char :: "byte \<Rightarrow> str \<Rightarrow> str list" where
  "split_char c [] = [[]]"
| "split_char c (b # bs) =
     (if b = c then [] # split_char c bs
      else (case split_char c bs of [] \<Rightarrow> [[b]] | p # ps \<Rightarrow> (b # p) # ps))"

lemma split_char_ne [simp]: "split_char c s \<noteq> []"
  by (induction s) (auto split: list.splits)

lemma split_char_no_sep: "p \<in> set (split_char c s) \<Longrightarrow> c \<notin> set p"
proof (induction s arbitrary: p)
  case Nil
  then show ?case by simp
next
  case (Cons b bs)
  then show ?case
    by (cases "split_char c bs") (auto split: if_splits)
qed

lemma split_char_id: "c \<notin> set s \<Longrightarrow> split_char c s = [s]"
  by (induction s) auto

lemma split_char_append:
  "c \<notin> set s \<Longrightarrow> split_char c (s @ c # t) = s # split_char c t"
  by (induction s) auto

text \<open>\<open>split_once(c)\<close>: the parts before and after the first occurrence.\<close>

fun split_once :: "byte \<Rightarrow> str \<Rightarrow> (str \<times> str) option" where
  "split_once c [] = None"
| "split_once c (b # bs) =
     (if b = c then Some ([], bs)
      else map_option (\<lambda>(k, v). (b # k, v)) (split_once c bs))"

lemma split_once_Some: "split_once c s = Some (k, v) \<Longrightarrow> s = k @ c # v \<and> c \<notin> set k"
  by (induction s arbitrary: k) (auto split: if_splits)

lemma split_once_append: "c \<notin> set k \<Longrightarrow> split_once c (k @ c # v) = Some (k, v)"
  by (induction k) auto

text \<open>The slice \<open>s[a..b]\<close>.\<close>

definition slice :: "'a list \<Rightarrow> nat \<Rightarrow> nat \<Rightarrow> 'a list" where
  "slice xs a b = take (b - a) (drop a xs)"

text \<open>The index scan \<open>while i < bytes.len() && bytes[i].is_ascii_digit() { i += 1 }\<close>.\<close>

function scan_digits :: "str \<Rightarrow> nat \<Rightarrow> nat" where
  "scan_digits bs i =
     (if i < length bs \<and> is_ascii_digit (bs ! i) then scan_digits bs (Suc i) else i)"
  by pat_completeness auto
termination
  by (relation "measure (\<lambda>(bs, i). length bs - i)") auto

declare scan_digits.simps [simp del]

lemma scan_digits_takeWhile:
  "scan_digits bs i = i + length (takeWhile is_ascii_digit (drop i bs))"
proof (induction bs i rule: scan_digits.induct)
  case (1 bs i)
  show ?case
  proof (cases "i < length bs \<and> is_ascii_digit (bs ! i)")
    case True
    with 1 show ?thesis
      by (subst scan_digits.simps) (simp add: take_drop_Cons_nth)
  next
    case False
    then show ?thesis
      by (subst scan_digits.simps, cases "i < length bs") (auto simp: take_drop_Cons_nth)
  qed
qed

lemma slice_scan_digits:
  "slice bs i (scan_digits bs i) = takeWhile is_ascii_digit (drop i bs)"
  by (simp add: slice_def scan_digits_takeWhile takeWhile_eq_take [symmetric])

definition starts_with :: "str \<Rightarrow> str \<Rightarrow> bool" where
  "starts_with s p = (take (length p) s = p)"

definition ends_with :: "str \<Rightarrow> str \<Rightarrow> bool" where
  "ends_with s p = (length p \<le> length s \<and> drop (length s - length p) s = p)"

definition strip_prefix :: "str \<Rightarrow> str \<Rightarrow> str option" where
  "strip_prefix s p = (if starts_with s p then Some (drop (length p) s) else None)"

definition strip_suffix :: "str \<Rightarrow> str \<Rightarrow> str option" where
  "strip_suffix s p =
     (if ends_with s p then Some (take (length s - length p) s) else None)"

lemma starts_with_iff: "starts_with s p \<longleftrightarrow> (\<exists>t. s = p @ t)"
  by (metis starts_with_def append_eq_conv_conj append_take_drop_id)

lemma ends_with_iff: "ends_with s p \<longleftrightarrow> (\<exists>t. s = t @ p)"
  unfolding ends_with_def
  by (metis append_take_drop_id le_add2 length_append append_eq_conv_conj
        diff_add_inverse2)

lemma starts_with_append [simp]: "starts_with (p @ t) p"
  by (auto simp: starts_with_iff)

lemma strip_prefix_Some: "strip_prefix s p = Some t \<longleftrightarrow> s = p @ t"
  by (auto simp: strip_prefix_def starts_with_iff)

lemma strip_prefix_None: "strip_prefix s p = None \<longleftrightarrow> \<not> starts_with s p"
  by (simp add: strip_prefix_def)

lemma strip_suffix_Some: "strip_suffix s p = Some t \<longleftrightarrow> s = t @ p"
  by (auto simp: strip_suffix_def ends_with_iff)

text \<open>\<open>str::find\<close> of a needle: the offset of its first occurrence.\<close>

fun find_sub :: "str \<Rightarrow> str \<Rightarrow> nat option" where
  "find_sub needle [] = (if needle = [] then Some 0 else None)"
| "find_sub needle (b # bs) =
     (if starts_with (b # bs) needle then Some 0
      else map_option Suc (find_sub needle bs))"

definition contains :: "str \<Rightarrow> str \<Rightarrow> bool" where
  "contains s needle = (find_sub needle s \<noteq> None)"

lemma find_sub_Some:
  "find_sub needle s = Some i \<Longrightarrow> i \<le> length s \<and> starts_with (drop i s) needle"
  by (induction s arbitrary: i) (auto simp: starts_with_def split: if_splits)

lemma find_sub_first:
  "find_sub needle s = Some i \<Longrightarrow> j < i \<Longrightarrow> \<not> starts_with (drop j s) needle"
proof (induction s arbitrary: i j)
  case Nil
  then show ?case by (auto split: if_splits)
next
  case (Cons b bs)
  then show ?case by (cases j) (auto split: if_splits)
qed

lemma find_sub_None:
  "find_sub needle s = None \<Longrightarrow> \<not> starts_with (drop j s) needle"
proof (induction s arbitrary: j)
  case Nil
  then show ?case by (auto simp: starts_with_def split: if_splits)
next
  case (Cons b bs)
  then show ?case by (cases j) (auto split: if_splits)
qed

lemma contains_iff: "contains s needle \<longleftrightarrow> (\<exists>a b. s = a @ needle @ b)"
proof
  assume "contains s needle"
  then obtain i where "find_sub needle s = Some i" by (auto simp: contains_def)
  then have "starts_with (drop i s) needle" by (simp add: find_sub_Some)
  then obtain t where "drop i s = needle @ t" by (auto simp: starts_with_iff)
  then have "s = take i s @ needle @ t" by (metis append_take_drop_id)
  then show "\<exists>a b. s = a @ needle @ b" by blast
next
  assume "\<exists>a b. s = a @ needle @ b"
  then obtain a b where "s = a @ needle @ b" by blast
  then have "starts_with (drop (length a) s) needle" by simp
  then show "contains s needle" using find_sub_None by (auto simp: contains_def)
qed

text \<open>\<open>str::rfind\<close> of one ASCII character: the offset of its last occurrence.\<close>

fun rfind_char :: "byte \<Rightarrow> str \<Rightarrow> nat option" where
  "rfind_char c [] = None"
| "rfind_char c (b # bs) =
     (case rfind_char c bs of
        Some i \<Rightarrow> Some (Suc i)
      | None \<Rightarrow> if b = c then Some 0 else None)"

lemma rfind_char_Some:
  "rfind_char c s = Some i \<Longrightarrow> i < length s \<and> s ! i = c \<and> c \<notin> set (drop (Suc i) s)"
proof (induction s arbitrary: i)
  case Nil
  then show ?case by simp
next
  case (Cons b bs)
  have none: "rfind_char c bs = None \<Longrightarrow> c \<notin> set bs"
    by (induction bs) (auto split: option.splits if_splits)
  show ?case using Cons none by (auto split: option.splits if_splits)
qed

fun join :: "str \<Rightarrow> str list \<Rightarrow> str" where
  "join sep [] = []"
| "join sep [s] = s"
| "join sep (s # t # ss) = s @ sep @ join sep (t # ss)"

lemma set_join: "set (join sep ss) \<subseteq> set sep \<union> \<Union> (set ` set ss)"
  by (induction sep ss rule: join.induct) auto

end
