(* ===== verification/Rust_Num.thy ===== *)
theory Rust_Num
  imports Rust_Str
begin

text \<open>
  Decimal numbers as the standard library prints (\<open>Display\<close>) and parses (\<open>FromStr\<close>) unsigned
  integers.  Printing is by repeated division.  Parsing accepts one leading plus sign, needs at
  least one digit, and fails on any other byte and on a value above the type's maximum.
\<close>

fun show_nat :: "nat \<Rightarrow> str" where
  "show_nat n =
     (if n < 10 then [of_nat (48 + n)] else show_nat (n div 10) @ [of_nat (48 + n mod 10)])"

declare show_nat.simps [simp del]

lemma show_nat_small: "n < 10 \<Longrightarrow> show_nat n = [of_nat (48 + n)]"
  by (subst show_nat.simps) simp

fun digits_value :: "nat \<Rightarrow> str \<Rightarrow> nat option" where
  "digits_value acc [] = Some acc"
| "digits_value acc (b # bs) =
     (if is_ascii_digit b then digits_value (acc * 10 + unat (b - 48)) bs else None)"

definition parse_uint :: "nat \<Rightarrow> str \<Rightarrow> nat option" where
  "parse_uint maxv s =
     (let t = (case s of b # r \<Rightarrow> if b = 43 then r else s | [] \<Rightarrow> s)
      in if t = [] then None
         else (case digits_value 0 t of
                 Some n \<Rightarrow> if n \<le> maxv then Some n else None
               | None \<Rightarrow> None))"

text \<open>The digit of a number below ten.\<close>

lemma unat_digit: "d < 10 \<Longrightarrow> unat ((of_nat (48 + d) :: byte) - 48) = d"
  by (simp add: unat_of_nat)

lemma is_ascii_digit_of_nat: "d < 10 \<Longrightarrow> is_ascii_digit (of_nat (48 + d))"
  unfolding is_ascii_digit_def word_le_nat_alt by (simp add: unat_of_nat del: of_nat_add)

lemma show_nat_digits: "list_all is_ascii_digit (show_nat n)"
proof (induction n rule: show_nat.induct)
  case (1 n)
  have "n mod 10 < 10" by simp
  with 1 is_ascii_digit_of_nat show ?case
    by (subst show_nat.simps) (auto simp del: of_nat_add)
qed

lemma show_nat_ne [simp]: "show_nat n \<noteq> []"
  by (subst show_nat.simps) simp

lemma digits_value_append:
  "digits_value acc (s @ t) =
     (case digits_value acc s of None \<Rightarrow> None | Some n \<Rightarrow> digits_value n t)"
  by (induction acc s rule: digits_value.induct) auto

lemma digits_value_show_nat: "digits_value 0 (show_nat n) = Some n"
proof (induction n rule: show_nat.induct)
  case (1 n)
  show ?case
  proof (cases "n < 10")
    case True
    then show ?thesis
      using unat_digit [of n] is_ascii_digit_of_nat [of n]
      by (subst show_nat.simps) (simp del: of_nat_add)
  next
    case False
    with 1 have IH: "digits_value 0 (show_nat (n div 10)) = Some (n div 10)" by simp
    have m: "n mod 10 < 10" by simp
    show ?thesis
      using False IH unat_digit [OF m] is_ascii_digit_of_nat [OF m]
      by (subst show_nat.simps) (simp add: digits_value_append del: of_nat_add)
  qed
qed

lemma show_nat_hd: "show_nat n = b # bs \<Longrightarrow> is_ascii_digit b"
  using show_nat_digits [of n] by simp

lemma parse_uint_show_nat: "n \<le> maxv \<Longrightarrow> parse_uint maxv (show_nat n) = Some n"
proof -
  assume le: "n \<le> maxv"
  obtain b bs where s: "show_nat n = b # bs" by (cases "show_nat n") auto
  then have "is_ascii_digit b" by (rule show_nat_hd)
  then have "b \<noteq> 43" by (auto simp: is_ascii_digit_def)
  with s le digits_value_show_nat [of n] show ?thesis
    by (simp add: parse_uint_def)
qed

lemma parse_uint_bound: "parse_uint maxv s = Some n \<Longrightarrow> n \<le> maxv"
  by (auto simp: parse_uint_def Let_def split: if_splits option.splits list.splits)

lemma show_nat_ascii: "is_ascii (show_nat n)"
  unfolding is_ascii_def using show_nat_digits [of n]
  by (auto simp: list_all_iff is_ascii_digit_def word_le_nat_alt word_less_nat_alt)

lemma show_nat_inj: "show_nat n = show_nat m \<Longrightarrow> n = m"
  using digits_value_show_nat by (metis option.inject)

definition show_word :: "'a::len word \<Rightarrow> str" where
  "show_word w = show_nat (unat w)"

end
