(* ===== verification/Utf8.thy ===== *)
theory Utf8
  imports Rust_Str
begin

text \<open>
  UTF-8 as the standard library checks it.  \<open>utf8_step\<close> looks at the front of a byte list: it
  says whether a well-formed sequence starts there and how many bytes that sequence has, or,
  when it is ill-formed, how many bytes the ill-formed prefix has.  \<open>str::from_utf8\<close> accepts a
  list all of whose steps are well-formed; \<open>String::from_utf8_lossy\<close> puts U+FFFD (three bytes)
  in place of every ill-formed prefix; \<open>chars\<close> cuts a string into its encoded characters.
\<close>

definition cont_byte :: "byte \<Rightarrow> bool" where
  "cont_byte b = (128 \<le> b \<and> b \<le> 191)"

definition utf8_width :: "byte \<Rightarrow> nat" where
  "utf8_width b =
     (if b < 128 then 1
      else if 194 \<le> b \<and> b \<le> 223 then 2
      else if 224 \<le> b \<and> b \<le> 239 then 3
      else if 240 \<le> b \<and> b \<le> 244 then 4
      else 0)"

text \<open>The second byte of a three- or four-byte sequence: no overlong forms, no surrogates,
  nothing above U+10FFFF.\<close>

definition second_ok :: "byte \<Rightarrow> byte \<Rightarrow> bool" where
  "second_ok b c =
     (if b = 224 then 160 \<le> c \<and> c \<le> 191
      else if b = 237 then 128 \<le> c \<and> c \<le> 159
      else if b = 240 then 144 \<le> c \<and> c \<le> 191
      else if b = 244 then 128 \<le> c \<and> c \<le> 143
      else cont_byte c)"

fun conts :: "nat \<Rightarrow> nat \<Rightarrow> byte list \<Rightarrow> bool \<times> nat" where
  "conts seen 0 bs = (True, seen)"
| "conts seen (Suc k) [] = (False, seen)"
| "conts seen (Suc k) (c # cs) =
     (if cont_byte c then conts (Suc seen) k cs else (False, seen))"

fun utf8_step :: "byte list \<Rightarrow> bool \<times> nat" where
  "utf8_step [] = (True, 0)"
| "utf8_step (b # bs) =
     (if utf8_width b = 0 then (False, 1)
      else if utf8_width b \<le> 2 then conts 1 (utf8_width b - 1) bs
      else (case bs of
              [] \<Rightarrow> (False, 1)
            | c # cs \<Rightarrow>
                if second_ok b c then conts 2 (utf8_width b - 2) cs else (False, 1)))"

lemma conts_ge: "conts seen k bs = (ok, n) \<Longrightarrow> seen \<le> n"
  by (induction seen k bs rule: conts.induct) (auto split: if_splits)

lemma conts_le: "conts seen k bs = (ok, n) \<Longrightarrow> n \<le> seen + length bs"
  by (induction seen k bs rule: conts.induct) (auto split: if_splits)

lemma utf8_step_pos: "utf8_step (b # bs) = (ok, n) \<Longrightarrow> 1 \<le> n"
  by (auto split: if_splits list.splits dest: conts_ge)

lemma utf8_step_le: "utf8_step bs = (ok, n) \<Longrightarrow> n \<le> length bs"
  by (cases bs) (auto split: if_splits list.splits dest: conts_le)

lemma utf8_step_drop:
  assumes "bs \<noteq> []" and "(ok, n) = utf8_step bs"
  shows "length (drop n bs) < length bs"
proof -
  obtain b cs where "bs = b # cs" using assms(1) by (cases bs) auto
  with assms(2) utf8_step_pos [of b cs ok n] show ?thesis by (simp del: utf8_step.simps)
qed

function from_utf8_lossy :: "byte list \<Rightarrow> str" where
  "from_utf8_lossy bs =
     (if bs = [] then []
      else (let (ok, n) = utf8_step bs
            in (if ok then take n bs else [0xEF, 0xBF, 0xBD])
               @ from_utf8_lossy (drop n bs)))"
  by pat_completeness auto
termination
  by (relation "measure length") (simp_all add: utf8_step_drop del: utf8_step.simps length_drop)

function valid_utf8 :: "byte list \<Rightarrow> bool" where
  "valid_utf8 bs =
     (if bs = [] then True
      else (let (ok, n) = utf8_step bs in ok \<and> valid_utf8 (drop n bs)))"
  by pat_completeness auto
termination
  by (relation "measure length") (simp_all add: utf8_step_drop del: utf8_step.simps length_drop)

function chars :: "str \<Rightarrow> str list" where
  "chars bs =
     (if bs = [] then []
      else (let (ok, n) = utf8_step bs in take n bs # chars (drop n bs)))"
  by pat_completeness auto
termination
  by (relation "measure length") (simp_all add: utf8_step_drop del: utf8_step.simps length_drop)

declare utf8_step.simps [simp del] from_utf8_lossy.simps [simp del] valid_utf8.simps [simp del] chars.simps [simp del]

text \<open>Evaluation by pattern matching.\<close>

lemma utf8_code [code]:
  "valid_utf8 [] = True"
  "valid_utf8 (b # bs) = (let (ok, n) = utf8_step (b # bs) in ok \<and> valid_utf8 (drop n (b # bs)))"
  "from_utf8_lossy [] = []"
  "from_utf8_lossy (b # bs) = (let (ok, n) = utf8_step (b # bs)
     in (if ok then take n (b # bs) else [0xEF, 0xBF, 0xBD]) @ from_utf8_lossy (drop n (b # bs)))"
  "chars [] = []"
  "chars (b # bs) = (let (ok, n) = utf8_step (b # bs) in take n (b # bs) # chars (drop n (b # bs)))"
  by (subst valid_utf8.simps from_utf8_lossy.simps chars.simps, simp)+

text \<open>The scalar value of one encoded character.\<close>

definition code_point :: "byte list \<Rightarrow> nat" where
  "code_point c = (case c of
     [a] \<Rightarrow> unat a
   | [a, b] \<Rightarrow> (unat a mod 32) * 64 + unat b mod 64
   | [a, b, d] \<Rightarrow> (unat a mod 16) * 4096 + (unat b mod 64) * 64 + unat d mod 64
   | [a, b, d, e] \<Rightarrow>
       (unat a mod 8) * 262144 + (unat b mod 64) * 4096 + (unat d mod 64) * 64 + unat e mod 64
   | _ \<Rightarrow> 0)"

text \<open>\<open>str::from_utf8\<close>.\<close>

definition from_utf8 :: "byte list \<Rightarrow> str option" where
  "from_utf8 bs = (if valid_utf8 bs then Some bs else None)"

subsection \<open>Steps and concatenation\<close>

lemma conts_append:
  "conts seen k bs = (True, n) \<Longrightarrow> conts seen k (take (n - seen) bs @ rest) = (True, n)"
proof (induction seen k bs rule: conts.induct)
  case (3 seen k c cs)
  then have c: "cont_byte c" and r: "conts (Suc seen) k cs = (True, n)"
    by (auto split: if_splits)
  from r have "Suc seen \<le> n" by (rule conts_ge)
  then have "n - seen = Suc (n - Suc seen)" by simp
  with 3(1) [OF c r] c show ?case by simp
qed auto

lemma utf8_step_append:
  assumes "bs \<noteq> []" and "utf8_step bs = (True, n)"
  shows "utf8_step (take n bs @ rest) = (True, n)"
proof -
  obtain b cs where bs: "bs = b # cs" using assms(1) by (cases bs) auto
  have w: "utf8_width b \<noteq> 0" using assms bs by (auto simp: utf8_step.simps split: if_splits)
  obtain m where n: "n = Suc m" using utf8_step_pos assms(2) bs by (cases n) force+
  show ?thesis
  proof (cases "utf8_width b \<le> 2")
    case True
    with assms bs w have "conts 1 (utf8_width b - 1) cs = (True, n)" by (simp add: utf8_step.simps)
    from conts_append [OF this, of rest] True w show ?thesis by (simp add: bs n utf8_step.simps)
  next
    case False
    with assms bs w obtain c ds where
      cs: "cs = c # ds" and ok: "second_ok b c" and r: "conts 2 (utf8_width b - 2) ds = (True, n)"
      by (auto simp: utf8_step.simps split: list.splits if_splits)
    from r have "2 \<le> n" by (rule conts_ge)
    then obtain k where k: "m = Suc k" using n by (cases m) auto
    from conts_append [OF r, of rest] False w ok show ?thesis by (simp add: bs cs n k utf8_step.simps)
  qed
qed

lemma utf8_step_full: "utf8_step [0xEF, 0xBF, 0xBD] = (True, 3)"
  by code_simp

lemma valid_utf8_Nil [simp]: "valid_utf8 []"
  by (subst valid_utf8.simps) simp

lemma valid_utf8_step:
  assumes "bs \<noteq> []" and "utf8_step bs = (True, n)"
  shows "valid_utf8 bs = valid_utf8 (drop n bs)"
  using assms by (subst valid_utf8.simps) (simp del: utf8_step.simps)

lemma valid_utf8_stepD:
  assumes "bs \<noteq> []" and "valid_utf8 bs"
  obtains n where "utf8_step bs = (True, n)" and "valid_utf8 (drop n bs)" and "1 \<le> n"
    and "n \<le> length bs"
proof -
  obtain ok n where st: "utf8_step bs = (ok, n)" by fastforce
  obtain b cs where bs: "bs = b # cs" using assms(1) by (cases bs) auto
  from assms st have "ok \<and> valid_utf8 (drop n bs)"
    by (subst (asm) valid_utf8.simps) simp
  with st have "ok" and "valid_utf8 (drop n bs)" by simp_all
  moreover have "1 \<le> n" using st utf8_step_pos by (simp add: bs del: utf8_step.simps)
  moreover have "n \<le> length bs" using st by (rule utf8_step_le)
  ultimately show thesis using st that by simp
qed

lemma valid_utf8_prepend:
  assumes "bs \<noteq> []" and "utf8_step bs = (True, n)" and "valid_utf8 rest"
  shows "valid_utf8 (take n bs @ rest)"
proof -
  have n: "n \<le> length bs" using assms(2) by (rule utf8_step_le)
  have "1 \<le> n" using assms utf8_step_pos by (cases bs) auto
  with assms(1) have "take n bs @ rest \<noteq> []" by simp
  from valid_utf8_step [OF this utf8_step_append [OF assms(1,2)]] n assms(3)
  show ?thesis by simp
qed

lemma valid_utf8_append: "valid_utf8 s \<Longrightarrow> valid_utf8 t \<Longrightarrow> valid_utf8 (s @ t)"
proof (induction s rule: length_induct)
  case (1 s)
  show ?case
  proof (cases "s = []")
    case True
    with 1 show ?thesis by simp
  next
    case False
    then obtain n where st: "utf8_step s = (True, n)" and v: "valid_utf8 (drop n s)"
      and n: "1 \<le> n" "n \<le> length s"
      using 1(2) by (rule valid_utf8_stepD)
    have "valid_utf8 (drop n s @ t)" using 1 v n False by simp
    from valid_utf8_prepend [OF False st this] show ?thesis
      by (metis append_assoc append_take_drop_id)
  qed
qed

text \<open>Lossy decoding always yields a string, and does nothing to one.\<close>

lemma valid_from_utf8_lossy: "valid_utf8 (from_utf8_lossy bs)"
proof (induction bs rule: from_utf8_lossy.induct)
  case (1 bs)
  show ?case
  proof (cases "bs = []")
    case True
    then show ?thesis by (simp add: from_utf8_lossy.simps)
  next
    case False
    obtain ok n where st: "utf8_step bs = (ok, n)" by fastforce
    have IH: "valid_utf8 (from_utf8_lossy (drop n bs))"
      using 1 [OF False _ ] st by simp
    have repl: "valid_utf8 [0xEF, 0xBF, 0xBD]"
      using valid_utf8_step [OF _ utf8_step_full] by (simp add: numeral_eq_Suc)
    show ?thesis
    proof (cases ok)
      case True
      with False st IH valid_utf8_prepend show ?thesis
        by (subst from_utf8_lossy.simps) simp
    next
      case False2: False
      with False st valid_utf8_append [OF repl IH] show ?thesis
        by (subst from_utf8_lossy.simps) simp
    qed
  qed
qed

lemma from_utf8_lossy_id: "valid_utf8 bs \<Longrightarrow> from_utf8_lossy bs = bs"
proof (induction bs rule: length_induct)
  case (1 bs)
  show ?case
  proof (cases "bs = []")
    case True
    then show ?thesis by (simp add: from_utf8_lossy.simps)
  next
    case False
    then obtain n where st: "utf8_step bs = (True, n)" and v: "valid_utf8 (drop n bs)"
      and n: "1 \<le> n" "n \<le> length bs"
      using 1(2) by (rule valid_utf8_stepD)
    have "from_utf8_lossy (drop n bs) = drop n bs" using 1 v n False by simp
    with False st show ?thesis by (subst from_utf8_lossy.simps) simp
  qed
qed

lemma valid_utf8_ascii: "is_ascii s \<Longrightarrow> valid_utf8 s"
proof (induction s)
  case Nil
  show ?case by simp
next
  case (Cons b s)
  then have "utf8_step (b # s) = (True, 1)" and "valid_utf8 s"
    by (auto simp: is_ascii_def utf8_width_def utf8_step.simps)
  then show ?case using valid_utf8_step [of "b # s" 1] by simp
qed

lemma concat_chars: "concat (chars s) = s"
proof (induction s rule: chars.induct)
  case (1 bs)
  show ?case
  proof (cases "bs = []")
    case True
    then show ?thesis by (simp add: chars.simps)
  next
    case False
    with 1 show ?thesis by (subst chars.simps) (auto split: prod.splits)
  qed
qed

text \<open>An ASCII byte of a string is a character of its own.\<close>

lemma second_ok_ge: "second_ok b c \<Longrightarrow> 128 \<le> c"
  by (auto simp: second_ok_def cont_byte_def word_le_nat_alt split: if_splits)

lemma utf8_width_ge: "128 \<le> b \<or> utf8_width b = 1"
  by (auto simp: utf8_width_def word_le_nat_alt word_less_nat_alt)

lemma conts_bytes_any: "conts seen k bs = (ok, n) \<Longrightarrow> list_all cont_byte (take (n - seen) bs)"
proof (induction seen k bs rule: conts.induct)
  case (3 seen k c cs)
  show ?case
  proof (cases "cont_byte c")
    case True
    with 3(2) have r: "conts (Suc seen) k cs = (ok, n)" by simp
    then have "n - seen = Suc (n - Suc seen)" using conts_ge by fastforce
    with 3(1) [OF True r] True show ?thesis by simp
  qed (use 3 in simp)
qed auto

lemma utf8_step_ge:
  assumes "utf8_step (c # cs) = (ok, Suc m)" and "m \<noteq> 0"
  shows "128 \<le> c \<and> (\<forall>x \<in> set (take m cs). 128 \<le> x)"
proof -
  have cont: "128 \<le> x" if "list_all cont_byte xs" "x \<in> set xs" for x xs
    using that by (auto simp: list_all_iff cont_byte_def)
  have wide: "\<not> (utf8_width c = 0 \<or> utf8_width c = 1)" using assms by (auto simp: utf8_step.simps split: if_splits)
  then have c: "128 \<le> c" using utf8_width_ge by blast
  consider "utf8_width c \<le> 2" | d ds where "\<not> utf8_width c \<le> 2" "cs = d # ds" "second_ok c d"
    using assms wide by (cases cs) (auto simp: utf8_step.simps split: if_splits)
  then show ?thesis
  proof cases
    case 1
    with assms(1) wide have "conts 1 (utf8_width c - 1) cs = (ok, Suc m)"
      by (auto simp: utf8_step.simps split: if_splits)
    from conts_bytes_any [OF this] cont c show ?thesis by auto
  next
    case (2 d ds)
    with assms(1) wide have r: "conts 2 (utf8_width c - 2) ds = (ok, Suc m)"
      by (auto simp: utf8_step.simps split: if_splits)
    have "2 \<le> Suc m" using conts_ge [OF r] .
    then obtain k where "m = Suc k" by (cases m) auto
    then show ?thesis using conts_bytes_any [OF r] cont second_ok_ge [OF 2(3)] c 2(2) by auto
  qed
qed

lemma utf8_step_ascii:
  assumes "utf8_step bs = (ok, n)" and "b \<in> set (take n bs)" and "b < 128"
  shows "take n bs = [b]"
proof (cases bs)
  case (Cons c cs)
  obtain m where n: "n = Suc m" using utf8_step_pos assms(1) Cons by (cases n) force+
  show ?thesis
  proof (cases "m = 0")
    case False
    then have "128 \<le> b" using utf8_step_ge [of c cs ok m] assms(1,2) Cons n by auto
    then show ?thesis using assms(3) by auto
  qed (use assms(2) n Cons in simp)
qed (use assms in simp)

lemma chars_ascii_byte: "c \<in> set (chars s) \<Longrightarrow> b \<in> set c \<Longrightarrow> b < 128 \<Longrightarrow> c = [b]"
proof (induction s rule: chars.induct)
  case (1 s)
  then have ne: "s \<noteq> []" by (auto simp: chars.simps)
  obtain ok n where st: "utf8_step s = (ok, n)" by fastforce
  with ne have ch: "chars s = take n s # chars (drop n s)" by (subst chars.simps) simp
  with 1(2) consider "c = take n s" | "c \<in> set (chars (drop n s))" by auto
  then show ?case
    using utf8_step_ascii [OF st] 1(1) [OF ne st [symmetric] refl] 1(3,4) by cases blast+
qed

lemma ascii_byte_is_char: "b \<in> set s \<Longrightarrow> b < 128 \<Longrightarrow> [b] \<in> set (chars s)"
  using chars_ascii_byte [of _ s b] concat_chars [of s] by (metis UN_E set_concat)

lemma chars_ascii: "is_ascii s \<Longrightarrow> chars s = map (\<lambda>b. [b]) s"
proof (induction s)
  case Nil
  show ?case by (simp add: chars.simps)
next
  case (Cons b s)
  then have "utf8_step (b # s) = (True, 1)" and "is_ascii s"
    by (auto simp: is_ascii_def utf8_width_def utf8_step.simps)
  then show ?case using Cons by (subst chars.simps) simp
qed

lemma code_point_single [simp]: "code_point [b] = unat b"
  by (simp add: code_point_def)

subsection \<open>Pieces of a string\<close>

lemma utf8_step_one: "b < 128 \<Longrightarrow> utf8_step (b # bs) = (True, 1)"
  by (simp add: utf8_step.simps utf8_width_def)

lemma valid_utf8_after_ascii: "is_ascii a \<Longrightarrow> valid_utf8 (a @ b) \<longleftrightarrow> valid_utf8 b"
proof (induction a)
  case (Cons x a)
  then have "utf8_step (x # a @ b) = (True, 1)" and "is_ascii a"
    by (simp_all add: is_ascii_def utf8_step_one)
  then show ?case using Cons(1) valid_utf8_step [of "x # a @ b" 1] by simp
qed simp

lemma valid_utf8_join: "valid_utf8 sep \<Longrightarrow> list_all valid_utf8 ss \<Longrightarrow> valid_utf8 (join sep ss)"
  by (induction sep ss rule: join.induct) (simp_all add: valid_utf8_append)

lemma length_from_utf8_lossy: "length (from_utf8_lossy bs) \<le> 3 * length bs"
proof (induction bs rule: from_utf8_lossy.induct)
  case (1 bs)
  show ?case
  proof (cases "bs = []")
    case True
    then show ?thesis by (simp add: from_utf8_lossy.simps)
  next
    case False
    obtain ok n where st: "utf8_step bs = (ok, n)" by fastforce
    have n: "1 \<le> n" "n \<le> length bs"
      using st False utf8_step_pos utf8_step_le by (cases bs; fastforce)+
    have "length (from_utf8_lossy (drop n bs)) \<le> 3 * (length bs - n)"
      using 1 [OF False _ ] st by simp
    then show ?thesis
      using False st n by (subst from_utf8_lossy.simps) (auto simp: Let_def)
  qed
qed

end
