(* ===== verification/Errors.thy ===== *)
theory Errors
  imports Rust_Num
begin

text \<open>
  The error types of \<open>wasm-smtp/src/error.rs\<close> with their constructors, conversions and
  \<open>Display\<close> texts, the \<open>SmtpOp\<close> labels, the RFC 3463 status they carry
  (\<open>EnhancedStatus\<close> of \<open>protocol.rs\<close>), and the cargo features that select what is compiled.
\<close>

subsection \<open>Cargo features\<close>

record features =
  scram_sha_256 :: bool
  xoauth2 :: bool
  oauthbearer :: bool
  pipelining :: bool

definition default_features :: features where
  "default_features =
     \<lparr>scram_sha_256 = True, xoauth2 = True, oauthbearer = True, pipelining = True\<rparr>"

subsection \<open>Enhanced status codes\<close>

record enhanced_status =
  es_class :: byte
  es_subject :: u16
  es_detail :: u16

definition to_dotted :: "enhanced_status \<Rightarrow> str" where
  "to_dotted e =
     show_word (es_class e) @ [DOT] @ show_word (es_subject e) @ [DOT] @ show_word (es_detail e)"

subsection \<open>Operations named in errors\<close>

datatype smtp_op =
    OpGreeting | OpEhlo | OpStartTls
  | OpAuthPlain | OpAuthLogin | OpAuthXOAuth2 | OpAuthOAuthBearer | OpAuthScramSha256
  | OpMailFrom | OpRcptTo | OpData | OpQuit

primrec op_as_str :: "smtp_op \<Rightarrow> str" where
  "op_as_str OpGreeting = lit ''greeting''"
| "op_as_str OpEhlo = lit ''EHLO''"
| "op_as_str OpStartTls = lit ''STARTTLS''"
| "op_as_str OpAuthPlain = lit ''AUTH PLAIN''"
| "op_as_str OpAuthLogin = lit ''AUTH LOGIN''"
| "op_as_str OpAuthXOAuth2 = lit ''AUTH XOAUTH2''"
| "op_as_str OpAuthOAuthBearer = lit ''AUTH OAUTHBEARER''"
| "op_as_str OpAuthScramSha256 = lit ''AUTH SCRAM-SHA-256''"
| "op_as_str OpMailFrom = lit ''MAIL FROM''"
| "op_as_str OpRcptTo = lit ''RCPT TO''"
| "op_as_str OpData = lit ''DATA''"
| "op_as_str OpQuit = lit ''QUIT''"

subsection \<open>Transport errors\<close>

datatype io_error_kind =
    ConnectionRefused | ConnectionReset | ConnectionAborted | TimedOut
  | OtherKind nat

text \<open>
  A \<open>dyn std::error::Error\<close> as far as \<open>IoError\<close> looks at it: whether it downcasts to
  \<open>std::io::Error\<close> (and then its kind), its text, and its own \<open>source\<close>.
\<close>

datatype std_error =
    StdIoError io_error_kind str "std_error option"
  | OtherError str "std_error option"

datatype io_error = IoError (io_message: str) (io_source: "std_error option")

definition io_error_new :: "str \<Rightarrow> io_error" where
  "io_error_new m = IoError m None"

definition with_source :: "str \<Rightarrow> std_error \<Rightarrow> io_error" where
  "with_source m src = IoError m (Some src)"

primrec std_error_text :: "std_error \<Rightarrow> str" where
  "std_error_text (StdIoError k m src) = m"
| "std_error_text (OtherError m src) = m"

definition io_error_from :: "std_error \<Rightarrow> io_error" where
  "io_error_from e = with_source (std_error_text e) e"

fun kind_in_chain :: "std_error \<Rightarrow> io_error_kind option" where
  "kind_in_chain (StdIoError k m src) = Some k"
| "kind_in_chain (OtherError m None) = None"
| "kind_in_chain (OtherError m (Some e)) = kind_in_chain e"

definition io_kind :: "io_error \<Rightarrow> io_error_kind option" where
  "io_kind e = (case io_source e of None \<Rightarrow> None | Some src \<Rightarrow> kind_in_chain src)"

definition is_timeout :: "io_error \<Rightarrow> bool" where
  "is_timeout e = (io_kind e = Some TimedOut)"

definition is_connection_refused :: "io_error \<Rightarrow> bool" where
  "is_connection_refused e = (io_kind e = Some ConnectionRefused)"

definition is_connection_reset :: "io_error \<Rightarrow> bool" where
  "is_connection_reset e = (io_kind e = Some ConnectionReset)"

definition is_connection_aborted :: "io_error \<Rightarrow> bool" where
  "is_connection_aborted e = (io_kind e = Some ConnectionAborted)"

subsection \<open>Protocol, authentication, input and policy errors\<close>

datatype protocol_error =
    UnexpectedCode smtp_op byte u16 "enhanced_status option" str
  | Malformed str
  | UnexpectedClose
  | LineTooLong
  | InconsistentMultiline u16 u16
  | ExtensionUnavailable str
  | StartTlsBufferResidue nat

datatype auth_error =
    Rejected u16 "enhanced_status option" str
  | UnsupportedMechanism
  | MalformedChallenge str
  | AuthOther str

datatype invalid_input_error = InvalidInputError (reason: str)

datatype policy_error = PolicyError (policy_message: str)

datatype smtp_error =
    Io io_error
  | Protocol protocol_error
  | Auth auth_error
  | InvalidInput invalid_input_error
  | Policy policy_error

subsection \<open>Display\<close>

definition show_protocol_error :: "protocol_error \<Rightarrow> str" where
  "show_protocol_error e = (case e of
     UnexpectedCode op cls act enh msg \<Rightarrow>
       lit ''during '' @ op_as_str op @ lit '', expected '' @ show_word cls
       @ lit ''xx response but received '' @ show_word act
       @ (case enh of Some es \<Rightarrow> lit '' ['' @ to_dotted es @ lit '']: '' | None \<Rightarrow> lit '': '')
       @ msg
   | Malformed s \<Rightarrow> lit ''malformed server reply: '' @ s
   | UnexpectedClose \<Rightarrow> lit ''server closed connection unexpectedly''
   | LineTooLong \<Rightarrow> lit ''server reply line exceeded SMTP line-length limit''
   | InconsistentMultiline first later \<Rightarrow>
       lit ''multi-line reply mixed codes '' @ show_word first @ lit '' and '' @ show_word later
   | ExtensionUnavailable name \<Rightarrow>
       lit ''server did not advertise the '' @ name @ lit '' extension''
   | StartTlsBufferResidue n \<Rightarrow>
       show_nat n @ lit '' unread byte(s) in receive buffer after STARTTLS reply ''
       @ lit ''(possible command-injection attack '' @ [0xE2, 0x80, 0x94]
       @ lit '' aborting upgrade)'')"

definition compiled_in_mechanisms :: "features \<Rightarrow> str" where
  "compiled_in_mechanisms f =
     (case (scram_sha_256 f, xoauth2 f, oauthbearer f) of
        (True, True, True) \<Rightarrow> lit ''SCRAM-SHA-256, PLAIN, LOGIN, XOAUTH2, and OAUTHBEARER''
      | (True, True, False) \<Rightarrow> lit ''SCRAM-SHA-256, PLAIN, LOGIN, and XOAUTH2''
      | (True, False, True) \<Rightarrow> lit ''SCRAM-SHA-256, PLAIN, LOGIN, and OAUTHBEARER''
      | (True, False, False) \<Rightarrow> lit ''SCRAM-SHA-256, PLAIN, and LOGIN''
      | (False, True, True) \<Rightarrow> lit ''PLAIN, LOGIN, XOAUTH2, and OAUTHBEARER''
      | (False, True, False) \<Rightarrow> lit ''PLAIN, LOGIN, and XOAUTH2''
      | (False, False, True) \<Rightarrow> lit ''PLAIN, LOGIN, and OAUTHBEARER''
      | (False, False, False) \<Rightarrow> lit ''PLAIN and LOGIN'')"

definition show_auth_error :: "features \<Rightarrow> auth_error \<Rightarrow> str" where
  "show_auth_error f e = (case e of
     Rejected code enh msg \<Rightarrow>
       lit ''server rejected authentication ('' @ show_word code
       @ (case enh of Some es \<Rightarrow> lit '' ['' @ to_dotted es @ lit '']): '' | None \<Rightarrow> lit ''): '')
       @ msg
   | UnsupportedMechanism \<Rightarrow>
       lit ''server did not advertise an AUTH mechanism supported by this client ''
       @ lit ''(this client knows '' @ compiled_in_mechanisms f @ lit '')''
   | MalformedChallenge s \<Rightarrow> lit ''server sent a malformed AUTH challenge: '' @ s
   | AuthOther detail \<Rightarrow> lit ''authentication failed: '' @ detail)"

definition show_smtp_error :: "features \<Rightarrow> smtp_error \<Rightarrow> str" where
  "show_smtp_error f e = (case e of
     Io x \<Rightarrow> lit ''smtp transport error: '' @ io_message x
   | Protocol x \<Rightarrow> lit ''smtp protocol error: '' @ show_protocol_error x
   | Auth x \<Rightarrow> lit ''smtp auth error: '' @ show_auth_error f x
   | InvalidInput x \<Rightarrow> lit ''smtp invalid input: '' @ reason x
   | Policy x \<Rightarrow> lit ''smtp policy rejected: '' @ policy_message x)"

subsection \<open>Facts\<close>

lemma io_kind_new [simp]: "io_kind (io_error_new m) = None"
  by (simp add: io_kind_def io_error_new_def)

lemma io_kind_from_io [simp]: "io_kind (io_error_from (StdIoError k m src)) = Some k"
  by (simp add: io_kind_def io_error_from_def with_source_def)

text \<open>\<open>chain n e\<close>: the error reached from \<open>e\<close> after following \<open>source\<close> \<open>n\<close> times.\<close>

primrec std_source :: "std_error \<Rightarrow> std_error option" where
  "std_source (StdIoError k m src) = src"
| "std_source (OtherError m src) = src"

fun chain :: "nat \<Rightarrow> std_error \<Rightarrow> std_error option" where
  "chain 0 e = Some e"
| "chain (Suc n) e = (case std_source e of None \<Rightarrow> None | Some e' \<Rightarrow> chain n e')"

definition is_io :: "std_error \<Rightarrow> bool" where
  "is_io e = (case e of StdIoError _ _ _ \<Rightarrow> True | OtherError _ _ \<Rightarrow> False)"

lemma kind_in_chain_first:
  assumes "kind_in_chain e = Some k"
  shows "\<exists>n m src. chain n e = Some (StdIoError k m src) \<and>
           (\<forall>j<n. \<exists>e'. chain j e = Some e' \<and> \<not> is_io e')"
  using assms
proof (induction e rule: kind_in_chain.induct)
  case (1 k' m src)
  then have "chain 0 (StdIoError k' m src) = Some (StdIoError k m src)" by simp
  then show ?case by blast
next
  case (2 m)
  then show ?case by simp
next
  case (3 m e)
  then obtain n m' src where n: "chain n e = Some (StdIoError k m' src)"
    and j: "\<forall>j<n. \<exists>e'. chain j e = Some e' \<and> \<not> is_io e'" by auto
  have "\<exists>e'. chain j (OtherError m (Some e)) = Some e' \<and> \<not> is_io e'" if "j < Suc n" for j
    using that j by (cases j) (auto simp: is_io_def)
  with n show ?case by (intro exI [of _ "Suc n"]) auto
qed

lemma kind_in_chain_none:
  "kind_in_chain e = None \<Longrightarrow> chain n e = Some e' \<Longrightarrow> \<not> is_io e'"
proof (induction e arbitrary: n rule: kind_in_chain.induct)
  case (3 m e)
  then show ?case by (cases n) (auto simp: is_io_def)
next
  case (2 m)
  then show ?case by (cases n) (auto simp: is_io_def)
qed simp

text \<open>
  \<open>io_kind\<close> of a transport error finds the \<open>io::Error\<close> nearest to it along the \<open>source\<close>
  chain: \<open>Some k\<close> is the kind of the first one, and \<open>None\<close> means that no link of the chain is an
  \<open>io::Error\<close>.
\<close>

theorem io_kind_nearest:
  "(case io_kind e of
      Some k \<Rightarrow> \<exists>src n m s. io_source e = Some src \<and> chain n src = Some (StdIoError k m s) \<and>
                  {e'. \<exists>j<n. chain j src = Some e' \<and> is_io e'} = {}
    | None \<Rightarrow> {e'. \<exists>src n. io_source e = Some src \<and> chain n src = Some e' \<and> is_io e'} = {})"
proof (cases "io_source e")
  case None
  then show ?thesis by (simp add: io_kind_def)
next
  case (Some src)
  show ?thesis
  proof (cases "kind_in_chain src")
    case None
    then show ?thesis using Some kind_in_chain_none by (auto simp: io_kind_def)
  next
    case (Some k)
    then obtain n m s where "chain n src = Some (StdIoError k m s)"
      and "\<forall>j<n. \<exists>e'. chain j src = Some e' \<and> \<not> is_io e'"
      using kind_in_chain_first by blast
    then have "\<exists>n m s. chain n src = Some (StdIoError k m s) \<and>
        {e'. \<exists>j<n. chain j src = Some e' \<and> is_io e'} = {}"
      by (intro exI [of _ n] exI [of _ m] exI [of _ s]) force
    then show ?thesis using Some \<open>io_source e = Some src\<close> by (simp add: io_kind_def)
  qed
qed

end
