(* ===== verification/Session.thy ===== *)
theory Session
  imports Prelude
begin

text \<open>
  The session state machine of \<open>wasm-smtp/src/session.rs\<close>: its states, the table of allowed
  transitions in the order of the source's match arms, and the runs the table admits.
\<close>

datatype session_state =
    Greeting | Ehlo | Authentication | StartTls | MailFrom | RcptTo | Data | Quit | Closed

instantiation session_state :: enum
begin

definition
  "enum_session_state =
     [Greeting, Ehlo, Authentication, StartTls, MailFrom, RcptTo, Data, Quit, Closed]"

definition
  "enum_all_session_state P \<longleftrightarrow>
     P Greeting \<and> P Ehlo \<and> P Authentication \<and> P StartTls \<and> P MailFrom \<and> P RcptTo \<and>
     P Data \<and> P Quit \<and> P Closed"

definition
  "enum_ex_session_state P \<longleftrightarrow>
     P Greeting \<or> P Ehlo \<or> P Authentication \<or> P StartTls \<or> P MailFrom \<or> P RcptTo \<or>
     P Data \<or> P Quit \<or> P Closed"

instance
proof
  have all: "x \<in> set (enum_class.enum :: session_state list)" for x
    by (cases x) (simp_all add: enum_session_state_def)
  then show "(UNIV :: session_state set) = set enum_class.enum" by auto
  show "distinct (enum_class.enum :: session_state list)"
    by (simp add: enum_session_state_def)
  have range: "(UNIV :: session_state set) =
      {Greeting, Ehlo, Authentication, StartTls, MailFrom, RcptTo, Data, Quit, Closed}"
    using all by (auto simp: enum_session_state_def)
  show "enum_class.enum_all P \<longleftrightarrow> Ball (UNIV :: session_state set) P" for P
    unfolding range by (simp add: enum_all_session_state_def)
  show "enum_class.enum_ex P \<longleftrightarrow> Bex (UNIV :: session_state set) P" for P
    unfolding range by (simp add: enum_ex_session_state_def)
qed

end

definition is_terminal :: "session_state \<Rightarrow> bool" where
  "is_terminal s = (s = Closed)"

definition can_transition_to :: "session_state \<Rightarrow> session_state \<Rightarrow> bool" where
  "can_transition_to s n = (case (s, n) of
     (_, Closed) \<Rightarrow> True
   | (Greeting, Quit) \<Rightarrow> True | (Ehlo, Quit) \<Rightarrow> True | (Authentication, Quit) \<Rightarrow> True
   | (MailFrom, Quit) \<Rightarrow> True | (RcptTo, Quit) \<Rightarrow> True | (Data, Quit) \<Rightarrow> True
   | (Greeting, Ehlo) \<Rightarrow> True
   | (Ehlo, Authentication) \<Rightarrow> True
   | (Authentication, StartTls) \<Rightarrow> True
   | (StartTls, Ehlo) \<Rightarrow> True
   | (Ehlo, MailFrom) \<Rightarrow> True | (Authentication, MailFrom) \<Rightarrow> True
   | (MailFrom, MailFrom) \<Rightarrow> True
   | (MailFrom, RcptTo) \<Rightarrow> True
   | (RcptTo, RcptTo) \<Rightarrow> True
   | (RcptTo, Data) \<Rightarrow> True
   | (Data, MailFrom) \<Rightarrow> True
   | _ \<Rightarrow> False)"

lemma can_transition_to_Closed [simp]: "can_transition_to s Closed"
  by (cases s) (simp_all add: can_transition_to_def)

lemma closed_is_final: "can_transition_to Closed n \<longleftrightarrow> n = Closed"
  by (cases n) (simp_all add: can_transition_to_def)

text \<open>
  Runs: the states a session has been in, the latest first.  A run starts in \<open>Greeting\<close> and is
  extended only along the table.
\<close>

inductive session_run :: "session_state list \<Rightarrow> bool" where
  session_start: "session_run [Greeting]"
| session_next: "session_run (s # tr) \<Longrightarrow> can_transition_to s n \<Longrightarrow> session_run (n # s # tr)"

inductive_cases session_run_consE: "session_run (n # s # tr)"

inductive_simps session_run_single: "session_run [s]"

text \<open>The states that must lie behind a state, whatever the run.\<close>

primrec behind :: "session_state \<Rightarrow> session_state list" where
  "behind Greeting = [Greeting]"
| "behind Ehlo = [Ehlo, Greeting]"
| "behind Authentication = [Authentication, Ehlo, Greeting]"
| "behind StartTls = [StartTls, Authentication, Ehlo, Greeting]"
| "behind MailFrom = [MailFrom, Ehlo, Greeting]"
| "behind RcptTo = [RcptTo, MailFrom, Ehlo, Greeting]"
| "behind Data = [Data, RcptTo, MailFrom, Ehlo, Greeting]"
| "behind Quit = [Quit, Greeting]"
| "behind Closed = [Closed, Greeting]"

lemma behind_step: "can_transition_to s n \<Longrightarrow> s \<noteq> Closed \<Longrightarrow> subseq (behind n) (n # behind s)"
  by (cases s; cases n) (simp_all add: can_transition_to_def)

lemma behind_Closed: "session_run (Closed # tr) \<Longrightarrow> tr \<noteq> []"
  by (auto simp: session_run_single)

lemma session_run_behind:
  assumes "session_run (s # tr)"
  shows "subseq (behind s) (s # tr)"
  using assms
proof (induction "s # tr" arbitrary: s tr rule: session_run.induct)
  case session_start
  then show ?case by simp
next
  case (session_next s tr n)
  show ?case
  proof (cases "s = Closed")
    case True
    with session_next have "n = Closed" by (simp add: closed_is_final)
    moreover have "subseq [Greeting] tr"
      using session_next(2) True by simp
    ultimately show ?thesis by (simp add: True list_emb_Cons)
  next
    case False
    with session_next have "subseq (behind n) (n # behind s)" by (simp add: behind_step)
    moreover have "subseq (n # behind s) (n # s # tr)" using session_next(2) by simp
    ultimately show ?thesis by (rule subseq_order.order_trans)
  qed
qed

lemma session_run_suffix:
  assumes "session_run (xs @ s # ys)"
  shows "session_run (s # ys)"
  using assms
proof (induction xs)
  case Nil
  then show ?case by simp
next
  case (Cons x xs)
  then show ?case by (cases xs) (auto elim: session_run_consE)
qed

text \<open>After STARTTLS has been entered, nothing but \<open>Closed\<close> can follow without a new EHLO.\<close>

lemma starttls_only_closed:
  assumes "session_run (ys @ StartTls # zs)" and "Ehlo \<notin> set ys"
  shows "set ys \<subseteq> {Closed}"
  using assms
proof (induction ys)
  case Nil
  then show ?case by simp
next
  case (Cons y ys)
  then have run: "session_run (ys @ StartTls # zs)" and sub: "set ys \<subseteq> {Closed}"
    by (cases ys; auto elim: session_run_consE)+
  have "can_transition_to (hd (ys @ [StartTls])) y"
    using Cons.prems(1) by (cases ys) (auto elim: session_run_consE)
  moreover have "hd (ys @ [StartTls]) \<in> {Closed, StartTls}"
    using sub by (cases ys) auto
  ultimately have "y \<in> {Closed, Ehlo}"
    by (cases y) (auto simp: can_transition_to_def)
  with Cons.prems(2) sub show ?case by auto
qed

subsection \<open>Properties\<close>

text \<open>
  No run of the session reaches DATA without having passed, in this order, through the
  greeting, EHLO, MAIL FROM and RCPT TO: the states behind any visit to \<open>Data\<close> contain them as a
  subsequence (latest first).
\<close>

theorem data_needs_envelope:
  assumes "session_run (xs @ Data # ys)"
  shows "subseq [RcptTo, MailFrom, Ehlo, Greeting] ys"
  using session_run_behind [OF session_run_suffix [OF assms]] by simp

theorem data_needs_envelope_witness:
  "session_run ([] @ Data # [RcptTo, MailFrom, Authentication, Ehlo, Greeting]) \<and>
   subseq [RcptTo, MailFrom, Ehlo, Greeting] [RcptTo, MailFrom, Authentication, Ehlo, Greeting]"
proof -
  have "session_run ([] @ Data # [RcptTo, MailFrom, Authentication, Ehlo, Greeting])"
    by (auto intro!: session_run.intros simp: can_transition_to_def)
  then show ?thesis using data_needs_envelope by blast
qed

text \<open>
  Once STARTTLS has been entered, the session cannot be in any phase of the protocol again
  (authentication, MAIL FROM, RCPT TO, DATA, QUIT) before a new EHLO: what the plaintext EHLO
  negotiated is never used after the upgrade.
\<close>

theorem starttls_forces_new_ehlo:
  assumes "session_run (xs @ s # ys @ StartTls # zs)" and "s \<notin> {Ehlo, Closed}"
  shows "Ehlo \<in> set ys"
proof (rule ccontr)
  assume no: "Ehlo \<notin> set ys"
  have run: "session_run ((s # ys) @ StartTls # zs)"
    using session_run_suffix [of xs s "ys @ StartTls # zs"] assms(1) by simp
  have "set (s # ys) \<subseteq> {Closed}"
    by (rule starttls_only_closed [OF run]) (use assms(2) no in auto)
  then show False using assms(2) by simp
qed

theorem starttls_forces_new_ehlo_witness:
  "session_run ([] @ MailFrom # [Authentication, Ehlo] @ StartTls # [Authentication, Ehlo, Greeting])
   \<and> Ehlo \<in> set [Authentication, Ehlo]"
proof -
  have "session_run ([] @ MailFrom # [Authentication, Ehlo] @
          StartTls # [Authentication, Ehlo, Greeting])"
    by (auto intro!: session_run.intros simp: can_transition_to_def)
  moreover have "MailFrom \<notin> {Ehlo, Closed}" by simp
  ultimately show ?thesis using starttls_forces_new_ehlo by blast
qed

text \<open>
  Exactly which states admit QUIT, and where a session ends: QUIT may follow every active
  state but \<open>StartTls\<close> (so not every state, as the module's diagram text says), every state may
  move to \<open>Closed\<close>, and \<open>Closed\<close> is the one terminal state, which nothing leaves.
\<close>

theorem quit_and_closed_transitions:
  "(can_transition_to s Quit \<longleftrightarrow> s \<notin> {StartTls, Quit, Closed}) \<and>
   can_transition_to s Closed \<and>
   (is_terminal s \<longleftrightarrow> {n. can_transition_to s n} = {s})"
proof -
  have "can_transition_to s Quit \<longleftrightarrow> s \<notin> {StartTls, Quit, Closed}"
    by (cases s) (simp_all add: can_transition_to_def)
  moreover have "{n. can_transition_to s n} = {s}" if "s = Closed"
    using that by (simp add: closed_is_final)
  moreover have "{n. can_transition_to s n} \<noteq> {s}" if "s \<noteq> Closed"
    using that can_transition_to_Closed [of s] by (metis mem_Collect_eq singletonD)
  ultimately show ?thesis by (auto simp: is_terminal_def)
qed

end
