(* ===== verification/Reply.thy ===== *)
theory Reply
  imports Errors Utf8
begin

text \<open>
  Server replies, as \<open>wasm-smtp/src/protocol.rs\<close> reads them: one reply line, the RFC 3463 prefix
  of its text, and the reply assembled from the lines.
\<close>

definition MAX_REPLY_LINE_LEN :: nat where "MAX_REPLY_LINE_LEN = 998"
definition MAX_REPLY_LINES :: nat where "MAX_REPLY_LINES = 128"

record reply_line =
  rl_code :: u16
  rl_is_last :: bool
  rl_text :: "byte list"

definition ascii_digit_value :: "byte \<Rightarrow> byte option" where
  "ascii_digit_value b = (if is_ascii_digit b then Some (b - 48) else None)"

definition malformed :: "byte list \<Rightarrow> protocol_error" where
  "malformed line = Malformed (from_utf8_lossy line)"

definition parse_reply_line :: "byte list \<Rightarrow> protocol_error + reply_line" where
  "parse_reply_line line =
     (if length line < 3 then Err (malformed line)
      else case ascii_digit_value (line ! 0) of None \<Rightarrow> Err (malformed line) | Some d0 \<Rightarrow>
           case ascii_digit_value (line ! 1) of None \<Rightarrow> Err (malformed line) | Some d1 \<Rightarrow>
           case ascii_digit_value (line ! 2) of None \<Rightarrow> Err (malformed line) | Some d2 \<Rightarrow>
             let code = ucast d0 * 100 + ucast d1 * 10 + ucast d2 in
             if length line = 3 then Ok \<lparr>rl_code = code, rl_is_last = True, rl_text = []\<rparr>
             else if line ! 3 = 32 then
               Ok \<lparr>rl_code = code, rl_is_last = True, rl_text = drop 4 line\<rparr>
             else if line ! 3 = 45 then
               Ok \<lparr>rl_code = code, rl_is_last = False, rl_text = drop 4 line\<rparr>
             else Err (malformed line))"

definition parse_enhanced_status_prefix :: "str \<Rightarrow> (enhanced_status \<times> nat) option" where
  "parse_enhanced_status_prefix text =
     (if length text < 5 then None
      else let class_byte = text ! 0 in
        if \<not> (class_byte = 50 \<or> class_byte = 52 \<or> class_byte = 53) \<or> text ! 1 \<noteq> DOT then None
        else let i = scan_digits text 2 in
          if i = 2 \<or> length text \<le> i \<or> text ! i \<noteq> DOT then None
          else case parse_uint 65535 (slice text 2 i) of None \<Rightarrow> None | Some subject \<Rightarrow>
            let det_start = i + 1; j = scan_digits text det_start in
            if j = det_start then None
            else case parse_uint 65535 (slice text det_start j) of None \<Rightarrow> None | Some detail \<Rightarrow>
              Some (\<lparr>es_class = class_byte - 48, es_subject = of_nat subject,
                     es_detail = of_nat detail\<rparr>,
                    if j < length text \<and> (text ! j = SP \<or> text ! j = HT) then j + 1 else j))"

record reply =
  r_code :: u16
  r_lines :: "str list"
  r_enhanced :: "enhanced_status option"

definition reply_new :: "u16 \<Rightarrow> str list \<Rightarrow> reply" where
  "reply_new code lines = \<lparr>r_code = code, r_lines = lines, r_enhanced = None\<rparr>"

definition reply_class :: "reply \<Rightarrow> byte" where
  "reply_class r =
     (let q = unat (r_code r div 100) in if q \<le> 255 then of_nat q else 0)"

definition joined_text :: "reply \<Rightarrow> str" where
  "joined_text r = join [LF] (r_lines r)"

definition message_text :: "reply \<Rightarrow> str" where
  "message_text r =
     (if r_enhanced r = None then joined_text r
      else join [LF]
        (map (\<lambda>line. case parse_enhanced_status_prefix line of
                       Some (_, n) \<Rightarrow> drop n line
                     | None \<Rightarrow> line) (r_lines r)))"

definition attach_enhanced_status :: "enhanced_status \<Rightarrow> reply \<Rightarrow> reply" where
  "attach_enhanced_status es r = r\<lparr>r_enhanced := Some es\<rparr>"

definition try_parse_enhanced :: "reply \<Rightarrow> enhanced_status option" where
  "try_parse_enhanced r =
     (case r_lines r of
        [] \<Rightarrow> None
      | line # _ \<Rightarrow> map_option fst (parse_enhanced_status_prefix line))"

subsection \<open>Reply lines\<close>

lemma ascii_digit_value_Some:
  "ascii_digit_value b = Some d \<longleftrightarrow> is_ascii_digit b \<and> d = b - 48"
  by (auto simp: ascii_digit_value_def)

lemma ascii_digit_value_None: "ascii_digit_value b = None \<longleftrightarrow> \<not> is_ascii_digit b"
  by (simp add: ascii_digit_value_def)

text \<open>What a well-formed reply line looks like.\<close>

definition code_of :: "byte \<Rightarrow> byte \<Rightarrow> byte \<Rightarrow> u16" where
  "code_of a b c = ucast (a - 48) * 100 + ucast (b - 48) * 10 + ucast (c - 48)"

definition spells_line :: "byte list \<Rightarrow> reply_line \<Rightarrow> bool" where
  "spells_line line rl =
     (\<exists>a b c. is_ascii_digit a \<and> is_ascii_digit b \<and> is_ascii_digit c \<and>
        rl_code rl = code_of a b c \<and>
        (line = [a, b, c] \<and> rl_is_last rl \<and> rl_text rl = []
         \<or> line = [a, b, c, SP] @ rl_text rl \<and> rl_is_last rl
         \<or> line = [a, b, c, 45] @ rl_text rl \<and> \<not> rl_is_last rl))"

lemma list3E:
  assumes "\<not> length xs < 3"
  obtains a b c r where "xs = a # b # c # r"
  using assms by (cases xs; cases "tl xs"; cases "tl (tl xs)") auto

lemma parse_reply_line_cons:
  "parse_reply_line (a # b # c # r) =
     (if \<not> (is_ascii_digit a \<and> is_ascii_digit b \<and> is_ascii_digit c)
      then Err (malformed (a # b # c # r))
      else case r of
        [] \<Rightarrow> Ok \<lparr>rl_code = code_of a b c, rl_is_last = True, rl_text = []\<rparr>
      | d # t \<Rightarrow>
          if d = 32 then Ok \<lparr>rl_code = code_of a b c, rl_is_last = True, rl_text = t\<rparr>
          else if d = 45 then Ok \<lparr>rl_code = code_of a b c, rl_is_last = False, rl_text = t\<rparr>
          else Err (malformed (a # b # c # r)))"
  by (cases r)
     (auto simp: parse_reply_line_def ascii_digit_value_def code_of_def Let_def
        split: option.splits)

lemma code_of_nat:
  assumes "is_ascii_digit a" "is_ascii_digit b" "is_ascii_digit c"
  shows "unat (code_of a b c) =
           unat (a - 48) * 100 + unat (b - 48) * 10 + unat (c - 48)" and "code_of a b c < 1000"
proof -
  have lt: "unat (x - 48) < 10" if "is_ascii_digit x" for x :: byte
  proof -
    have "48 \<le> unat x" "unat x \<le> 57"
      using that by (auto simp: is_ascii_digit_def word_le_nat_alt)
    moreover have "unat (x - 48) = unat x - 48"
      using that by (simp add: is_ascii_digit_def unat_sub)
    ultimately show ?thesis by linarith
  qed
  have u: "unat (ucast x :: u16) = unat x" for x :: byte
    by simp
  note abc = lt [OF assms(1)] lt [OF assms(2)] lt [OF assms(3)]
  show eq: "unat (code_of a b c) =
           unat (a - 48) * 100 + unat (b - 48) * 10 + unat (c - 48)"
    unfolding code_of_def using abc
    by (simp add: unat_word_ariths)
  show "code_of a b c < 1000"
    unfolding word_less_nat_alt eq using abc by simp
qed

subsection \<open>Enhanced status codes\<close>

lemma takeWhile_digits_show:
  assumes "\<not> (case rest of b # _ \<Rightarrow> is_ascii_digit b | [] \<Rightarrow> False)"
  shows "takeWhile is_ascii_digit (show_nat n @ rest) = show_nat n"
proof -
  have "takeWhile is_ascii_digit rest = []" using assms by (cases rest) auto
  moreover have "\<And>b. b \<in> set (show_nat n) \<Longrightarrow> is_ascii_digit b"
    using show_nat_digits by (auto simp: list_all_iff)
  ultimately show ?thesis by (simp add: takeWhile_append2)
qed

lemma dot_not_digit [simp]: "\<not> is_ascii_digit DOT"
  by (simp add: is_ascii_digit_def)

text \<open>The number of bytes of white space consumed after the code.\<close>

definition one_blank :: "str \<Rightarrow> nat" where
  "one_blank rest = (case rest of b # _ \<Rightarrow> if b = SP \<or> b = HT then 1 else 0 | [] \<Rightarrow> 0)"

lemma parse_enhanced_ok:
  assumes c: "c = 50 \<or> c = 52 \<or> c = 53"
    and s: "takeWhile is_ascii_digit s = s" "s \<noteq> []" "parse_uint 65535 s = Some sn"
    and d: "takeWhile is_ascii_digit d = d" "d \<noteq> []" "parse_uint 65535 d = Some dn"
    and rest: "\<not> (case rest of b # _ \<Rightarrow> is_ascii_digit b | [] \<Rightarrow> False)"
  shows "parse_enhanced_status_prefix ([c, DOT] @ s @ [DOT] @ d @ rest) =
     Some (\<lparr>es_class = c - 48, es_subject = of_nat sn, es_detail = of_nat dn\<rparr>,
           length s + length d + 3 + one_blank rest)"
proof -
  define t where t: "t = [c, DOT] @ s @ [DOT] @ d @ rest"
  define i where i: "i = length s + 2"
  define j where j: "j = i + 1 + length d"
  have tw: "takeWhile is_ascii_digit (x @ y) = x"
    if "takeWhile is_ascii_digit x = x" "takeWhile is_ascii_digit y = []" for x y :: str
    using that by (metis takeWhile_append2 append_Nil2 takeWhile_eq_all_conv)
  have r0: "takeWhile is_ascii_digit rest = []" using rest by (cases rest) auto
  have "drop 2 t = s @ [DOT] @ d @ rest" by (simp add: t)
  then have sd: "takeWhile is_ascii_digit (drop 2 t) = s" using tw s by simp
  have "drop (i + 1) t = d @ rest" by (simp add: t i)
  then have dr: "takeWhile is_ascii_digit (drop (i + 1) t) = d" using tw d r0 by simp
  have rest_t: "drop j t = rest" by (simp add: t i j)
  have si: "scan_digits t 2 = i" and sl1: "slice t 2 i = s"
    using slice_scan_digits [of t 2] sd by (simp_all add: scan_digits_takeWhile i)
  have sj: "scan_digits t (i + 1) = j"
    using dr by (simp add: scan_digits_takeWhile j)
  have sl2: "slice t (i + 1) j = d"
    using slice_scan_digits [of t "i + 1"] dr sj by simp
  have t0: "t ! 0 = c" "t ! 1 = DOT" "t ! i = DOT" by (simp_all add: t i nth_append)
  have len: "length t = j + length rest" by (simp add: t i j)
  have ge: "i \<noteq> 2" "j \<noteq> i + 1" "\<not> length t \<le> i" "\<not> length t < 5"
    using s d len by (cases s; cases d; simp add: i j)+
  have blank: "(if j < length t \<and> (t ! j = SP \<or> t ! j = HT) then j + 1 else j)
      = length s + length d + 3 + one_blank rest"
    using rest_t len
    by (cases rest) (auto simp: one_blank_def i j take_drop_Cons_nth split: if_splits)
  have "parse_enhanced_status_prefix t =
     Some (\<lparr>es_class = c - 48, es_subject = of_nat sn, es_detail = of_nat dn\<rparr>,
           length s + length d + 3 + one_blank rest)"
    using c
    by (simp only: parse_enhanced_status_prefix_def Let_def si sj sl1 sl2 t0 s d blank ge
          option.case if_False simp_thms)
  then show ?thesis by (simp add: t)
qed

text \<open>The texts that carry a code, the code, and the bytes its prefix takes.\<close>

definition digit_run :: "str \<Rightarrow> bool" where
  "digit_run s = (s \<noteq> [] \<and> list_all is_ascii_digit s)"

definition spells_enhanced :: "str \<Rightarrow> enhanced_status \<Rightarrow> nat \<Rightarrow> bool" where
  "spells_enhanced text es n =
     (\<exists>c s d rest. text = [c, DOT] @ s @ [DOT] @ d @ rest \<and>
        (c = 50 \<or> c = 52 \<or> c = 53) \<and> digit_run s \<and> digit_run d \<and>
        \<not> (case rest of b # _ \<Rightarrow> is_ascii_digit b | [] \<Rightarrow> False) \<and>
        parse_uint 65535 s = Some (unat (es_subject es)) \<and>
        parse_uint 65535 d = Some (unat (es_detail es)) \<and>
        es_class es = c - 48 \<and> n = length s + length d + 3 + one_blank rest)"

lemma digit_run_takeWhile: "digit_run s \<longleftrightarrow> s \<noteq> [] \<and> takeWhile is_ascii_digit s = s"
  by (auto simp: digit_run_def list_all_iff)

lemma unat_of_parse: "parse_uint 65535 s = Some n \<Longrightarrow> unat (of_nat n :: u16) = n"
  using parse_uint_bound [of 65535 s n] by (simp add: unat_of_nat)

lemma drop_scan_digits:
  "drop (scan_digits bs i) bs = dropWhile is_ascii_digit (drop i bs)"
  by (simp add: scan_digits_takeWhile dropWhile_eq_drop add.commute)

lemma scan_digits_split:
  "drop i bs = slice bs i (scan_digits bs i) @ drop (scan_digits bs i) bs"
proof -
  have "drop (scan_digits bs i) bs = dropWhile is_ascii_digit (drop i bs)"
    by (simp add: drop_scan_digits)
  then show ?thesis by (simp add: slice_scan_digits)
qed

lemma scan_digits_rest:
  "\<not> (case drop (scan_digits bs i) bs of b # _ \<Rightarrow> is_ascii_digit b | [] \<Rightarrow> False)"
  unfolding drop_scan_digits by (induction "drop i bs" rule: list.induct)
     (metis (no_types, lifting) dropWhile.simps(1) list.case(1), metis hd_dropWhile list.case_eq_if)

lemma scan_digits_ge: "i \<le> scan_digits bs i"
  by (simp add: scan_digits_takeWhile)

lemma digit_run_slice:
  assumes "scan_digits bs i \<noteq> i"
  shows "digit_run (slice bs i (scan_digits bs i))"
proof -
  have "takeWhile is_ascii_digit (drop i bs) \<noteq> []"
    using assms by (auto simp: scan_digits_takeWhile)
  then show ?thesis
    by (simp add: digit_run_takeWhile slice_scan_digits)
qed

lemma parse_enhanced_sound:
  assumes "parse_enhanced_status_prefix t = Some (es, n)"
  shows "spells_enhanced t es n"
proof -
  define i where i: "i = scan_digits t 2"
  define j where j: "j = scan_digits t (Suc i)"
  define s where s: "s = slice t 2 i"
  define d where d: "d = slice t (Suc i) j"
  from assms obtain sn dn where len: "\<not> length t < 5"
    and c: "t ! 0 = 50 \<or> t ! 0 = 52 \<or> t ! 0 = 53" and t1: "t ! 1 = DOT"
    and ni: "i \<noteq> 2" "i < length t" "t ! i = DOT" and nj: "j \<noteq> Suc i"
    and sn: "parse_uint 65535 s = Some sn" and dn: "parse_uint 65535 d = Some dn"
    and es: "es = \<lparr>es_class = t ! 0 - 48, es_subject = of_nat sn, es_detail = of_nat dn\<rparr>"
    and n: "n = (if j < length t \<and> (t ! j = SP \<or> t ! j = HT) then j + 1 else j)"
    by (auto simp: parse_enhanced_status_prefix_def Let_def i [symmetric] j [symmetric]
          s [symmetric] d [symmetric] split: if_splits option.splits)
  have "t = t ! 0 # t ! 1 # drop 2 t"
    using len by (cases t; cases "tl t") auto
  moreover have "drop 2 t = s @ drop i t"
    unfolding s i by (rule scan_digits_split)
  moreover have "drop i t = DOT # drop (Suc i) t"
    using ni by (simp add: take_drop_Cons_nth)
  moreover have "drop (Suc i) t = d @ drop j t"
    unfolding d j by (rule scan_digits_split)
  ultimately have tx: "t = [t ! 0, DOT] @ s @ [DOT] @ d @ drop j t"
    using t1 by simp
  have run: "digit_run s" "digit_run d"
    using digit_run_slice [of t] ni nj by (simp_all add: s d i j)
  have "\<not> (case drop j t of b # _ \<Rightarrow> is_ascii_digit b | [] \<Rightarrow> False)"
    unfolding j by (rule scan_digits_rest)
  moreover have "n = length s + length d + 3 + one_blank (drop j t)"
  proof -
    have "j = length s + length d + 3"
      using slice_scan_digits [of t 2] slice_scan_digits [of t "Suc i"]
      by (simp add: s d i j scan_digits_takeWhile)
    then show ?thesis
      by (cases "j < length t") (auto simp: n one_blank_def take_drop_Cons_nth)
  qed
  ultimately show ?thesis
    unfolding spells_enhanced_def
    using tx c run sn dn es unat_of_parse
    by (intro exI [of _ "t ! 0"] exI [of _ s] exI [of _ d] exI [of _ "drop j t"]) simp
qed

lemma parse_enhanced_complete:
  assumes "spells_enhanced text es n"
  shows "parse_enhanced_status_prefix text = Some (es, n)"
proof -
  from assms obtain c s d rest where tx: "text = [c, DOT] @ s @ [DOT] @ d @ rest"
    and c: "c = 50 \<or> c = 52 \<or> c = 53" and s: "digit_run s" and d: "digit_run d"
    and r: "\<not> (case rest of b # _ \<Rightarrow> is_ascii_digit b | [] \<Rightarrow> False)"
    and sn: "parse_uint 65535 s = Some (unat (es_subject es))"
    and dn: "parse_uint 65535 d = Some (unat (es_detail es))"
    and cls: "es_class es = c - 48" and n: "n = length s + length d + 3 + one_blank rest"
    unfolding spells_enhanced_def by blast
  have "parse_enhanced_status_prefix ([c, DOT] @ s @ [DOT] @ d @ rest) =
     Some (\<lparr>es_class = c - 48, es_subject = of_nat (unat (es_subject es)),
            es_detail = of_nat (unat (es_detail es))\<rparr>,
           length s + length d + 3 + one_blank rest)"
    using s d by (intro parse_enhanced_ok [OF c _ _ sn _ _ dn r]) (simp_all add: digit_run_takeWhile)
  then show ?thesis using cls n tx by simp
qed

lemma to_dotted_spells:
  assumes "es_class es \<in> {2, 4, 5}" and "\<not> (case rest of b # _ \<Rightarrow> is_ascii_digit b | [] \<Rightarrow> False)"
  shows "spells_enhanced (to_dotted es @ rest) es (length (to_dotted es) + one_blank rest)"
proof -
  let ?s = "show_word (es_subject es)" and ?d = "show_word (es_detail es)"
  have run: "digit_run (show_word w)" for w :: u16
    by (simp add: digit_run_def show_word_def show_nat_digits)
  have num: "parse_uint 65535 (show_word w) = Some (unat w)" for w :: u16
  proof -
    have "unat w < 65536" using unsigned_less [of w, where 'a = nat] by simp
    then show ?thesis by (simp add: show_word_def parse_uint_show_nat)
  qed
  have cls: "show_word (es_class es) = [es_class es + 48]"
    using assms(1) by (auto simp: show_word_def show_nat_small)
  then have "to_dotted es @ rest = [es_class es + 48, DOT] @ ?s @ [DOT] @ ?d @ rest"
    by (simp add: to_dotted_def)
  moreover have "es_class es + 48 = 50 \<or> es_class es + 48 = 52 \<or> es_class es + 48 = 53"
    using assms(1) by auto
  moreover have "length (to_dotted es) = length ?s + length ?d + 3"
    by (simp add: to_dotted_def cls)
  ultimately show ?thesis
    unfolding spells_enhanced_def using run num assms(2)
    by (intro exI [of _ "es_class es + 48"] exI [of _ ?s] exI [of _ ?d] exI [of _ rest]) simp
qed

text \<open>
  The prefix is ASCII, so cutting it off leaves a string.
\<close>

lemma spells_enhanced_ascii:
  assumes "spells_enhanced text es n"
  shows "is_ascii (take n text)"
proof -
  have digit: "b < 128" if "is_ascii_digit b" for b
    using that by (auto simp: is_ascii_digit_def word_le_nat_alt word_less_nat_alt)
  obtain c s d rest where t: "text = [c, DOT] @ s @ [DOT] @ d @ rest"
    and c: "c = 50 \<or> c = 52 \<or> c = 53" and "digit_run s" "digit_run d"
    and n: "n = length ([c, DOT] @ s @ [DOT] @ d) + one_blank rest"
    using assms by (auto simp: spells_enhanced_def)
  then have "is_ascii ([c, DOT] @ s @ [DOT] @ d)"
    using digit by (auto simp: is_ascii_def digit_run_def list_all_iff)
  moreover have "is_ascii (take (one_blank rest) rest)"
    by (cases rest) (auto simp: one_blank_def is_ascii_def)
  moreover have "take n text = ([c, DOT] @ s @ [DOT] @ d) @ take (one_blank rest) rest"
    by (simp add: t n)
  ultimately show ?thesis by (simp add: is_ascii_def)
qed

lemma valid_message_text: "list_all valid_utf8 (r_lines r) \<Longrightarrow> valid_utf8 (message_text r)"
proof -
  assume lines: "list_all valid_utf8 (r_lines r)"
  have lf: "valid_utf8 [LF]" by (simp add: valid_utf8_ascii is_ascii_def)
  have "valid_utf8 (drop n l)" if "parse_enhanced_status_prefix l = Some (es, n)" "valid_utf8 l" for es n l
    using spells_enhanced_ascii [OF parse_enhanced_sound [OF that(1)]] that(2)
      valid_utf8_after_ascii [of "take n l" "drop n l"] by simp
  then have "list_all valid_utf8 (map (\<lambda>line. case parse_enhanced_status_prefix line of
      Some (_, n) \<Rightarrow> drop n line | None \<Rightarrow> line) (r_lines r))"
    using lines by (auto simp: list_all_iff split: option.splits)
  then show ?thesis
    using lines lf by (simp add: message_text_def joined_text_def valid_utf8_join)
qed

lemma parse_reply_line_spec:
  "(case parse_reply_line line of
      Ok rl \<Rightarrow> spells_line line rl
    | Err e \<Rightarrow> e = Malformed (from_utf8_lossy line) \<and> \<not> (\<exists>rl. spells_line line rl))"
proof (cases "length line < 3")
  case True
  then show ?thesis by (auto simp: parse_reply_line_def malformed_def spells_line_def)
next
  case False
  then obtain a b c r where line: "line = a # b # c # r" by (rule list3E)
  show ?thesis
    by (cases r) (auto simp: line parse_reply_line_cons malformed_def spells_line_def)
qed

lemma parse_reply_line_sound: "parse_reply_line line = Ok p \<Longrightarrow> spells_line line p"
  using parse_reply_line_spec [of line] by simp

subsection \<open>Properties\<close>

text \<open>
  C37: \<open>parse_reply_line\<close> accepts exactly the lines that consist of three ASCII digits, alone or
  followed by a space (last line) or a hyphen (continuation) and arbitrary bytes; it returns their
  code, kind and text; every other line is rejected as \<open>Malformed\<close> with its lossily decoded bytes.
\<close>

theorem parse_reply_line_exact:
  "(case parse_reply_line line of
      Ok rl \<Rightarrow> spells_line line rl
    | Err e \<Rightarrow> e = Malformed (from_utf8_lossy line) \<and> \<not> (\<exists>rl. spells_line line rl))"
  by (rule parse_reply_line_spec)

text \<open>
  The RFC 3463 prefix is found exactly where it is spelled: a class digit 2, 4 or 5, two
  dot-separated runs of digits, each at most 65535, followed by anything but a digit; the result
  is the code they denote and the number of bytes up to and including one blank after it.
\<close>

theorem parse_enhanced_exact:
  "parse_enhanced_status_prefix text = Some (es, n) \<longleftrightarrow> spells_enhanced text es n"
  using parse_enhanced_sound parse_enhanced_complete by blast

text \<open>
  Round trip of enhanced status codes: what \<open>to_dotted\<close> prints is read back, whatever text
  follows the blank, so \<open>message_text\<close> of a one-line reply that carries the code is that text.
\<close>

theorem enhanced_roundtrip:
  assumes "es_class es \<in> {2, 4, 5}"
  shows "try_parse_enhanced (reply_new code [to_dotted es @ SP # msg]) = Some es \<and>
     message_text (attach_enhanced_status es (reply_new code [to_dotted es @ SP # msg])) = msg"
proof -
  have "spells_enhanced (to_dotted es @ SP # msg) es (length (to_dotted es) + 1)"
    using to_dotted_spells [OF assms, of "SP # msg"] by (simp add: one_blank_def is_ascii_digit_def)
  then have "parse_enhanced_status_prefix (to_dotted es @ SP # msg) =
      Some (es, length (to_dotted es) + 1)"
    by (rule parse_enhanced_complete)
  then show ?thesis
    by (simp add: try_parse_enhanced_def reply_new_def message_text_def attach_enhanced_status_def)
qed

theorem enhanced_roundtrip_witness:
  "let es = \<lparr>es_class = 5, es_subject = 7, es_detail = 1\<rparr>
   in try_parse_enhanced (reply_new 550 [lit ''5.7.1 no'']) = Some es \<and>
      message_text (attach_enhanced_status es (reply_new 550 [lit ''5.7.1 no''])) = lit ''no''"
proof -
  let ?es = "\<lparr>es_class = 5, es_subject = 7, es_detail = 1\<rparr>"
  have "to_dotted ?es @ SP # lit ''no'' = lit ''5.7.1 no''"
    by (simp add: to_dotted_def show_word_def show_nat.simps lit_def)
  then show ?thesis using enhanced_roundtrip [of ?es 550 "lit ''no''"] by simp
qed

end
