(* ===== verification/Command.thy ===== *)
theory Command
  imports Errors Utf8
begin

text \<open>
  Commands and the checks that guard them, from \<open>wasm-smtp/src/protocol.rs\<close>: the formatters of
  the command lines, the validators of what the caller may put into one, and the proof that a
  validated argument cannot end the line early.
\<close>

definition MAX_ADDRESS_LEN :: nat where "MAX_ADDRESS_LEN = 254"
definition MAX_LOCAL_PART_LEN :: nat where "MAX_LOCAL_PART_LEN = 64"
definition MAX_DOMAIN_LEN :: nat where "MAX_DOMAIN_LEN = 255"

subsection \<open>Formatting\<close>

definition format_command :: "str \<Rightarrow> byte list" where
  "format_command verb = verb @ CRLF"

definition format_command_arg :: "str \<Rightarrow> str \<Rightarrow> byte list" where
  "format_command_arg verb arg = verb @ [SP] @ arg @ CRLF"

definition format_mail_from :: "str \<Rightarrow> byte list" where
  "format_mail_from addr = lit ''MAIL FROM:<'' @ addr @ lit ''>'' @ CRLF"

definition format_rcpt_to :: "str \<Rightarrow> byte list" where
  "format_rcpt_to addr = lit ''RCPT TO:<'' @ addr @ lit ''>'' @ CRLF"

definition format_mail_from_smtputf8 :: "str \<Rightarrow> byte list" where
  "format_mail_from_smtputf8 addr = lit ''MAIL FROM:<'' @ addr @ lit ''> SMTPUTF8'' @ CRLF"

subsection \<open>Validation\<close>

abbreviation section_sign :: str where "section_sign \<equiv> [0xC2, 0xA7]"

definition invalid :: "str \<Rightarrow> invalid_input_error + unit" where
  "invalid msg = Err (InvalidInputError msg)"

definition too_long_msg :: str where
  "too_long_msg = lit ''mail address exceeds RFC 5321 '' @ section_sign
     @ lit ''4.5.3.1.3 length limit (254 octets)''"

definition local_msg :: str where
  "local_msg = lit ''mail address local-part exceeds RFC 5321 '' @ section_sign
     @ lit ''4.5.3.1.1 length limit (64 octets)''"

definition domain_msg :: str where
  "domain_msg = lit ''mail address domain exceeds RFC 5321 '' @ section_sign
     @ lit ''4.5.3.1.2 length limit (255 octets)''"

text \<open>The checks on the parts around the last at sign.\<close>

definition check_parts :: "str \<Rightarrow> (invalid_input_error + unit) option" where
  "check_parts addr =
     (case rfind_char 64 addr of
        None \<Rightarrow> None
      | Some at_pos \<Rightarrow>
          let l = take at_pos addr; d = drop 1 (drop at_pos addr) in
          if MAX_LOCAL_PART_LEN < length l then Some (invalid local_msg)
          else if MAX_DOMAIN_LEN < length d then Some (invalid domain_msg)
          else None)"

fun check_address_bytes :: "str \<Rightarrow> invalid_input_error + unit" where
  "check_address_bytes [] = Ok ()"
| "check_address_bytes (b # bs) =
     (if b = CR \<or> b = LF then invalid (lit ''mail address must not contain CR or LF'')
      else if b = 0 then invalid (lit ''mail address must not contain a NUL byte'')
      else if b = 60 \<or> b = 62 then
        invalid (lit ''mail address must not contain '' @ [39, 60, 39] @ lit '' or '' @ [39, 62, 39])
      else if b = SP \<or> b = HT then invalid (lit ''mail address must not contain whitespace'')
      else check_address_bytes bs)"

definition validate_address :: "str \<Rightarrow> invalid_input_error + unit" where
  "validate_address addr =
     (if addr = [] then invalid (lit ''mail address must not be empty'')
      else if \<not> is_ascii addr then
        invalid (lit ''mail address must be ASCII (SMTPUTF8 is not supported)'')
      else if MAX_ADDRESS_LEN < length addr then invalid too_long_msg
      else case check_parts addr of Some r \<Rightarrow> r | None \<Rightarrow> check_address_bytes addr)"

fun check_address_chars :: "str list \<Rightarrow> invalid_input_error + unit" where
  "check_address_chars [] = Ok ()"
| "check_address_chars (c # cs) =
     (let u = code_point c in
      if u = 13 \<or> u = 10 then invalid (lit ''mail address must not contain CR or LF'')
      else if u = 0 then invalid (lit ''mail address must not contain a NUL byte'')
      else if u = 60 \<or> u = 62 then
        invalid (lit ''mail address must not contain ASCII < or >'')
      else if u = 32 \<or> u = 9 then
        invalid (lit ''mail address must not contain ASCII whitespace'')
      else if u < 32 \<or> u = 127 then
        invalid (lit ''mail address must not contain ASCII control characters'')
      else if 128 \<le> u \<and> u \<le> 159 then
        invalid (lit ''mail address must not contain C1 control characters'')
      else check_address_chars cs)"

definition validate_address_utf8 :: "str \<Rightarrow> invalid_input_error + unit" where
  "validate_address_utf8 addr =
     (if addr = [] then invalid (lit ''mail address must not be empty'')
      else if MAX_ADDRESS_LEN < length addr then invalid too_long_msg
      else case check_parts addr of Some r \<Rightarrow> r | None \<Rightarrow> check_address_chars (chars addr))"

definition validate_ehlo_domain :: "str \<Rightarrow> invalid_input_error + unit" where
  "validate_ehlo_domain domain =
     (if domain = [] then invalid (lit ''EHLO domain must not be empty'')
      else if \<not> is_ascii domain then invalid (lit ''EHLO domain must be ASCII'')
      else if list_ex (\<lambda>b. \<not> (0x21 \<le> b \<and> b \<le> 0x7E)) domain then
        invalid (lit ''EHLO domain must contain only printable ASCII characters'')
      else Ok ())"

definition validate_plain_username :: "str \<Rightarrow> invalid_input_error + unit" where
  "validate_plain_username user =
     (if user = [] then invalid (lit ''AUTH username must not be empty'')
      else if list_ex (\<lambda>b. b = 0) user then
        invalid (lit ''AUTH username must not contain a NUL byte'')
      else Ok ())"

definition validate_plain_password :: "str \<Rightarrow> invalid_input_error + unit" where
  "validate_plain_password pass =
     (if pass = [] then invalid (lit ''AUTH password must not be empty'')
      else if list_ex (\<lambda>b. b = 0) pass then
        invalid (lit ''AUTH password must not contain a NUL byte'')
      else Ok ())"

definition validate_login_username :: "str \<Rightarrow> invalid_input_error + unit" where
  "validate_login_username user = validate_plain_username user"

definition validate_login_password :: "str \<Rightarrow> invalid_input_error + unit" where
  "validate_login_password pass = validate_plain_password pass"

definition validate_xoauth2_user :: "str \<Rightarrow> invalid_input_error + unit" where
  "validate_xoauth2_user user =
     (if user = [] then invalid (lit ''XOAUTH2 user must not be empty'')
      else if list_ex (\<lambda>b. b = 0 \<or> b = CR \<or> b = LF \<or> b = 1) user then
        invalid (lit ''XOAUTH2 user must not contain NUL, CR, LF, or SOH'')
      else Ok ())"

fun check_token_bytes :: "str \<Rightarrow> invalid_input_error + unit" where
  "check_token_bytes [] = Ok ()"
| "check_token_bytes (b # bs) =
     (if \<not> (0x21 \<le> b \<and> b \<le> 0x7E) then
        invalid (lit ''OAuth2 access token must contain only printable ASCII ''
          @ lit ''(no whitespace or control bytes)'')
      else check_token_bytes bs)"

definition validate_oauth2_token :: "str \<Rightarrow> invalid_input_error + unit" where
  "validate_oauth2_token token =
     (if token = [] then invalid (lit ''OAuth2 access token must not be empty'')
      else check_token_bytes token)"

subsection \<open>What the checks accept\<close>

lemma invalid_neq [simp]: "invalid m \<noteq> Ok ()"
  by (simp add: invalid_def)

lemma check_address_bytes_Ok:
  "check_address_bytes s = Ok () \<longleftrightarrow> set s \<inter> {CR, LF, 0, 60, 62, SP, HT} = {}"
  by (induction s) auto

lemma check_token_bytes_Ok:
  "check_token_bytes s = Ok () \<longleftrightarrow> list_all (\<lambda>b. 0x21 \<le> b \<and> b \<le> 0x7E) s"
  by (induction s) auto

definition bad_code :: "nat \<Rightarrow> bool" where
  "bad_code u = (u < 33 \<or> u = 60 \<or> u = 62 \<or> (127 \<le> u \<and> u \<le> 159))"

lemma check_address_chars_Ok:
  "check_address_chars cs = Ok () \<longleftrightarrow> list_all (\<lambda>c. \<not> bad_code (code_point c)) cs"
proof (induction cs)
  case (Cons c cs)
  then show ?case by (auto simp: Let_def bad_code_def)
qed simp

text \<open>The limits around the at sign: the part before its last occurrence has at most 64 bytes.
  (The limit on the part after it never bites, because the whole is at most 254 long.)\<close>

definition local_part_len :: "str \<Rightarrow> nat" where
  "local_part_len addr = (case rfind_char 64 addr of None \<Rightarrow> 0 | Some i \<Rightarrow> i)"

lemma check_parts_None:
  assumes "length addr \<le> 254"
  shows "check_parts addr = None \<longleftrightarrow> local_part_len addr \<le> 64"
proof (cases "rfind_char 64 addr")
  case None
  then show ?thesis by (simp add: check_parts_def local_part_len_def)
next
  case (Some i)
  with rfind_char_Some have "i < length addr" by blast
  with Some assms show ?thesis
    by (auto simp: check_parts_def local_part_len_def Let_def MAX_LOCAL_PART_LEN_def
          MAX_DOMAIN_LEN_def min_def)
qed

lemma check_parts_not_Ok: "check_parts addr \<noteq> Some (Ok ())"
  by (auto simp: check_parts_def Let_def invalid_def split: option.splits)

lemma credential_nul:
  "validate_plain_username u = Ok () \<Longrightarrow> 0 \<notin> set u"
  "validate_plain_password p = Ok () \<Longrightarrow> 0 \<notin> set p"
  by (auto simp: validate_plain_username_def validate_plain_password_def list_ex_iff
        split: if_splits)

lemma validate_address_Ok:
  "validate_address a = Ok () \<longleftrightarrow>
     a \<noteq> [] \<and> is_ascii a \<and> length a \<le> 254 \<and> local_part_len a \<le> 64 \<and>
     set a \<inter> {CR, LF, 0, 60, 62, SP, HT} = {}"
  using check_parts_None [of a] check_parts_not_Ok [of a]
  by (auto simp: validate_address_def MAX_ADDRESS_LEN_def check_address_bytes_Ok
        split: option.splits)

lemma validate_address_utf8_Ok:
  "validate_address_utf8 a = Ok () \<longleftrightarrow>
     a \<noteq> [] \<and> length a \<le> 254 \<and> local_part_len a \<le> 64 \<and>
     list_all (\<lambda>c. \<not> bad_code (code_point c)) (chars a)"
  using check_parts_None [of a] check_parts_not_Ok [of a]
  by (auto simp: validate_address_utf8_def MAX_ADDRESS_LEN_def check_address_chars_Ok
        split: option.splits)

lemma validate_address_utf8_bytes:
  assumes "valid_utf8 a" and "validate_address_utf8 a = Ok ()"
  shows "set a \<inter> {b. b < 128 \<and> bad_code (unat b)} = {}"
proof -
  have "\<not> bad_code (unat b)" if "b \<in> set a" "b < 128" for b
  proof -
    have "[b] \<in> set (chars a)" by (rule ascii_byte_is_char [OF that])
    moreover have "\<forall>c \<in> set (chars a). \<not> bad_code (code_point c)"
      using assms(2) by (simp add: validate_address_utf8_Ok list_all_iff)
    ultimately show ?thesis using code_point_single by metis
  qed
  then show ?thesis by blast
qed

lemma utf8_no_framing:
  assumes "valid_utf8 a" and "validate_address_utf8 a = Ok ()"
  shows "set a \<inter> {CR, LF, 60, 62, SP} = {}"
proof -
  have "b < 128 \<and> bad_code (unat b)" if "b \<in> {CR, LF, 60, 62, SP}" for b :: byte
    using that by (auto simp: bad_code_def word_less_nat_alt)
  then show ?thesis using validate_address_utf8_bytes [OF assms] by blast
qed

subsection \<open>The shape of a command line\<close>

text \<open>One command: bytes without CR or LF, closed by the one CRLF at the end.\<close>

definition single_line :: "byte list \<Rightarrow> bool" where
  "single_line cmd = (\<exists>l. cmd = l @ CRLF \<and> CR \<notin> set l \<and> LF \<notin> set l)"

text \<open>The path a receiver reads: the bytes between the first angle bracket and the first closing
  bracket after it.\<close>

definition path_of :: "byte list \<Rightarrow> (byte list \<times> byte list) option" where
  "path_of cmd = (case split_once 60 cmd of None \<Rightarrow> None | Some (_, rest) \<Rightarrow> split_once 62 rest)"

lemma single_lineI: "CR \<notin> set l \<Longrightarrow> LF \<notin> set l \<Longrightarrow> single_line (l @ CRLF)"
  by (auto simp: single_line_def)

lemma path_of_append:
  "60 \<notin> set pre \<Longrightarrow> 62 \<notin> set a \<Longrightarrow> path_of (pre @ 60 # a @ 62 # rest) = Some (a, rest)"
  by (simp add: path_of_def split_once_append)

lemma framed_command:
  assumes "CR \<notin> set a" "LF \<notin> set a" "62 \<notin> set a"
    and "set pre \<inter> {CR, LF, 60} = {}" and "set post \<inter> {CR, LF} = {}"
  shows "single_line ((pre @ [60]) @ a @ (62 # post) @ CRLF)"
    and "path_of ((pre @ [60]) @ a @ (62 # post) @ CRLF) = Some (a, post @ CRLF)"
proof -
  have "single_line ((pre @ [60] @ a @ 62 # post) @ CRLF)"
    by (rule single_lineI) (use assms in auto)
  then show "single_line ((pre @ [60]) @ a @ (62 # post) @ CRLF)" by simp
  show "path_of ((pre @ [60]) @ a @ (62 # post) @ CRLF) = Some (a, post @ CRLF)"
    using assms path_of_append [of pre a "post @ CRLF"] by simp
qed

lemma mail_prefix: "lit ''MAIL FROM:<'' = lit ''MAIL FROM:'' @ [60]"
  and rcpt_prefix: "lit ''RCPT TO:<'' = lit ''RCPT TO:'' @ [60]"
  and mail_suffix: "lit ''> SMTPUTF8'' = 62 # lit '' SMTPUTF8''"
  and close_bracket: "lit ''>'' = [62]"
  by (simp_all add: lit_def)

lemma prefixes_clean:
  "set (lit ''MAIL FROM:'') \<inter> {CR, LF, 60} = {}"
  "set (lit ''RCPT TO:'') \<inter> {CR, LF, 60} = {}"
  "set (lit '' SMTPUTF8'') \<inter> {CR, LF} = {}"
  by (simp_all add: lit_def)

subsection \<open>Properties\<close>

text \<open>
  No command injection through the envelope: with an address that \<open>validate_address\<close>
  accepts, \<open>MAIL FROM\<close> and \<open>RCPT TO\<close> are one line each, whose only CRLF is at the end, and the
  path a receiver reads from them is the address with nothing after it.
\<close>

theorem envelope_commands_framed:
  assumes "validate_address a = Ok ()"
  shows "single_line (format_mail_from a) \<and> path_of (format_mail_from a) = Some (a, CRLF) \<and>
         single_line (format_rcpt_to a) \<and> path_of (format_rcpt_to a) = Some (a, CRLF)"
proof -
  have a: "CR \<notin> set a" "LF \<notin> set a" "62 \<notin> set a"
    using assms by (auto simp: validate_address_Ok)
  show ?thesis
    using framed_command [OF a prefixes_clean(1), of "[]"]
      framed_command [OF a prefixes_clean(2), of "[]"]
    by (simp add: format_mail_from_def format_rcpt_to_def mail_prefix rcpt_prefix close_bracket)
qed

theorem envelope_commands_framed_witness:
  "path_of (format_mail_from (lit ''a@b.c'')) = Some (lit ''a@b.c'', CRLF)"
proof -
  have "validate_address (lit ''a@b.c'') = Ok ()" by code_simp
  then show ?thesis using envelope_commands_framed by blast
qed

text \<open>
  The same for the UTF-8 variant: an address (a string, so valid UTF-8) that
  \<open>validate_address_utf8\<close> accepts is the path a receiver reads from the one line
  \<open>MAIL FROM:<addr> SMTPUTF8\<close>, and the parameter is what follows it.
\<close>

theorem smtputf8_command_framed:
  assumes "valid_utf8 a" and "validate_address_utf8 a = Ok ()"
  shows "single_line (format_mail_from_smtputf8 a) \<and>
         path_of (format_mail_from_smtputf8 a) = Some (a, lit '' SMTPUTF8'' @ CRLF) \<and>
         single_line (format_rcpt_to a) \<and> path_of (format_rcpt_to a) = Some (a, CRLF)"
proof -
  have a: "CR \<notin> set a" "LF \<notin> set a" "62 \<notin> set a"
    using utf8_no_framing [OF assms] by auto
  show ?thesis
    using framed_command [OF a prefixes_clean(1) prefixes_clean(3)]
      framed_command [OF a prefixes_clean(2), of "[]"]
    by (simp add: format_mail_from_smtputf8_def format_rcpt_to_def mail_prefix mail_suffix
          rcpt_prefix close_bracket)
qed

theorem smtputf8_command_framed_witness:
  "path_of (format_mail_from_smtputf8 ([0xE4, 0xBE, 0x8B] @ lit ''@b.c'')) =
     Some ([0xE4, 0xBE, 0x8B] @ lit ''@b.c'', lit '' SMTPUTF8'' @ CRLF)"
proof -
  have "valid_utf8 ([0xE4, 0xBE, 0x8B] @ lit ''@b.c'')" by code_simp
  moreover have "chars ([0xE4, 0xBE, 0x8B] @ lit ''@b.c'') =
      [[0xE4, 0xBE, 0x8B], [64], [98], [46], [99]]" by code_simp
  then have "validate_address_utf8 ([0xE4, 0xBE, 0x8B] @ lit ''@b.c'') = Ok ()"
    unfolding validate_address_utf8_Ok
    by (simp add: lit_def local_part_len_def bad_code_def code_point_def)
  ultimately show ?thesis using smtputf8_command_framed by blast
qed

text \<open>
  C38: \<open>validate_address\<close> accepts exactly the non-empty ASCII strings of at most 254 bytes, with at
  most 64 bytes before the last at sign, and without CR, LF, NUL, angle brackets, space and tab.
\<close>

theorem validate_address_exact:
  "validate_address a = Ok () \<longleftrightarrow>
     a \<noteq> [] \<and> is_ascii a \<and> length a \<le> 254 \<and> local_part_len a \<le> 64 \<and>
     set a \<inter> {CR, LF, 0, 60, 62, SP, HT} = {}"
  by (rule validate_address_Ok)

text \<open>
  On ASCII input the two address validators differ in the control characters alone: the
  UTF-8 one refuses all of them, the ASCII one lets those other than CR, LF, NUL and tab through
  (its doc calls the structural rules the same).
\<close>

theorem utf8_validator_on_ascii:
  "is_ascii a \<and> validate_address_utf8 a = Ok () \<longleftrightarrow>
     validate_address a = Ok () \<and> list_all (\<lambda>b. 32 < b \<and> b \<noteq> 127) a"
proof (cases "is_ascii a")
  case True
  have "list_all (\<lambda>c. \<not> bad_code (code_point c)) (chars a) \<longleftrightarrow>
      list_all (\<lambda>b. \<not> bad_code (unat b)) a"
    by (simp add: chars_ascii [OF True] list_all_iff)
  also have "\<dots> \<longleftrightarrow> set a \<inter> {CR, LF, 0, 60, 62, SP, HT} = {} \<and>
      list_all (\<lambda>b. 32 < b \<and> b \<noteq> 127) a"
  proof -
    have "\<not> bad_code (unat b) \<longleftrightarrow>
        b \<notin> {CR, LF, 0, 60, 62, SP, HT} \<and> 32 < b \<and> b \<noteq> 127" if "b \<in> set a" for b
    proof -
      have "unat b < 128" using True that
        by (auto simp: is_ascii_def list_all_iff word_less_nat_alt)
      have "b = n \<longleftrightarrow> unat b = unat n" for n
        by (rule word_unat_eq_iff)
      from this [of 0] this [of HT] this [of LF] this [of CR] this [of SP] this [of 60]
        this [of 62] this [of 127]
      have "b = 0 \<longleftrightarrow> unat b = 0" "b = HT \<longleftrightarrow> unat b = 9" "b = LF \<longleftrightarrow> unat b = 10"
        "b = CR \<longleftrightarrow> unat b = 13" "b = SP \<longleftrightarrow> unat b = 32" "b = 60 \<longleftrightarrow> unat b = 60"
        "b = 62 \<longleftrightarrow> unat b = 62" "b = 127 \<longleftrightarrow> unat b = 127" by simp_all
      then have "b \<notin> {CR, LF, 0, 60, 62, SP, HT} \<and> 32 < b \<and> b \<noteq> 127 \<longleftrightarrow>
          unat b \<notin> {13, 10, 0, 60, 62, 32, 9} \<and> 32 < unat b \<and> unat b \<noteq> 127"
        by (simp only: insert_iff empty_iff word_less_nat_alt) simp
      moreover have "\<not> bad_code (unat b) \<longleftrightarrow>
          unat b \<notin> {13, 10, 0, 60, 62, 32, 9} \<and> 32 < unat b \<and> unat b \<noteq> 127"
        using \<open>unat b < 128\<close> by (auto simp: bad_code_def)
      ultimately show ?thesis by simp
    qed
    then show ?thesis unfolding list_all_iff by blast
  qed
  finally show ?thesis
    using True by (auto simp: validate_address_Ok validate_address_utf8_Ok)
next
  case False
  then show ?thesis by (simp add: validate_address_Ok)
qed

text \<open>
  What the other validators accept: printable EHLO domains (so that \<open>EHLO\<close> stays one line of
  two words), credentials without NUL, XOAUTH2 users without NUL, CR, LF and SOH, and bearer
  tokens of printable non-blank ASCII; none accepts the empty string.
\<close>

theorem credential_validators_exact:
  "(validate_ehlo_domain d = Ok () \<longleftrightarrow> d \<noteq> [] \<and> list_all (\<lambda>b. 0x21 \<le> b \<and> b \<le> 0x7E) d) \<and>
   (validate_login_username u = Ok () \<longleftrightarrow> u \<noteq> [] \<and> 0 \<notin> set u) \<and>
   (validate_login_password p = Ok () \<longleftrightarrow> p \<noteq> [] \<and> 0 \<notin> set p) \<and>
   (validate_xoauth2_user x = Ok () \<longleftrightarrow> x \<noteq> [] \<and> set x \<inter> {0, CR, LF, 1} = {}) \<and>
   (validate_oauth2_token t = Ok () \<longleftrightarrow> t \<noteq> [] \<and> list_all (\<lambda>b. 0x21 \<le> b \<and> b \<le> 0x7E) t)"
proof -
  have ascii: "b < 128" if "b \<le> 0x7E" for b :: byte
    using that by (simp add: word_le_nat_alt word_less_nat_alt)
  have "validate_ehlo_domain d = Ok () \<longleftrightarrow>
      d \<noteq> [] \<and> list_all (\<lambda>b. 0x21 \<le> b \<and> b \<le> 0x7E) d"
    using ascii by (auto simp: validate_ehlo_domain_def is_ascii_def list_all_iff list_ex_iff)
  moreover have "validate_xoauth2_user x = Ok () \<longleftrightarrow> x \<noteq> [] \<and> set x \<inter> {0, CR, LF, 1} = {}"
    by (auto simp: validate_xoauth2_user_def list_ex_iff)
  ultimately show ?thesis
    by (auto simp: validate_login_username_def validate_login_password_def list_ex_iff
          validate_plain_username_def validate_plain_password_def validate_oauth2_token_def
          check_token_bytes_Ok)
qed

end
