(* ===== verification/DotStuff.thy ===== *)
theory DotStuff
  imports Prelude
begin

text \<open>
  The DATA payload: the one-shot dot-stuffer \<open>dot_stuff_and_terminate\<close> and the streaming one
  (\<open>DotStufferState\<close>) of \<open>wasm-smtp/src/protocol.rs\<close>, and the receiver of RFC 5321 section 4.5.2
  as their specification.
\<close>

subsection \<open>One shot\<close>

text \<open>The loop over the body, with its two locals \<open>at_line_start\<close> and \<open>prev\<close> and what it pushes.\<close>

fun stuff_loop :: "bool \<Rightarrow> byte \<Rightarrow> byte list \<Rightarrow> byte list" where
  "stuff_loop at_line_start prev [] = []"
| "stuff_loop at_line_start prev (b # bs) =
     (if at_line_start \<and> b = DOT then [DOT] else []) @ [b]
     @ stuff_loop (prev = CR \<and> b = LF) b bs"

definition ends_with_crlf :: "byte list \<Rightarrow> bool" where
  "ends_with_crlf out = (2 \<le> length out \<and> drop (length out - 2) out = CRLF)"

definition dot_stuff_and_terminate :: "byte list \<Rightarrow> byte list" where
  "dot_stuff_and_terminate body =
     (let out = stuff_loop True 0 body;
          out = (if \<not> ends_with_crlf out then out @ CRLF else out)
      in out @ [DOT] @ CRLF)"

subsection \<open>Streaming\<close>

record stuffer =
  at_line_start :: bool
  st_prev :: byte
  st_prev_prev :: byte
  st_empty :: bool

definition stuffer_new :: stuffer where
  "stuffer_new = \<lparr>at_line_start = True, st_prev = 0, st_prev_prev = 0, st_empty = True\<rparr>"

fun process_bytes :: "stuffer \<Rightarrow> byte list \<Rightarrow> byte list \<times> stuffer" where
  "process_bytes s [] = ([], s)"
| "process_bytes s (b # bs) =
     (let o1 = (if at_line_start s \<and> b = DOT then [DOT] else []) @ [b];
          s1 = s\<lparr>at_line_start := st_prev s = CR \<and> b = LF,
                 st_prev_prev := st_prev s, st_prev := b\<rparr>;
          (o2, s2) = process_bytes s1 bs
      in (o1 @ o2, s2))"

definition process_chunk :: "stuffer \<Rightarrow> byte list \<Rightarrow> byte list \<times> stuffer" where
  "process_chunk s chunk =
     (if chunk = [] then ([], s)
      else let (out, s') = process_bytes s chunk in (out, s'\<lparr>st_empty := False\<rparr>))"

definition stuffer_finish :: "stuffer \<Rightarrow> byte list" where
  "stuffer_finish s =
     (let crlf = \<not> st_empty s \<and> st_prev_prev s = CR \<and> st_prev s = LF
      in (if \<not> crlf then CRLF else []) @ [DOT] @ CRLF)"

text \<open>
  Feeding chunks one after the other and finishing, as \<open>send_mail_stream\<close> does, for any machine
  with a step and a finish.
\<close>

fun stream_chunks ::
    "('s \<Rightarrow> byte list \<Rightarrow> byte list \<times> 's) \<Rightarrow> ('s \<Rightarrow> byte list) \<Rightarrow> 's \<Rightarrow> byte list list \<Rightarrow> byte list" where
  "stream_chunks step fin s [] = fin s"
| "stream_chunks step fin s (c # cs) =
     (let (out, s') = step s c in out @ stream_chunks step fin s' cs)"

text \<open>
  The contract a streaming encoder gives its client: how the input is cut into chunks does not
  matter.
\<close>

locale chunked_encoder =
  fixes step :: "'s \<Rightarrow> byte list \<Rightarrow> byte list \<times> 's"
    and fin :: "'s \<Rightarrow> byte list"
  assumes step_Nil: "step s [] = ([], s)"
    and step_append: "step s (a @ b) =
      (let (o1, s1) = step s a; (o2, s2) = step s1 b in (o1 @ o2, s2))"
begin

lemma stream_concat:
  "stream_chunks step fin s cs = (let (out, s') = step s (concat cs) in out @ fin s')"
proof (induction cs arbitrary: s)
  case Nil
  then show ?case by (simp add: step_Nil)
next
  case (Cons c cs)
  then show ?case by (simp add: step_append split: prod.splits)
qed

lemma chunking_irrelevant:
  "concat cs = concat ds \<Longrightarrow> stream_chunks step fin s cs = stream_chunks step fin s ds"
  by (simp add: stream_concat)

end

subsection \<open>The receiver\<close>

text \<open>
  RFC 5321 section 4.5.2 as a machine over the bytes of the connection.  It counts CRLF as the end
  of a line; a line that is a single dot ends the data; a dot that begins any other line is
  dropped.  The states: at the start of a line, after a dot that began a line, after such a dot
  and CR, after CR, and elsewhere in a line.  The result is the data received and what follows on
  the connection, or \<open>None\<close> if the data has no end.
\<close>

datatype rx_state = RxStart | RxDot | RxDotCr | RxCr | RxMid

definition rx_after :: "byte \<Rightarrow> rx_state" where
  "rx_after b = (if b = CR then RxCr else RxMid)"

fun receive :: "rx_state \<Rightarrow> byte list \<Rightarrow> (byte list \<times> byte list) option" where
  "receive st [] = None"
| "receive RxStart (b # bs) =
     (if b = DOT then receive RxDot bs
      else map_option (apfst (Cons b)) (receive (rx_after b) bs))"
| "receive RxDot (b # bs) =
     (if b = CR then receive RxDotCr bs
      else map_option (apfst (Cons b)) (receive RxMid bs))"
| "receive RxDotCr (b # bs) =
     (if b = LF then Some ([], bs)
      else map_option (apfst (\<lambda>d. CR # b # d)) (receive (rx_after b) bs))"
| "receive RxCr (b # bs) =
     map_option (apfst (Cons b)) (receive (if b = LF then RxStart else rx_after b) bs)"
| "receive RxMid (b # bs) = map_option (apfst (Cons b)) (receive (rx_after b) bs)"

text \<open>What the receiver is to get: the body, with the final CRLF it may lack.\<close>

definition crlf_terminated :: "byte list \<Rightarrow> byte list" where
  "crlf_terminated body = (if ends_with_crlf body then body else body @ CRLF)"

subsection \<open>Facts\<close>

lemma ends_with_crlf_iff: "ends_with_crlf xs \<longleftrightarrow> (\<exists>ys. xs = ys @ CRLF)"
proof
  assume "ends_with_crlf xs"
  then have "xs = take (length xs - 2) xs @ CRLF"
    by (metis append_take_drop_id ends_with_crlf_def)
  then show "\<exists>ys. xs = ys @ CRLF" by blast
qed (auto simp: ends_with_crlf_def)

lemma ends_with_crlf_append: "2 \<le> length ys \<Longrightarrow> ends_with_crlf (xs @ ys) = ends_with_crlf ys"
  by (simp add: ends_with_crlf_def)

lemma ends_with_crlf_snoc2: "ends_with_crlf (xs @ [a, b]) \<longleftrightarrow> a = CR \<and> b = LF"
  by (simp add: ends_with_crlf_append) (simp add: ends_with_crlf_def)

lemma length_stuff_loop: "length bs \<le> length (stuff_loop als prev bs)"
  by (induction als prev bs rule: stuff_loop.induct) auto

lemma ends_with_crlf_stuff: "ends_with_crlf (stuff_loop als prev bs) = ends_with_crlf bs"
proof (induction bs arbitrary: als prev rule: induct_list012)
  case 1
  show ?case by simp
next
  case (2 b)
  show ?case by (simp add: ends_with_crlf_def)
next
  case (3 b c ds)
  show ?case
  proof (cases ds)
    case Nil
    then show ?thesis by (simp add: ends_with_crlf_def)
  next
    case (Cons d es)
    then have "2 \<le> length (stuff_loop (prev = CR \<and> b = LF) b (c # ds))"
      using length_stuff_loop [of "c # ds"] by (metis length_Cons le_trans Suc_le_mono le0 numeral_2_eq_2)
    then have "ends_with_crlf (X @ stuff_loop (prev = CR \<and> b = LF) b (c # ds)) =
        ends_with_crlf (c # ds)" for X
      by (simp only: ends_with_crlf_append 3(2))
    moreover have "ends_with_crlf (b # c # ds) = ends_with_crlf (c # ds)"
      using ends_with_crlf_append [of "c # ds" "[b]"] Cons by simp
    moreover have "\<exists>X. stuff_loop als prev (b # c # ds) =
        X @ stuff_loop (prev = CR \<and> b = LF) b (c # ds)"
      by (rule exI [of _ "(if als \<and> b = DOT then [DOT] else []) @ [b]"]) simp
    ultimately show ?thesis by metis
  qed
qed

text \<open>The locals of the loop at its end.\<close>

fun loop_end :: "bool \<Rightarrow> byte \<Rightarrow> byte list \<Rightarrow> bool \<times> byte" where
  "loop_end als prev [] = (als, prev)"
| "loop_end als prev (b # bs) = loop_end (prev = CR \<and> b = LF) b bs"

definition rx_of :: "bool \<times> byte \<Rightarrow> rx_state" where
  "rx_of p = (if fst p then RxStart else rx_after (snd p))"

lemma receive_stuff_loop:
  "(als \<longrightarrow> prev \<noteq> CR) \<Longrightarrow>
   receive (rx_of (als, prev)) (stuff_loop als prev bs @ rest) =
     map_option (apfst ((@) bs)) (receive (rx_of (loop_end als prev bs)) rest)"
proof (induction als prev bs rule: stuff_loop.induct)
  case (1 als prev)
  show ?case by (cases "receive (rx_of (als, prev)) rest") auto
next
  case (2 als prev b bs)
  have comp: "map_option (apfst (Cons b)) (map_option (apfst ((@) bs)) r) =
      map_option (apfst ((@) (b # bs))) r" for r :: "(byte list \<times> byte list) option"
    by (cases r) auto
  have IH: "receive (rx_of (prev = CR \<and> b = LF, b)) (stuff_loop (prev = CR \<and> b = LF) b bs @ rest) =
     map_option (apfst ((@) bs)) (receive (rx_of (loop_end als prev (b # bs))) rest)"
    using 2 by simp
  have "receive (rx_of (als, prev)) (stuff_loop als prev (b # bs) @ rest) =
      map_option (apfst (Cons b))
        (receive (rx_of (prev = CR \<and> b = LF, b)) (stuff_loop (prev = CR \<and> b = LF) b bs @ rest))"
    using 2(2) by (auto simp: rx_of_def rx_after_def)
  then show ?case unfolding IH comp .
qed

lemma loop_end_crlf:
  "bs \<noteq> [] \<Longrightarrow> fst (loop_end als prev bs) \<longleftrightarrow> ends_with_crlf (prev # bs)"
proof (induction bs arbitrary: als prev)
  case Nil
  then show ?case by simp
next
  case (Cons b bs)
  show ?case
  proof (cases "bs = []")
    case True
    then show ?thesis by (simp add: ends_with_crlf_def)
  next
    case False
    then have "2 \<le> length (b # bs)" by (cases bs) auto
    then show ?thesis
      using Cons.IH [OF False, of "prev = CR \<and> b = LF" b] ends_with_crlf_append [of "b # bs" "[prev]"]
      by simp
  qed
qed

lemma ends_with_crlf_zero: "ends_with_crlf (0 # bs) = ends_with_crlf bs"
proof (cases "2 \<le> length bs")
  case True
  then show ?thesis using ends_with_crlf_append [of bs "[0]"] by simp
next
  case False
  then show ?thesis by (cases bs; cases "tl bs") (auto simp: ends_with_crlf_def)
qed

lemma receive_end: "receive RxStart (DOT # CR # LF # rest) = Some ([], rest)"
  by simp

lemma receive_crlf_end:
  "st \<noteq> RxDot \<Longrightarrow> st \<noteq> RxDotCr \<Longrightarrow> receive st (CR # LF # DOT # CR # LF # rest) = Some (CRLF, rest)"
  by (cases st) (simp_all add: rx_after_def)

lemma rx_of_not_dot: "rx_of p \<noteq> RxDot" "rx_of p \<noteq> RxDotCr"
  by (auto simp: rx_of_def rx_after_def)

subsection \<open>The streaming machine\<close>

lemma process_bytes_append:
  "process_bytes s (a @ b) =
     (let (o1, s1) = process_bytes s a; (o2, s2) = process_bytes s1 b in (o1 @ o2, s2))"
  by (induction s a rule: process_bytes.induct) (auto simp: Let_def split: prod.splits)

lemma process_bytes_empty_flag:
  "process_bytes (s\<lparr>st_empty := e\<rparr>) bs =
     (let (o1, s1) = process_bytes s bs in (o1, s1\<lparr>st_empty := e\<rparr>))"
proof (induction bs arbitrary: s)
  case Nil
  show ?case by simp
next
  case (Cons b bs)
  obtain a q r f where s: "s = \<lparr>at_line_start = a, st_prev = q, st_prev_prev = r, st_empty = f\<rparr>"
    by (cases s)
  show ?case
    using Cons [of "\<lparr>at_line_start = q = CR \<and> b = LF, st_prev = b, st_prev_prev = q, st_empty = f\<rparr>"]
    by (simp add: s Let_def split: prod.splits)
qed

lemma process_chunk_Nil: "process_chunk s [] = ([], s)"
  by (simp add: process_chunk_def)

lemma process_chunk_append:
  "process_chunk s (a @ b) =
     (let (o1, s1) = process_chunk s a; (o2, s2) = process_chunk s1 b in (o1 @ o2, s2))"
  by (auto simp: process_chunk_def process_bytes_append process_bytes_empty_flag Let_def
        split: prod.splits)

interpretation dot_stuffer: chunked_encoder process_chunk stuffer_finish
  by unfold_locales (rule process_chunk_Nil, rule process_chunk_append)

lemma process_bytes_loop:
  "fst (process_bytes s bs) = stuff_loop (at_line_start s) (st_prev s) bs"
  by (induction s bs rule: process_bytes.induct) (auto simp: Let_def split: prod.splits)

lemma process_bytes_last:
  "ends_with_crlf (st_prev_prev s # st_prev s # bs) \<longleftrightarrow>
     st_prev_prev (snd (process_bytes s bs)) = CR \<and> st_prev (snd (process_bytes s bs)) = LF"
proof (induction s bs rule: process_bytes.induct)
  case (1 s)
  show ?case using ends_with_crlf_snoc2 [of "[]"] by simp
next
  case (2 s b bs)
  have "ends_with_crlf (st_prev_prev s # st_prev s # b # bs) =
      ends_with_crlf (st_prev s # b # bs)"
    using ends_with_crlf_append [of "st_prev s # b # bs" "[st_prev_prev s]"] by simp
  then show ?case using 2 by (auto simp: Let_def split: prod.splits)
qed

lemma process_bytes_keeps_flag: "st_empty (snd (process_bytes s bs)) = st_empty s"
  by (induction s bs rule: process_bytes.induct) (auto simp: Let_def split: prod.splits)

lemma stream_one_chunk:
  "fst (process_chunk stuffer_new body) @ stuffer_finish (snd (process_chunk stuffer_new body)) =
     dot_stuff_and_terminate body"
proof (cases "body = []")
  case True
  then show ?thesis
    by (simp add: process_chunk_def stuffer_finish_def dot_stuff_and_terminate_def
          stuffer_new_def ends_with_crlf_def)
next
  case False
  let ?p = "process_bytes stuffer_new body"
  have "st_prev_prev (snd ?p) = CR \<and> st_prev (snd ?p) = LF \<longleftrightarrow> ends_with_crlf (0 # 0 # body)"
    using process_bytes_last [of stuffer_new body] by (simp add: stuffer_new_def)
  also have "\<dots> \<longleftrightarrow> ends_with_crlf body" by (simp add: ends_with_crlf_zero)
  finally show ?thesis
    using False process_bytes_loop [of stuffer_new body]
    by (auto simp: process_chunk_def stuffer_finish_def dot_stuff_and_terminate_def
          ends_with_crlf_stuff stuffer_new_def Let_def split: prod.splits)
qed

subsection \<open>Properties\<close>

lemma receive_payload:
  "receive RxStart (dot_stuff_and_terminate body @ rest) = Some (crlf_terminated body, rest)"
proof -
  let ?tail = "(if ends_with_crlf body then [] else CRLF) @ [DOT] @ CRLF @ rest"
  have start: "rx_of (True, 0) = RxStart" by (simp add: rx_of_def)
  have "dot_stuff_and_terminate body @ rest = stuff_loop True 0 body @ ?tail"
    by (simp add: dot_stuff_and_terminate_def ends_with_crlf_stuff Let_def)
  then have eq: "receive RxStart (dot_stuff_and_terminate body @ rest) =
      map_option (apfst ((@) body)) (receive (rx_of (loop_end True 0 body)) ?tail)"
    using receive_stuff_loop [of True 0 body ?tail] by (simp add: start)
  show ?thesis
  proof (cases "ends_with_crlf body")
    case True
    then have "body \<noteq> []" by (auto simp: ends_with_crlf_def)
    then have "rx_of (loop_end True 0 body) = RxStart"
      using loop_end_crlf [of body True 0] True by (simp add: ends_with_crlf_zero rx_of_def)
    then show ?thesis using eq True by (simp add: crlf_terminated_def)
  next
    case False
    then show ?thesis
      using eq receive_crlf_end [OF rx_of_not_dot, of "loop_end True 0 body" rest]
      by (simp add: crlf_terminated_def)
  qed
qed

text \<open>
  The DATA payload is transparent and cannot be cut short or extended by its content: whatever
  the body and whatever follows on the connection, the receiver of RFC 5321 section 4.5.2 gets the
  body back (with a final CRLF if it had none) and resumes exactly after the payload.
\<close>

theorem payload_received:
  "receive RxStart (dot_stuff_and_terminate body @ rest) = Some (crlf_terminated body, rest)"
  by (rule receive_payload)

lemma stuffer_one_shot:
  "stream_chunks process_chunk stuffer_finish stuffer_new chunks =
     dot_stuff_and_terminate (concat chunks)"
  using dot_stuffer.stream_concat [of stuffer_new chunks] stream_one_chunk [of "concat chunks"]
  by (simp add: split_def)

text \<open>
  C36: the streaming dot-stuffer is the one-shot one: for every way to cut the body into chunks
  (empty ones included) the bytes produced, terminator included, are
  \<open>dot_stuff_and_terminate\<close> of the whole.
\<close>

theorem streaming_equals_one_shot:
  "stream_chunks process_chunk stuffer_finish stuffer_new chunks =
     dot_stuff_and_terminate (concat chunks)"
  by (rule stuffer_one_shot)

text \<open>
  Size of the payload: stuffing adds at most one byte per byte of the body, and framing between
  three and five.
\<close>

theorem payload_size:
  "length body + 3 \<le> length (dot_stuff_and_terminate body) \<and>
   length (dot_stuff_and_terminate body) \<le> 2 * length body + 5"
proof -
  have "length (stuff_loop als prev body) \<le> 2 * length body" for als prev
    by (induction als prev body rule: stuff_loop.induct) auto
  from this [of True 0] length_stuff_loop [of body True 0] show ?thesis
    by (simp add: dot_stuff_and_terminate_def Let_def)
qed

end
