(* ===== verification/Base64.thy ===== *)
theory Base64
  imports Rust_Str
begin

text \<open>
  The base64 encoder and decoder of \<open>wasm-smtp/src/protocol.rs\<close>, on 32-bit words with the shifts
  and masks of the source.
\<close>

definition BASE64_ALPHABET :: "byte list" where
  "BASE64_ALPHABET = lit ''ABCDEFGHIJKLMNOPQRSTUVWXYZabcdefghijklmnopqrstuvwxyz0123456789+/''"

definition push_b64 :: "u32 \<Rightarrow> nat \<Rightarrow> str" where
  "push_b64 n count =
     map (\<lambda>i. BASE64_ALPHABET ! unat (drop_bit (18 - 6 * i) n AND 0x3F)) [0..<count]"

fun base64_encode :: "byte list \<Rightarrow> str" where
  "base64_encode (a # b # c # rest) =
     push_b64 (push_bit 16 (ucast a) OR push_bit 8 (ucast b) OR ucast c) 4 @ base64_encode rest"
| "base64_encode [] = []"
| "base64_encode [a] = push_b64 (push_bit 16 (ucast a)) 2 @ lit ''==''"
| "base64_encode [a, b] = push_b64 (push_bit 16 (ucast a) OR push_bit 8 (ucast b)) 3 @ lit ''=''"

definition invalid_base64 :: str where
  "invalid_base64 = lit ''invalid base64''"

text \<open>One character: its six bits, and whether it is padding.\<close>

definition sextet :: "byte \<Rightarrow> (byte \<times> bool) option" where
  "sextet c =
     (if 65 \<le> c \<and> c \<le> 90 then Some (c - 65, False)
      else if 97 \<le> c \<and> c \<le> 122 then Some (c - 97 + 26, False)
      else if 48 \<le> c \<and> c \<le> 57 then Some (c - 48 + 52, False)
      else if c = 43 then Some (62, False)
      else if c = 47 then Some (63, False)
      else if c = 61 then Some (0, True)
      else None)"

text \<open>The inner loop: the four sextets of a chunk and the number of padding characters.\<close>

fun sextets :: "byte list \<Rightarrow> (byte list \<times> nat) option" where
  "sextets [] = Some ([], 0)"
| "sextets (c # cs) =
     (case sextet c of
        None \<Rightarrow> None
      | Some (v, p) \<Rightarrow>
          (case sextets cs of
             None \<Rightarrow> None
           | Some (vs, pad) \<Rightarrow> Some (v # vs, (if p then 1 else 0) + pad)))"

definition chunk_bytes :: "byte list \<Rightarrow> nat \<Rightarrow> byte list" where
  "chunk_bytes buf pad =
     (let n = push_bit 18 (ucast (buf ! 0)) OR push_bit 12 (ucast (buf ! 1))
              OR push_bit 6 (ucast (buf ! 2)) OR (ucast (buf ! 3) :: u32)
      in [ucast (drop_bit 16 n AND 0xff)]
         @ (if pad < 2 then [ucast (drop_bit 8 n AND 0xff)] else [])
         @ (if pad < 1 then [ucast (n AND 0xff)] else []))"

fun decode_chunks :: "byte list \<Rightarrow> str + byte list" where
  "decode_chunks (a # b # c # d # rest) =
     (case sextets [a, b, c, d] of
        None \<Rightarrow> Err invalid_base64
      | Some (buf, pad) \<Rightarrow>
          if 0 < pad \<and> rest \<noteq> [] then Err invalid_base64
          else (case decode_chunks rest of
                  Err e \<Rightarrow> Err e
                | Ok out \<Rightarrow> Ok (chunk_bytes buf pad @ out)))"
| "decode_chunks _ = Ok []"

definition base64_decode :: "str \<Rightarrow> str + byte list" where
  "base64_decode input =
     (if input = [] then Ok []
      else if length input mod 4 \<noteq> 0 then Err invalid_base64
      else decode_chunks input)"

lemma b64_masks: "(0x3F :: 'a::len word) = mask 6" "(0xff :: 'a::len word) = mask 8"
  by (simp_all add: mask_eq_exp_minus_1)

lemma sextet_alphabet: "k < 64 \<Longrightarrow> sextet (BASE64_ALPHABET ! k) = Some (of_nat k, False)"
proof -
  have "\<forall>k\<in>set [0..<64]. sextet (BASE64_ALPHABET ! k) = Some (of_nat k, False)"
    by code_simp
  then show "k < 64 \<Longrightarrow> sextet (BASE64_ALPHABET ! k) = Some (of_nat k, False)" by simp
qed

lemma six_lt: "unat (n AND 0x3F :: u32) < 64"
proof -
  have "unat (take_bit 6 n) = take_bit 6 (unat n)" by (rule unsigned_take_bit_eq)
  also have "\<dots> < 2 ^ 6" by (rule take_bit_nat_less_exp)
  finally show ?thesis by (simp add: b64_masks take_bit_eq_mask)
qed

lemma or_take_bit:
  "push_bit k (take_bit m (drop_bit k n)) OR take_bit k n = take_bit (k + m) (n :: 'a::len word)"
  by (rule bit_word_eqI) (auto simp: bit_simps)

lemma ucast_six: "ucast (ucast (n AND 0x3F :: u32) :: byte) = take_bit 6 n"
  unfolding b64_masks take_bit_eq_mask [symmetric]
  by (rule bit_word_eqI) (auto simp: bit_simps)

lemma join_sextets:
  fixes n :: u32
  shows "push_bit 18 (ucast (ucast (drop_bit 18 n AND 0x3F) :: byte)) OR
         push_bit 12 (ucast (ucast (drop_bit 12 n AND 0x3F) :: byte)) OR
         push_bit 6 (ucast (ucast (drop_bit 6 n AND 0x3F) :: byte)) OR
         ucast (ucast (n AND 0x3F) :: byte) = take_bit 24 n"
  using or_take_bit [of 6 6 n] or_take_bit [of 12 6 n] or_take_bit [of 18 6 n]
  by (simp add: ucast_six or.assoc)

lemma split_bytes:
  fixes a b c :: byte
  defines "n \<equiv> push_bit 16 (ucast a) OR push_bit 8 (ucast b) OR (ucast c :: u32)"
  shows "take_bit 24 n = n"
   and "ucast (drop_bit 16 n AND 0xff) = a"
   and "ucast (drop_bit 8 n AND 0xff) = b"
   and "ucast (n AND 0xff) = c"
proof -
  note bits = n_def b64_masks take_bit_eq_mask [symmetric]
  have big: "\<not> bit x i" if "8 \<le> i" for x :: byte and i using that bit_imp_le_length [of x i] by auto
  show "take_bit 24 n = n"
    unfolding bits by (rule bit_word_eqI) (auto simp: bit_simps big)
  show "ucast (drop_bit 16 n AND 0xff) = a"
    unfolding bits by (rule bit_word_eqI) (auto simp: bit_simps big)
  show "ucast (drop_bit 8 n AND 0xff) = b"
    unfolding bits by (rule bit_word_eqI) (auto simp: bit_simps big)
  show "ucast (n AND 0xff) = c"
    unfolding bits by (rule bit_word_eqI) (auto simp: bit_simps big)
qed
text \<open>The character of a sextet, and reading it back.\<close>

definition b64_char :: "u32 \<Rightarrow> byte" where
  "b64_char x = BASE64_ALPHABET ! unat (x AND 0x3F)"

lemma sextet_b64_char: "sextet (b64_char x) = Some (ucast (x AND 0x3F), False)"
  using sextet_alphabet [OF six_lt, of x] by (simp add: b64_char_def)

lemma push_b64_chars:
  "push_b64 n 4 = [b64_char (drop_bit 18 n), b64_char (drop_bit 12 n),
     b64_char (drop_bit 6 n), b64_char n]"
  "push_b64 n 3 = [b64_char (drop_bit 18 n), b64_char (drop_bit 12 n), b64_char (drop_bit 6 n)]"
  "push_b64 n 2 = [b64_char (drop_bit 18 n), b64_char (drop_bit 12 n)]"
  by (simp_all add: push_b64_def b64_char_def upt_conv_Cons)

lemma sextet_pad: "sextet 61 = Some (0, True)"
  by (simp add: sextet_def)

lemma low_bits_zero:
  fixes a b :: byte
  shows "drop_bit 6 (push_bit 16 (ucast a) :: u32) AND 0x3F = 0"
    and "(push_bit 16 (ucast a) :: u32) AND 0x3F = 0"
    and "(push_bit 16 (ucast a) OR push_bit 8 (ucast b) :: u32) AND 0x3F = 0"
  unfolding b64_masks take_bit_eq_mask [symmetric]
  by (rule bit_word_eqI, auto simp: bit_simps)+

lemma length_encode_mod: "length (base64_encode xs) mod 4 = 0"
  by (induction xs rule: base64_encode.induct) (simp_all add: push_b64_def)

lemma encode_Nil_iff: "base64_encode xs = [] \<longleftrightarrow> xs = []"
  by (cases xs rule: base64_encode.cases) (simp_all add: push_b64_def)

lemma chunk_bytes_join:
  assumes "take_bit 24 n = (n :: u32)"
  shows "chunk_bytes [ucast (drop_bit 18 n AND 0x3F), ucast (drop_bit 12 n AND 0x3F),
           ucast (drop_bit 6 n AND 0x3F), ucast (n AND 0x3F)] pad =
         [ucast (drop_bit 16 n AND 0xff)]
         @ (if pad < 2 then [ucast (drop_bit 8 n AND 0xff)] else [])
         @ (if pad < 1 then [ucast (n AND 0xff)] else [])"
proof -
  have "push_bit 18 (ucast (ucast (drop_bit 18 n AND 0x3F) :: byte)) OR
         push_bit 12 (ucast (ucast (drop_bit 12 n AND 0x3F) :: byte)) OR
         push_bit 6 (ucast (ucast (drop_bit 6 n AND 0x3F) :: byte)) OR
         ucast (ucast (n AND 0x3F) :: byte) = n"
    using join_sextets [of n] assms by simp
  note n = this
  show ?thesis
    unfolding chunk_bytes_def Let_def
    by (simp only: nth_Cons_0 nth_Cons_numeral nth_Cons_pos n) (simp add: n)
qed

lemma decode_encode_chunks: "decode_chunks (base64_encode xs) = Ok xs"
proof (induction xs rule: base64_encode.induct)
  case (1 a b c rest)
  let ?n = "push_bit 16 (ucast a) OR push_bit 8 (ucast b) OR (ucast c :: u32)"
  show ?case
    using 1 chunk_bytes_join [of ?n 0] split_bytes [of a b c]
    by (simp add: push_b64_chars sextet_b64_char)
next
  case 2
  show ?case by simp
next
  case (3 a)
  let ?n = "push_bit 16 (ucast a) :: u32"
  have "chunk_bytes [ucast (drop_bit 18 ?n AND 0x3F), ucast (drop_bit 12 ?n AND 0x3F), 0, 0]
      (Suc (Suc 0)) = [a]"
    using chunk_bytes_join [of ?n "Suc (Suc 0)"] split_bytes [of a 0 0] low_bits_zero(1,2) [of a]
    by simp
  then show ?case
    by (simp add: push_b64_chars sextet_b64_char sextet_pad lit_def)
next
  case (4 a b)
  let ?n = "push_bit 16 (ucast a) OR push_bit 8 (ucast b) :: u32"
  have "chunk_bytes [ucast (drop_bit 18 ?n AND 0x3F), ucast (drop_bit 12 ?n AND 0x3F),
          ucast (drop_bit 6 ?n AND 0x3F), 0] 1 = [a, b]"
    using chunk_bytes_join [of ?n 1] split_bytes [of a b 0] low_bits_zero(3) [of a b] by simp
  then show ?case
    by (simp add: push_b64_chars sextet_b64_char sextet_pad lit_def)
qed

lemma base64_decode_encode [simp]: "base64_decode (base64_encode xs) = Ok xs"
  using length_encode_mod [of xs] encode_Nil_iff [of xs] decode_encode_chunks [of xs]
  by (cases "xs = []") (simp_all add: base64_decode_def)

subsection \<open>What the decoder accepts\<close>

definition b64_ok :: "byte \<Rightarrow> bool" where
  "b64_ok c = (is_ascii_alphanumeric c \<or> c = 43 \<or> c = 47 \<or> c = 61)"

lemma sextet_None: "sextet c = None \<longleftrightarrow> \<not> b64_ok c"
  by (auto simp: sextet_def b64_ok_def is_ascii_alphanumeric_def is_ascii_digit_def)

lemma sextet_padding: "sextet c = Some (v, p) \<Longrightarrow> p \<longleftrightarrow> c = 61"
  by (auto simp: sextet_def split: if_splits)

lemma sextets_None: "sextets cs = None \<longleftrightarrow> \<not> list_all b64_ok cs"
  by (induction cs) (auto simp: sextet_None [symmetric] split: option.splits)

lemma sextets_pad: "sextets cs = Some (vs, pad) \<Longrightarrow> pad = 0 \<longleftrightarrow> 61 \<notin> set cs"
  by (induction cs arbitrary: vs pad) (auto split: option.splits prod.splits dest: sextet_padding)

lemma decode_chunks_ok:
  "length s mod 4 = 0 \<Longrightarrow>
   (\<exists>out. decode_chunks s = Ok out) \<longleftrightarrow>
     list_all b64_ok s \<and> 61 \<notin> set (take (length s - 4) s)"
proof (induction s rule: decode_chunks.induct)
  case (1 a b c d rest)
  show ?case
  proof (cases "sextets [a, b, c, d]")
    case None
    then show ?thesis
      using sextets_None [of "[a, b, c, d]"] by (auto simp del: sextets.simps)
  next
    case (Some r)
    obtain buf pad where r: "r = (buf, pad)" by (cases r)
    have all: "list_all b64_ok [a, b, c, d]"
      using Some sextets_None [of "[a, b, c, d]"] by simp
    have pad: "pad = 0 \<longleftrightarrow> 61 \<notin> set [a, b, c, d]" using Some r sextets_pad by blast
    show ?thesis
    proof (cases "rest = []")
      case True
      then show ?thesis using Some r all by (simp del: sextets.simps)
    next
      case False
      moreover from 1(2) have "length rest mod 4 = 0" by simp
      ultimately have "4 \<le> length rest" by (cases rest) (auto simp: mod_Suc split: if_splits)
      then have "take (length (a # b # c # d # rest) - 4) (a # b # c # d # rest) =
          [a, b, c, d] @ take (length rest - 4) rest"
        by (auto simp: take_Cons' eval_nat_numeral)
      then show ?thesis
        using 1(1) [OF Some r [symmetric]] False all pad Some r \<open>length rest mod 4 = 0\<close>
        by (auto simp del: sextets.simps split: sum.splits)
    qed
  qed
qed auto

subsection \<open>The shape of an encoding\<close>

lemma b64_char_alphabet: "b64_char x \<in> set BASE64_ALPHABET"
  using six_lt [of x] by (simp add: b64_char_def BASE64_ALPHABET_def)

lemma set_push_b64: "set (push_b64 n k) \<subseteq> set BASE64_ALPHABET"
  using b64_char_alphabet by (auto simp: push_b64_def b64_char_def)

lemma set_base64_encode: "set (base64_encode xs) \<subseteq> set BASE64_ALPHABET \<union> {61}"
  by (induction xs rule: base64_encode.induct) (use set_push_b64 in \<open>auto simp: lit_def\<close>)

lemma alphabet_clean:
  "(set BASE64_ALPHABET \<union> {61}) \<inter> {0, HT, LF, CR, SP, 44} = {}"
  by (simp add: BASE64_ALPHABET_def lit_def)

lemma base64_encode_clean: "set (base64_encode xs) \<inter> {0, HT, LF, CR, SP, 44} = {}"
  using set_base64_encode [of xs] alphabet_clean by blast

lemma is_ascii_base64_encode: "is_ascii (base64_encode xs)"
proof -
  have "list_all (\<lambda>b. b < 128) BASE64_ALPHABET" by (simp add: BASE64_ALPHABET_def lit_def)
  then show ?thesis
    using set_base64_encode [of xs] by (fastforce simp: is_ascii_def list_all_iff)
qed

lemma length_base64_encode: "length (base64_encode xs) = 4 * ((length xs + 2) div 3)"
proof (induction xs rule: base64_encode.induct)
  case (1 a b c rest)
  have "(length (a # b # c # rest) + 2) div 3 = (length rest + 2) div 3 + 1"
    by simp
  moreover have "length (base64_encode (a # b # c # rest)) = 4 + length (base64_encode rest)"
    by (simp add: push_b64_def)
  ultimately show ?case using 1 by linarith
qed (simp_all add: push_b64_def)

subsection \<open>Properties\<close>

text \<open>C39: base64 round trip: decoding an encoding gives the bytes back, whatever they are.\<close>

theorem base64_roundtrip: "base64_decode (base64_encode xs) = Ok xs"
  by (rule base64_decode_encode)

text \<open>
  Shape of an encoding: four characters for every started group of three bytes, all of them
  from the alphabet or the padding character, so none is CR, LF, NUL, blank or comma: a base64
  argument can neither end a command line nor split a SCRAM attribute.
\<close>

theorem base64_encode_shape:
  "length (base64_encode xs) = 4 * ((length xs + 2) div 3) \<and>
   set (base64_encode xs) \<subseteq> set BASE64_ALPHABET \<union> {61} \<and>
   set (base64_encode xs) \<inter> {0, HT, LF, CR, SP, 44} = {}"
  using length_base64_encode set_base64_encode base64_encode_clean by blast

text \<open>
  What the decoder accepts: exactly the inputs whose length is a multiple of four, made of
  alphabet characters and padding, with no padding before the last group of four.  Inside the
  last group padding may stand anywhere (\<open>=AAA\<close> is accepted), although the doc allows it only at
  the end.
\<close>

theorem base64_decode_accepts:
  "(\<exists>out. base64_decode s = Ok out) \<longleftrightarrow>
     length s mod 4 = 0 \<and> list_all b64_ok s \<and> 61 \<notin> set (take (length s - 4) s)"
  using decode_chunks_ok [of s] by (auto simp: base64_decode_def)

end
