(* ===== verification/Mechanism.thy ===== *)
theory Mechanism
  imports Command Base64
begin

text \<open>
  EHLO capabilities and SASL mechanisms, from \<open>wasm-smtp/src/protocol.rs\<close>: the tests on the
  capability lines, the choice of a mechanism, and the initial responses of \<open>PLAIN\<close>, \<open>XOAUTH2\<close>
  and \<open>OAUTHBEARER\<close>, with the readings of a server as their specifications.
\<close>

subsection \<open>Capabilities\<close>

fun ehlo_advertises_auth :: "str list \<Rightarrow> str \<Rightarrow> bool" where
  "ehlo_advertises_auth [] mechanism = False"
| "ehlo_advertises_auth (line # ls) mechanism =
     (case split_ascii_whitespace line of
        [] \<Rightarrow> ehlo_advertises_auth ls mechanism
      | head # parts \<Rightarrow>
          if \<not> eq_ignore_ascii_case head (lit ''AUTH'') then ehlo_advertises_auth ls mechanism
          else if list_ex (\<lambda>mech. eq_ignore_ascii_case mech mechanism) parts then True
          else ehlo_advertises_auth ls mechanism)"

text \<open>The loop the keyword tests share: some line has the keyword as its first word.\<close>

fun some_head_is :: "str list \<Rightarrow> str \<Rightarrow> bool" where
  "some_head_is [] keyword = False"
| "some_head_is (line # ls) keyword =
     (case split_ascii_whitespace line of
        [] \<Rightarrow> some_head_is ls keyword
      | head # _ \<Rightarrow>
          if eq_ignore_ascii_case head keyword then True else some_head_is ls keyword)"

definition ehlo_advertises_starttls :: "str list \<Rightarrow> bool" where
  "ehlo_advertises_starttls caps = some_head_is caps (lit ''STARTTLS'')"

definition ehlo_advertises_enhanced_status_codes :: "str list \<Rightarrow> bool" where
  "ehlo_advertises_enhanced_status_codes caps = some_head_is caps (lit ''ENHANCEDSTATUSCODES'')"

definition ehlo_advertises_smtputf8 :: "str list \<Rightarrow> bool" where
  "ehlo_advertises_smtputf8 caps = some_head_is caps (lit ''SMTPUTF8'')"

definition ehlo_advertises_pipelining :: "str list \<Rightarrow> bool" where
  "ehlo_advertises_pipelining caps =
     list_ex (\<lambda>c. eq_ignore_ascii_case c (lit ''PIPELINING'')) caps"

subsection \<open>Mechanisms\<close>

datatype auth_mechanism = Plain | Login | XOAuth2 | OAuthBearer | ScramSha256

primrec mechanism_name :: "auth_mechanism \<Rightarrow> str" where
  "mechanism_name Plain = lit ''PLAIN''"
| "mechanism_name Login = lit ''LOGIN''"
| "mechanism_name XOAuth2 = lit ''XOAUTH2''"
| "mechanism_name OAuthBearer = lit ''OAUTHBEARER''"
| "mechanism_name ScramSha256 = lit ''SCRAM-SHA-256''"

definition select_auth_mechanism :: "features \<Rightarrow> str list \<Rightarrow> auth_mechanism option" where
  "select_auth_mechanism f caps =
     (if scram_sha_256 f \<and> ehlo_advertises_auth caps (lit ''SCRAM-SHA-256'')
      then Some ScramSha256
      else if ehlo_advertises_auth caps (lit ''PLAIN'') then Some Plain
      else if ehlo_advertises_auth caps (lit ''LOGIN'') then Some Login
      else None)"

subsection \<open>Initial responses\<close>

definition plain_payload :: "str \<Rightarrow> str \<Rightarrow> byte list" where
  "plain_payload user pass = [0] @ user @ [0] @ pass"

definition build_auth_plain_initial_response :: "str \<Rightarrow> str \<Rightarrow> str" where
  "build_auth_plain_initial_response user pass = base64_encode (plain_payload user pass)"

definition xoauth2_payload :: "str \<Rightarrow> str \<Rightarrow> byte list" where
  "xoauth2_payload user token =
     lit ''user='' @ user @ [1] @ lit ''auth=Bearer '' @ token @ [1] @ [1]"

definition build_xoauth2_initial_response :: "str \<Rightarrow> str \<Rightarrow> str" where
  "build_xoauth2_initial_response user token = base64_encode (xoauth2_payload user token)"

definition oauthbearer_payload :: "str \<Rightarrow> str \<Rightarrow> byte list" where
  "oauthbearer_payload user token =
     lit ''n,a='' @ user @ [44] @ [1] @ lit ''auth=Bearer '' @ token @ [1] @ [1]"

definition build_oauthbearer_initial_response :: "str \<Rightarrow> str \<Rightarrow> str" where
  "build_oauthbearer_initial_response user token = base64_encode (oauthbearer_payload user token)"

subsection \<open>The reading of a server\<close>

text \<open>RFC 4616: authorization identity, user and password, separated by NUL.\<close>

definition read_plain :: "str \<Rightarrow> (str \<times> str \<times> str) option" where
  "read_plain response =
     (case base64_decode response of
        Err _ \<Rightarrow> None
      | Ok payload \<Rightarrow>
          (case split_char 0 payload of [z, u, p] \<Rightarrow> Some (z, u, p) | _ \<Rightarrow> None))"

text \<open>XOAUTH2: fields that SOH closes, the last one empty.\<close>

definition read_xoauth2 :: "str \<Rightarrow> (str \<times> str) option" where
  "read_xoauth2 response =
     (case base64_decode response of
        Err _ \<Rightarrow> None
      | Ok payload \<Rightarrow>
          (case split_char 1 payload of
             [u, a, e, e'] \<Rightarrow>
               if e = [] \<and> e' = [] then
                 (case (strip_prefix u (lit ''user=''), strip_prefix a (lit ''auth=Bearer '')) of
                    (Some user, Some token) \<Rightarrow> Some (user, token)
                  | _ \<Rightarrow> None)
               else None
           | _ \<Rightarrow> None))"

text \<open>
  RFC 7628: a GS2 header with an authorization identity that a comma closes, then SOH, then
  \<open>key=value\<close> pairs, each closed by SOH, and a last SOH at the very end.  A key is letters, a value
  visible characters and white space.  An identity with an escape is refused too, so that it is
  read as it stands.
\<close>

definition kv_key :: "str \<Rightarrow> bool" where
  "kv_key k \<longleftrightarrow> k \<noteq> [] \<and> list_all (\<lambda>b. 65 \<le> b \<and> b \<le> 90 \<or> 97 \<le> b \<and> b \<le> 122) k"

definition kv_value :: "str \<Rightarrow> bool" where
  "kv_value v \<longleftrightarrow> list_all (\<lambda>b. 0x20 \<le> b \<and> b \<le> 0x7E \<or> b \<in> {9, CR, LF}) v"

fun read_pairs :: "str list \<Rightarrow> (str \<times> str) list option" where
  "read_pairs [] = None"
| "read_pairs (p # ps) =
     (if p = [] then (if ps = [[]] then Some [] else None)
      else case split_once 61 p of
        None \<Rightarrow> None
      | Some (k, v) \<Rightarrow>
          if kv_key k \<and> kv_value v then map_option ((#) (k, v)) (read_pairs ps) else None)"

definition read_oauthbearer :: "byte list \<Rightarrow> (str \<times> (str \<times> str) list) option" where
  "read_oauthbearer payload =
     (case strip_prefix payload (lit ''n,a='') of
        None \<Rightarrow> None
      | Some r \<Rightarrow>
          (case split_once 44 r of
             None \<Rightarrow> None
           | Some (user, kvs) \<Rightarrow>
               if user = [] \<or> 0 \<in> set user \<or> 61 \<in> set user then None
               else (case split_char 1 kvs of
                  e # ps \<Rightarrow> if e = [] then map_option (Pair user) (read_pairs ps) else None
                | [] \<Rightarrow> None)))"

subsection \<open>Facts\<close>

lemma ehlo_advertises_auth_iff:
  "ehlo_advertises_auth caps mechanism \<longleftrightarrow>
     (\<exists>line \<in> set caps. \<exists>head parts mech. split_ascii_whitespace line = head # parts \<and>
        eq_ignore_ascii_case head (lit ''AUTH'') \<and> mech \<in> set parts \<and>
        eq_ignore_ascii_case mech mechanism)"
  by (induction caps) (auto simp: list_ex_iff split: list.splits)

lemma some_head_is_iff:
  "some_head_is caps keyword \<longleftrightarrow>
     (\<exists>line \<in> set caps. \<exists>head parts. split_ascii_whitespace line = head # parts \<and>
        eq_ignore_ascii_case head keyword)"
  by (induction caps) (auto split: list.splits)

lemma some_head_is_append: "some_head_is (xs @ ys) k \<longleftrightarrow> some_head_is xs k \<or> some_head_is ys k"
  by (auto simp: some_head_is_iff)

lemma no_soh_bearer: "1 \<notin> set (lit ''auth=Bearer '')" "1 \<notin> set (lit ''user='')"
  by (simp_all add: lit_def)

lemma printable_no_soh:
  "list_all (\<lambda>b. 0x21 \<le> b \<and> b \<le> 0x7E) t \<Longrightarrow> (1 :: byte) \<notin> set t"
  by (auto simp: list_all_iff word_le_nat_alt)

lemma token_no_soh: "validate_oauth2_token t = Ok () \<Longrightarrow> 1 \<notin> set t"
  using printable_no_soh [of t]
  by (simp add: validate_oauth2_token_def check_token_bytes_Ok split: if_splits)

text \<open>A list of pairs as it is written, and what the reader makes of it.\<close>

definition kv_pairs :: "(str \<times> str) list \<Rightarrow> str" where
  "kv_pairs ps = concat (map (\<lambda>(k, v). k @ [61] @ v @ [1]) ps)"

lemma kv_bytes:
  "kv_key k \<Longrightarrow> 61 \<notin> set k \<and> 1 \<notin> set k"
  "kv_value v \<Longrightarrow> 1 \<notin> set v"
  by (auto simp: kv_key_def kv_value_def list_all_iff word_le_nat_alt)

lemma read_pairs_written:
  "list_all (\<lambda>(k, v). kv_key k \<and> kv_value v) ps \<Longrightarrow>
   read_pairs (split_char 1 (kv_pairs ps @ [1])) = Some ps"
proof (induction ps)
  case (Cons p ps)
  obtain k v where p: "p = (k, v)" "kv_key k" "kv_value v" using Cons(2) by (cases p) auto
  then have "1 \<notin> set (k @ 61 # v)" "k \<noteq> []" using kv_bytes by (auto simp: kv_key_def)
  then show ?case
    using Cons p kv_bytes(1) [OF p(2)]
      split_char_append [of 1 "k @ 61 # v" "kv_pairs ps @ [1]"] split_once_append [of 61 k v]
    by (simp add: kv_pairs_def)
qed (simp add: kv_pairs_def)

lemma oauthbearer_read:
  assumes "user \<noteq> []" and "set user \<inter> {0, 44, 61} = {}"
    and "list_all (\<lambda>(k, v). kv_key k \<and> kv_value v) ps"
  shows "read_oauthbearer (lit ''n,a='' @ user @ [44, 1] @ kv_pairs ps @ [1]) = Some (user, ps)"
proof -
  have "split_once 44 (user @ 44 # 1 # kv_pairs ps @ [1]) = Some (user, 1 # kv_pairs ps @ [1])"
    using assms(2) by (intro split_once_append) auto
  moreover have "split_char 1 (1 # kv_pairs ps @ [1]) = [] # split_char 1 (kv_pairs ps @ [1])"
    using split_char_append [of 1 "[]" "kv_pairs ps @ [1]"] by simp
  moreover have "strip_prefix (lit ''n,a='' @ r) (lit ''n,a='') = Some r" for r
    by (simp add: strip_prefix_Some)
  ultimately show ?thesis
    using assms read_pairs_written [OF assms(3)] by (auto simp: read_oauthbearer_def)
qed

lemma bearer_value: "validate_oauth2_token t = Ok () \<Longrightarrow> kv_value (lit ''Bearer '' @ t)"
  by (auto simp: validate_oauth2_token_def check_token_bytes_Ok kv_value_def list_all_iff lit_def
      word_le_nat_alt split: if_splits)

text \<open>A user without a comma is read as the identity, with the token alone.\<close>

lemma oauthbearer_payload_read:
  assumes "user \<noteq> []" and "set user \<inter> {0, 44, 61} = {}" and "validate_oauth2_token token = Ok ()"
  shows "read_oauthbearer (oauthbearer_payload user token) =
     Some (user, [(lit ''auth'', lit ''Bearer '' @ token)])"
proof -
  have "oauthbearer_payload user token =
      lit ''n,a='' @ user @ [44, 1] @ kv_pairs [(lit ''auth'', lit ''Bearer '' @ token)] @ [1]"
    by (simp add: oauthbearer_payload_def kv_pairs_def lit_def)
  moreover have "kv_key (lit ''auth'')" by code_simp
  ultimately show ?thesis
    using oauthbearer_read [OF assms(1,2), of "[(lit ''auth'', lit ''Bearer '' @ token)]"]
      bearer_value [OF assms(3)] by simp
qed

text \<open>
  A user that goes on with a comma and pairs of its own is read as another identity, with these
  pairs in front of the token; a last key takes up the comma that the builder adds.
\<close>

definition injecting_user :: "str \<Rightarrow> (str \<times> str) list \<Rightarrow> str" where
  "injecting_user user ps = user @ [44, 1] @ kv_pairs ps @ lit ''x=''"

lemma oauthbearer_injected_read:
  assumes "user \<noteq> []" and "set user \<inter> {0, 44, 61} = {}"
    and "list_all (\<lambda>(k, v). kv_key k \<and> kv_value v) ps" and "validate_oauth2_token token = Ok ()"
  shows "read_oauthbearer (oauthbearer_payload (injecting_user user ps) token) =
     Some (user, ps @ [(lit ''x'', [44]), (lit ''auth'', lit ''Bearer '' @ token)])"
proof -
  let ?ps = "ps @ [(lit ''x'', [44]), (lit ''auth'', lit ''Bearer '' @ token)]"
  have "oauthbearer_payload (injecting_user user ps) token =
      lit ''n,a='' @ user @ [44, 1] @ kv_pairs ?ps @ [1]"
    by (simp add: oauthbearer_payload_def injecting_user_def kv_pairs_def lit_def)
  moreover have "kv_key (lit ''auth'')" "kv_key (lit ''x'')" "kv_value [44]" by code_simp+
  ultimately show ?thesis
    using oauthbearer_read [OF assms(1,2), of ?ps] assms(3) bearer_value [OF assms(4)] by simp
qed

subsection \<open>Properties\<close>

text \<open>
  \<open>select_auth_mechanism\<close> is the first mechanism of the preference order SCRAM-SHA-256 (if it is
  compiled in), PLAIN, LOGIN that the server advertises; a bearer-token mechanism is never chosen,
  and nothing is chosen that was not advertised.
\<close>

theorem select_auth_mechanism_first:
  "select_auth_mechanism f caps =
     List.find (\<lambda>m. ehlo_advertises_auth caps (mechanism_name m))
       ((if scram_sha_256 f then [ScramSha256] else []) @ [Plain, Login])"
  by (simp add: select_auth_mechanism_def)

text \<open>
  A server that reads a \<open>PLAIN\<close> response as RFC 4616 prescribes gets the empty authorization
  identity, the user and the password, for all credentials the client lets through.
\<close>

theorem plain_response_read:
  assumes "validate_plain_username user = Ok ()" and "validate_plain_password pass = Ok ()"
  shows "read_plain (build_auth_plain_initial_response user pass) = Some ([], user, pass)"
proof -
  have u: "0 \<notin> set user" and p: "0 \<notin> set pass"
    using assms credential_nul by blast+
  have "split_char 0 (plain_payload user pass) = [[], user, pass]"
    using split_char_append [of 0 user pass] u p
    by (simp add: plain_payload_def split_char_id)
  then show ?thesis
    by (simp add: read_plain_def build_auth_plain_initial_response_def base64_decode_encode)
qed

theorem plain_response_read_witness:
  "read_plain (build_auth_plain_initial_response (lit ''u'') (lit ''p w'')) =
     Some ([], lit ''u'', lit ''p w'')"
proof (rule plain_response_read)
  show "validate_plain_username (lit ''u'') = Ok ()" by code_simp
  show "validate_plain_password (lit ''p w'') = Ok ()" by code_simp
qed

text \<open>
  A server reads back from an \<open>XOAUTH2\<close> response the user and the token the caller gave, for
  all those the client lets through: neither can smuggle a field.
\<close>

theorem xoauth2_response_read:
  assumes "validate_xoauth2_user user = Ok ()" and "validate_oauth2_token token = Ok ()"
  shows "read_xoauth2 (build_xoauth2_initial_response user token) = Some (user, token)"
proof -
  have u: "1 \<notin> set user"
    using assms(1) by (auto simp: validate_xoauth2_user_def list_ex_iff split: if_splits)
  have t: "1 \<notin> set token" by (rule token_no_soh [OF assms(2)])
  have "split_char 1 (xoauth2_payload user token) =
      [lit ''user='' @ user, lit ''auth=Bearer '' @ token, [], []]"
    using u t no_soh_bearer
      split_char_append [of 1 "lit ''user='' @ user" "lit ''auth=Bearer '' @ token @ [1, 1]"]
      split_char_append [of 1 "lit ''auth=Bearer '' @ token" "[1]"]
    by (simp add: xoauth2_payload_def)
  moreover have "strip_prefix (p @ x) p = Some x" for p x
    by (simp add: strip_prefix_Some)
  ultimately show ?thesis
    by (simp add: read_xoauth2_def build_xoauth2_initial_response_def base64_decode_encode)
qed

theorem xoauth2_response_read_witness:
  "read_xoauth2 (build_xoauth2_initial_response (lit ''u@x'') (lit ''tok'')) =
     Some (lit ''u@x'', lit ''tok'')"
proof (rule xoauth2_response_read)
  show "validate_xoauth2_user (lit ''u@x'') = Ok ()" by code_simp
  show "validate_oauth2_token (lit ''tok'') = Ok ()" by code_simp
qed

end
