(* ===== verification/Scram.thy ===== *)
theory Scram
  imports Errors Utf8 Base64
begin

text \<open>
  SCRAM-SHA-256 as \<open>wasm-smtp/src/scram.rs\<close> implements it.  The primitives of the crypto crates
  (PBKDF2, HMAC-SHA-256, SHA-256) and the operating system's random bytes are not in the
  repository: they are the fields of the record \<open>crypto\<close> and an argument, and what is relied on is
  the length of their outputs (\<open>crypto_ok\<close>).  A server as RFC 5802 describes it is the
  specification.
\<close>

definition SHA256_LEN :: nat where "SHA256_LEN = 32"
definition MIN_PBKDF2_ITERATIONS :: nat where "MIN_PBKDF2_ITERATIONS = 4096"
definition MAX_PBKDF2_ITERATIONS :: nat where "MAX_PBKDF2_ITERATIONS = 600000"
definition CLIENT_NONCE_LEN :: nat where "CLIENT_NONCE_LEN = 24"

record crypto =
  pbkdf2_hmac_sha256 :: "byte list \<Rightarrow> byte list \<Rightarrow> nat \<Rightarrow> byte list"
  hmac :: "byte list \<Rightarrow> byte list \<Rightarrow> byte list"
  sha256 :: "byte list \<Rightarrow> byte list"

definition crypto_ok :: "crypto \<Rightarrow> bool" where
  "crypto_ok c \<longleftrightarrow>
     (\<forall>p s i. length (pbkdf2_hmac_sha256 c p s i) = SHA256_LEN) \<and>
     (\<forall>k m. length (hmac c k m) = SHA256_LEN) \<and> (\<forall>x. length (sha256 c x) = SHA256_LEN)"

subsection \<open>The code\<close>

definition auth_other :: "string \<Rightarrow> auth_error" where
  "auth_other s = AuthOther (lit s)"

text \<open>\<open>entropy\<close> is what \<open>getrandom::fill\<close> puts into the buffer, \<open>None\<close> its failure.\<close>

definition generate_client_nonce :: "byte list option \<Rightarrow> auth_error + str" where
  "generate_client_nonce entropy =
     (case entropy of
        None \<Rightarrow> Err (auth_other ''CSPRNG unavailable'')
      | Some bytes \<Rightarrow> Ok (base64_encode bytes))"

definition escape_saslname :: "str \<Rightarrow> str" where
  "escape_saslname name =
     concat (map (\<lambda>ch. if ch = [44] then lit ''=2C'' else if ch = [61] then lit ''=3D'' else ch)
       (chars name))"

definition build_client_first :: "str \<Rightarrow> str \<Rightarrow> str" where
  "build_client_first username client_nonce =
     lit ''n,,n='' @ escape_saslname username @ lit '',r='' @ client_nonce"

record server_first =
  sf_nonce :: str
  sf_salt :: "byte list"
  sf_iterations :: nat

type_synonym first_attrs = "str option \<times> str option \<times> nat option"

fun scan_first_attrs :: "first_attrs \<Rightarrow> str list \<Rightarrow> auth_error + first_attrs" where
  "scan_first_attrs acc [] = Ok acc"
| "scan_first_attrs (nonce, salt_b64, iterations) (attr # attrs) =
     (case split_once 61 attr of
        None \<Rightarrow> Err (auth_other ''malformed server-first message'')
      | Some (key, v) \<Rightarrow>
          if key = lit ''r'' then scan_first_attrs (Some v, salt_b64, iterations) attrs
          else if key = lit ''s'' then scan_first_attrs (nonce, Some v, iterations) attrs
          else if key = lit ''i'' then
            (case parse_uint 4294967295 v of
               None \<Rightarrow> Err (auth_other ''server iteration count not a u32'')
             | Some n \<Rightarrow> scan_first_attrs (nonce, salt_b64, Some n) attrs)
          else if key = lit ''m'' then
            Err (auth_other ''server requested an unsupported SCRAM extension'')
          else scan_first_attrs (nonce, salt_b64, iterations) attrs)"

definition parse_server_first :: "str \<Rightarrow> str \<Rightarrow> auth_error + server_first" where
  "parse_server_first raw client_nonce =
     (case scan_first_attrs (None, None, None) (split_char 44 raw) of
        Err e \<Rightarrow> Err e
      | Ok (nonce, salt_b64, iterations) \<Rightarrow>
     (case nonce of None \<Rightarrow> Err (auth_other ''server-first missing r='') | Some nonce \<Rightarrow>
     (case salt_b64 of None \<Rightarrow> Err (auth_other ''server-first missing s='') | Some salt_b64 \<Rightarrow>
     (case iterations of None \<Rightarrow> Err (auth_other ''server-first missing i='') | Some iterations \<Rightarrow>
       if \<not> starts_with nonce client_nonce then
         Err (auth_other ''server nonce does not start with client nonce'')
       else if \<not> (MIN_PBKDF2_ITERATIONS \<le> iterations \<and> iterations \<le> MAX_PBKDF2_ITERATIONS) then
         Err (auth_other ''server iteration count outside acceptable range'')
       else
         (case base64_decode salt_b64 of
            Err _ \<Rightarrow> Err (auth_other ''server-first salt is not valid base64'')
          | Ok salt \<Rightarrow>
              Ok \<lparr>sf_nonce = nonce, sf_salt = salt, sf_iterations = iterations\<rparr>)))))"

record client_final =
  cf_message :: str
  expected_server_signature :: "byte list"

definition hmac_sha256 :: "crypto \<Rightarrow> byte list \<Rightarrow> byte list \<Rightarrow> byte list" where
  "hmac_sha256 c key message = hmac c key message"

definition xor32 :: "byte list \<Rightarrow> byte list \<Rightarrow> byte list" where
  "xor32 a b = map (\<lambda>i. a ! i XOR b ! i) [0..<SHA256_LEN]"

definition compute_client_final ::
    "crypto \<Rightarrow> str \<Rightarrow> str \<Rightarrow> str \<Rightarrow> server_first \<Rightarrow> str \<Rightarrow> client_final" where
  "compute_client_final c username password client_nonce sf server_first_raw =
     (let salted_password =
            pbkdf2_hmac_sha256 c password (sf_salt sf) (sf_iterations sf);
          client_key = hmac_sha256 c salted_password (lit ''Client Key'');
          stored_key = sha256 c client_key;
          server_key = hmac_sha256 c salted_password (lit ''Server Key'');
          client_final_no_proof = lit ''c=biws,r='' @ sf_nonce sf;
          client_first_bare = lit ''n='' @ escape_saslname username @ lit '',r='' @ client_nonce;
          auth_message = client_first_bare @ lit '','' @ server_first_raw @ lit '',''
            @ client_final_no_proof;
          client_signature = hmac_sha256 c stored_key auth_message;
          client_proof = xor32 client_key client_signature
      in \<lparr>cf_message = client_final_no_proof @ lit '',p='' @ base64_encode client_proof,
          expected_server_signature = hmac_sha256 c server_key auth_message\<rparr>)"

text \<open>\<open>find_map(|attr| attr.strip_prefix(p))\<close>.\<close>

fun find_prefixed :: "str \<Rightarrow> str list \<Rightarrow> str option" where
  "find_prefixed p [] = None"
| "find_prefixed p (attr # attrs) =
     (case strip_prefix attr p of Some v \<Rightarrow> Some v | None \<Rightarrow> find_prefixed p attrs)"

definition verify_server_final :: "str \<Rightarrow> byte list \<Rightarrow> auth_error + unit" where
  "verify_server_final server_final expected =
     (if list_ex (\<lambda>attr. strip_prefix attr (lit ''e='') \<noteq> None) (split_char 44 server_final) then
        Err (auth_other ''server rejected SCRAM exchange'')
      else case find_prefixed (lit ''v='') (split_char 44 server_final) of
        None \<Rightarrow> Err (auth_other ''server-final missing v='')
      | Some v_b64 \<Rightarrow>
          (case base64_decode v_b64 of
             Err _ \<Rightarrow> Err (auth_other ''server-final v= is not valid base64'')
           | Ok v \<Rightarrow>
               if length v \<noteq> SHA256_LEN then
                 Err (auth_other ''server-final v= is not 32 bytes'')
               else if v = expected then Ok ()
               else Err (auth_other ''server signature did not verify'')))"

subsection \<open>The server of RFC 5802\<close>

fun unescape_saslname :: "str \<Rightarrow> str option" where
  "unescape_saslname [] = Some []"
| "unescape_saslname (b # bs) =
     (if b = 61 then
        (case bs of
           x # y # r \<Rightarrow>
             if x = 50 \<and> y = 67 then map_option (Cons 44) (unescape_saslname r)
             else if x = 51 \<and> y = 68 then map_option (Cons 61) (unescape_saslname r)
             else None
         | _ \<Rightarrow> None)
      else if b = 44 then None
      else map_option (Cons b) (unescape_saslname bs))"

text \<open>The client-first message, cut at its commas: user and nonce.\<close>

definition read_client_first :: "str \<Rightarrow> (str \<times> str) option" where
  "read_client_first msg =
     (case split_char 44 msg of
        [cbind, authzid, n, r] \<Rightarrow>
          if cbind = lit ''n'' \<and> authzid = [] then
            (case (strip_prefix n (lit ''n=''), strip_prefix r (lit ''r='')) of
               (Some name, Some nonce) \<Rightarrow>
                 map_option (\<lambda>u. (u, nonce)) (unescape_saslname name)
             | _ \<Rightarrow> None)
          else None
      | _ \<Rightarrow> None)"

text \<open>
  What a server keeps of a password, and its check of the client-final message in a conversation
  that began with \<open>bare\<close> and \<open>first\<close>; the result is the server-final message.
\<close>

record stored_credentials =
  stored_key :: "byte list"
  server_key :: "byte list"

definition enrol :: "crypto \<Rightarrow> str \<Rightarrow> byte list \<Rightarrow> nat \<Rightarrow> stored_credentials" where
  "enrol c password salt i =
     (let salted = pbkdf2_hmac_sha256 c password salt i
      in \<lparr>stored_key = sha256 c (hmac c salted (lit ''Client Key'')),
          server_key = hmac c salted (lit ''Server Key'')\<rparr>)"

definition server_check ::
    "crypto \<Rightarrow> stored_credentials \<Rightarrow> str \<Rightarrow> str \<Rightarrow> str \<Rightarrow> str option" where
  "server_check c creds bare first msg =
     (case split_char 44 msg of
        [cb, r, p] \<Rightarrow>
          (case strip_prefix p (lit ''p='') of
             None \<Rightarrow> None
           | Some proof_b64 \<Rightarrow>
               (case base64_decode proof_b64 of
                  Err _ \<Rightarrow> None
                | Ok proof \<Rightarrow>
                    let auth_message = bare @ [44] @ first @ [44] @ cb @ [44] @ r;
                        client_key = map2 (XOR) proof (hmac c (stored_key creds) auth_message)
                    in if sha256 c client_key = stored_key creds
                       then Some (lit ''v='' @
                              base64_encode (hmac c (server_key creds) auth_message))
                       else None))
      | _ \<Rightarrow> None)"

subsection \<open>Names\<close>

lemma unescape_plain:
  "44 \<notin> set c \<Longrightarrow> 61 \<notin> set c \<Longrightarrow>
   unescape_saslname (c @ r) = map_option ((@) c) (unescape_saslname r)"
proof (induction c)
  case Nil
  show ?case by (cases "unescape_saslname r") auto
next
  case (Cons b c)
  then show ?case by (cases "unescape_saslname r") auto
qed

lemma unescape_chars:
  assumes "\<forall>c \<in> set cs. c = [44] \<or> c = [61] \<or> 44 \<notin> set c \<and> 61 \<notin> set c"
  shows "unescape_saslname (concat (map (\<lambda>ch. if ch = [44] then lit ''=2C''
           else if ch = [61] then lit ''=3D'' else ch) cs)) = Some (concat cs)"
  using assms
proof (induction cs)
  case Nil
  show ?case by simp
next
  case (Cons c cs)
  then consider "c = [44]" | "c = [61]" | "44 \<notin> set c" "61 \<notin> set c" by auto
  then show ?case
    using Cons by cases (auto simp: lit_def unescape_plain)
qed

lemma name_chars:
  assumes "valid_utf8 name" and "c \<in> set (chars name)"
  shows "c = [44] \<or> c = [61] \<or> 44 \<notin> set c \<and> 61 \<notin> set c"
  using chars_ascii_byte [OF assms(2), of 44] chars_ascii_byte [OF assms(2), of 61] by auto

lemma unescape_escape: "valid_utf8 name \<Longrightarrow> unescape_saslname (escape_saslname name) = Some name"
  unfolding escape_saslname_def
  using unescape_chars [of "chars name"] name_chars by (simp add: concat_chars)

lemma escape_no_comma: "valid_utf8 name \<Longrightarrow> 44 \<notin> set (escape_saslname name)"
  unfolding escape_saslname_def using name_chars [of name]
  by (fastforce simp: lit_def split: if_splits)

subsection \<open>The server-first message\<close>

definition key_value :: "str \<Rightarrow> str \<Rightarrow> str" where
  "key_value k v = k @ [61] @ v"

text \<open>Where the parts of an accepted message come from.\<close>

lemma keys_distinct:
  "lit ''r'' \<noteq> lit ''m''" "lit ''s'' \<noteq> lit ''m''" "lit ''i'' \<noteq> lit ''m''"
  by (simp_all add: lit_def)

lemma scan_step:
  assumes "scan_first_attrs (n, s, i) (attr # attrs) = Ok res"
  obtains k v n' s' i' where "attr = key_value k v" and "61 \<notin> set k" and "k \<noteq> lit ''m''"
    and "scan_first_attrs (n', s', i') attrs = Ok res"
    and "n' = n \<or> n' = Some v \<and> k = lit ''r''" and "s' = s \<or> s' = Some v \<and> k = lit ''s''"
proof -
  obtain k v where kv: "split_once 61 attr = Some (k, v)"
    using assms by (cases "split_once 61 attr") auto
  have "attr = key_value k v" "61 \<notin> set k"
    using split_once_Some [OF kv] by (simp_all add: key_value_def)
  then show thesis
    using that [of k v] assms kv keys_distinct by (auto split: if_splits option.splits)
qed

lemma m_key: "starts_with (key_value k v) (lit ''m='') \<Longrightarrow> 61 \<notin> set k \<Longrightarrow> k = lit ''m''"
  by (cases k; cases "tl k") (auto simp: starts_with_def lit_def key_value_def)

lemma scan_first_attrs_sound:
  assumes "scan_first_attrs acc attrs = Ok (n, s, i)"
  shows "(n = fst acc \<or> (\<exists>v. n = Some v \<and> key_value (lit ''r'') v \<in> set attrs)) \<and>
         (s = fst (snd acc) \<or> (\<exists>v. s = Some v \<and> key_value (lit ''s'') v \<in> set attrs)) \<and>
         (\<forall>a \<in> set attrs. \<not> starts_with a (lit ''m=''))"
  using assms
proof (induction attrs arbitrary: acc)
  case Nil
  then show ?case by auto
next
  case (Cons attr attrs)
  obtain n0 s0 i0 where acc: "acc = (n0, s0, i0)" by (cases acc)
  obtain k v n' s' i' where attr: "attr = key_value k v" "61 \<notin> set k" "k \<noteq> lit ''m''"
    and scan: "scan_first_attrs (n', s', i') attrs = Ok (n, s, i)"
    and n': "n' = n0 \<or> n' = Some v \<and> k = lit ''r''" and s': "s' = s0 \<or> s' = Some v \<and> k = lit ''s''"
    using Cons.prems unfolding acc by (rule scan_step)
  have "\<not> starts_with attr (lit ''m='')" using m_key attr by blast
  with Cons.IH [OF scan] n' s' attr(1) show ?case by (auto simp: acc)
qed

lemma parse_server_first_inv:
  assumes "parse_server_first raw cn = Ok sf"
  obtains s i where
    "scan_first_attrs (None, None, None) (split_char 44 raw) = Ok (Some (sf_nonce sf), Some s, i)"
    and "starts_with (sf_nonce sf) cn" and "base64_decode s = Ok (sf_salt sf)"
    and "4096 \<le> sf_iterations sf" and "sf_iterations sf \<le> 600000"
  using assms
  by (auto simp: parse_server_first_def MIN_PBKDF2_ITERATIONS_def MAX_PBKDF2_ITERATIONS_def
        split: sum.splits prod.splits option.splits if_splits)

lemma parsed_nonce:
  assumes "parse_server_first raw cn = Ok sf"
  shows "key_value (lit ''r'') (sf_nonce sf) \<in> set (split_char 44 raw)" and "44 \<notin> set (sf_nonce sf)"
proof -
  obtain s i where "scan_first_attrs (None, None, None) (split_char 44 raw) =
      Ok (Some (sf_nonce sf), Some s, i)"
    using assms by (rule parse_server_first_inv)
  from scan_first_attrs_sound [OF this]
  show r: "key_value (lit ''r'') (sf_nonce sf) \<in> set (split_char 44 raw)" by auto
  from split_char_no_sep [OF this] show "44 \<notin> set (sf_nonce sf)" by (simp add: key_value_def)
qed

subsection \<open>The exchange\<close>

lemma xor32_back:
  assumes "length a = 32" and "length b = 32"
  shows "map2 (XOR) (xor32 a b) b = a"
  by (rule nth_equalityI) (simp_all add: assms xor32_def SHA256_LEN_def xor.assoc)

lemma crypto_okD:
  "crypto_ok c \<Longrightarrow> length (hmac c k m) = 32"
  "crypto_ok c \<Longrightarrow> length (sha256 c x) = 32"
  by (simp_all add: crypto_ok_def SHA256_LEN_def)

lemma b64_no_comma: "44 \<notin> set (base64_encode xs)"
  using base64_encode_clean [of xs] by blast

lemma split_three:
  "44 \<notin> set a \<Longrightarrow> 44 \<notin> set b \<Longrightarrow> 44 \<notin> set c \<Longrightarrow> split_char 44 (a @ 44 # b @ 44 # c) = [a, b, c]"
  by (simp add: split_char_append split_char_id)

lemma verify_server_final_iff:
  assumes "length expected = 32"
  shows "verify_server_final final expected = Ok () \<longleftrightarrow>
    list_all (\<lambda>a. \<not> starts_with a (lit ''e='')) (split_char 44 final) \<and>
    (\<exists>v. find_prefixed (lit ''v='') (split_char 44 final) = Some v \<and> base64_decode v = Ok expected)"
  using assms
  by (auto simp: verify_server_final_def SHA256_LEN_def list_ex_iff list_all_iff strip_prefix_None
        split: option.splits sum.splits)

lemma verify_own_signature:
  assumes "length sig = 32"
  shows "verify_server_final (lit ''v='' @ base64_encode sig) sig = Ok ()"
proof -
  have "44 \<notin> set (lit ''v='' @ base64_encode sig)"
    using b64_no_comma by (simp add: lit_def)
  then have "split_char 44 (lit ''v='' @ base64_encode sig) = [lit ''v='' @ base64_encode sig]"
    by (rule split_char_id)
  moreover have "\<not> starts_with (lit ''v='' @ base64_encode sig) (lit ''e='')"
    by (simp add: starts_with_iff lit_def)
  moreover have "strip_prefix (lit ''v='' @ base64_encode sig) (lit ''v='') =
      Some (base64_encode sig)"
    by (simp add: strip_prefix_Some)
  ultimately show ?thesis by (simp add: verify_server_final_iff [OF assms])
qed

text \<open>An honest exchange, and the server-final message it ends with.\<close>

lemma scram_exchange:
  assumes "crypto_ok c" and "parse_server_first raw cn = Ok sf"
  shows "server_check c (enrol c pw (sf_salt sf) (sf_iterations sf))
       (drop 3 (build_client_first user cn)) raw
       (cf_message (compute_client_final c user pw cn sf raw)) =
     Some (lit ''v='' @ base64_encode
       (expected_server_signature (compute_client_final c user pw cn sf raw)))" (is ?check)
    and "length (expected_server_signature (compute_client_final c user pw cn sf raw)) = 32"
      (is ?len)
proof -
  let ?bare = "lit ''n='' @ escape_saslname user @ lit '',r='' @ cn"
  let ?creds = "enrol c pw (sf_salt sf) (sf_iterations sf)"
  let ?ck = "hmac c (pbkdf2_hmac_sha256 c pw (sf_salt sf) (sf_iterations sf)) (lit ''Client Key'')"
  let ?np = "lit ''c=biws'' @ [44] @ lit ''r='' @ sf_nonce sf"
  let ?am = "?bare @ [44] @ raw @ [44] @ ?np"
  let ?sig = "hmac c (server_key ?creds) ?am"
  let ?proof = "xor32 ?ck (hmac c (stored_key ?creds) ?am)"
  have bare: "drop 3 (build_client_first user cn) = ?bare"
    by (simp add: build_client_first_def lit_def)
  have np: "lit ''c=biws,r='' = lit ''c=biws'' @ [44] @ lit ''r=''" and comma: "lit '','' = [44]"
    and comma_p: "lit '',p='' = [44] @ lit ''p=''"
    by (simp_all add: lit_def)
  have cf: "compute_client_final c user pw cn sf raw =
      \<lparr>cf_message = ?np @ [44] @ lit ''p='' @ base64_encode ?proof, expected_server_signature = ?sig\<rparr>"
    by (simp add: compute_client_final_def Let_def hmac_sha256_def enrol_def np comma comma_p)
  have split: "split_char 44 (?np @ [44] @ lit ''p='' @ base64_encode ?proof) =
      [lit ''c=biws'', lit ''r='' @ sf_nonce sf, lit ''p='' @ base64_encode ?proof]"
    using split_three [of "lit ''c=biws''" "lit ''r='' @ sf_nonce sf"
        "lit ''p='' @ base64_encode ?proof"] parsed_nonce(2) [OF assms(2)] b64_no_comma
    by (simp add: lit_def)
  have key: "map2 (XOR) ?proof (hmac c (stored_key ?creds) ?am) = ?ck"
    by (rule xor32_back) (simp_all add: crypto_okD assms(1))
  have "sha256 c ?ck = stored_key ?creds" by (simp add: enrol_def Let_def)
  then have "server_check c ?creds ?bare raw (?np @ [44] @ lit ''p='' @ base64_encode ?proof) =
      Some (lit ''v='' @ base64_encode ?sig)"
    unfolding server_check_def split using key
    by (simp add: strip_prefix_def Let_def)
  then show ?check by (simp add: bare cf)
  show ?len by (simp add: cf crypto_okD assms(1))
qed

subsection \<open>Properties\<close>

text \<open>
  C35: mutual authentication of an honest exchange: for every server-first message the client
  accepts, a server that enrolled the same password with the salt and count of that message
  accepts the client-final message, and the client accepts the server-final message it answers
  with.
\<close>

theorem scram_mutual_authentication:
  assumes "crypto_ok c" and "parse_server_first raw cn = Ok sf"
  shows "\<exists>final.
     server_check c (enrol c pw (sf_salt sf) (sf_iterations sf))
       (drop 3 (build_client_first user cn)) raw
       (cf_message (compute_client_final c user pw cn sf raw)) = Some final \<and>
     verify_server_final final
       (expected_server_signature (compute_client_final c user pw cn sf raw)) = Ok ()"
  using scram_exchange [OF assms] verify_own_signature by blast

text \<open>A concrete instance of the primitives, with outputs of the right length.\<close>

definition toy_crypto :: crypto where
  "toy_crypto =
     \<lparr>pbkdf2_hmac_sha256 = (\<lambda>p s i. take 32 (p @ s @ replicate 32 0)),
      hmac = (\<lambda>k m. take 32 (map2 (XOR) k m @ replicate 32 7)),
      sha256 = (\<lambda>x. take 32 (rev x @ replicate 32 1))\<rparr>"

lemma toy_crypto_ok: "crypto_ok toy_crypto"
  by (auto simp: crypto_ok_def toy_crypto_def SHA256_LEN_def min_def)

lemma sample_server_first:
  "parse_server_first (lit ''r=abXY,s=QUJD,i=4096'') (lit ''ab'') =
     Ok \<lparr>sf_nonce = lit ''abXY'', sf_salt = lit ''ABC'', sf_iterations = 4096\<rparr>"
proof -
  have "split_char 44 (lit ''r=abXY,s=QUJD,i=4096'') =
      [lit ''r=abXY'', lit ''s=QUJD'', lit ''i=4096'']"
    by (simp add: lit_def)
  moreover have "base64_decode (lit ''QUJD'') = Ok (lit ''ABC'')" by code_simp
  moreover have "parse_uint 4294967295 (lit ''4096'') = Some 4096"
    by (simp add: parse_uint_def lit_def is_ascii_digit_def)
  ultimately show ?thesis
    by (simp add: parse_server_first_def lit_def starts_with_def MIN_PBKDF2_ITERATIONS_def
          MAX_PBKDF2_ITERATIONS_def)
qed

theorem scram_mutual_authentication_witness:
  "\<exists>final.
     server_check toy_crypto (enrol toy_crypto (lit ''pw'') (lit ''ABC'') 4096)
       (drop 3 (build_client_first (lit ''u'') (lit ''ab''))) (lit ''r=abXY,s=QUJD,i=4096'')
       (cf_message (compute_client_final toy_crypto (lit ''u'') (lit ''pw'') (lit ''ab'')
          \<lparr>sf_nonce = lit ''abXY'', sf_salt = lit ''ABC'', sf_iterations = 4096\<rparr>
          (lit ''r=abXY,s=QUJD,i=4096''))) = Some final"
  using scram_mutual_authentication [OF toy_crypto_ok sample_server_first] by fastforce

text \<open>
  The client takes a server-final message for genuine exactly if it has no error attribute and
  its first \<open>v\<close> attribute decodes to the very signature the client expects.
\<close>

theorem verify_server_final_exact:
  assumes "length expected = 32"
  shows "verify_server_final final expected = Ok () \<longleftrightarrow>
    list_all (\<lambda>a. \<not> starts_with a (lit ''e='')) (split_char 44 final) \<and>
    (\<exists>v. find_prefixed (lit ''v='') (split_char 44 final) = Some v \<and> base64_decode v = Ok expected)"
  by (rule verify_server_final_iff [OF assms])

theorem verify_server_final_exact_witness:
  "\<not> (verify_server_final (lit ''e=invalid-proof'') (replicate 32 0) = Ok ())"
proof -
  have "length (replicate 32 (0 :: byte)) = 32" by simp
  moreover have "\<not> list_all (\<lambda>a. \<not> starts_with a (lit ''e=''))
      (split_char 44 (lit ''e=invalid-proof''))" by code_simp
  ultimately show ?thesis using verify_server_final_exact by blast
qed

text \<open>
  What a server cannot make the client do: an accepted server-first message carries a nonce
  that begins with the client's own, an iteration count between 4096 and 600000, a salt that is
  valid base64, and no mandatory extension.  (The nonce need not be longer than the client's.)
\<close>

theorem parse_server_first_sound:
  assumes "parse_server_first raw cn = Ok sf"
  shows "starts_with (sf_nonce sf) cn \<and>
     key_value (lit ''r'') (sf_nonce sf) \<in> set (split_char 44 raw) \<and>
     4096 \<le> sf_iterations sf \<and> sf_iterations sf \<le> 600000 \<and>
     (\<exists>v. key_value (lit ''s'') v \<in> set (split_char 44 raw) \<and> base64_decode v = Ok (sf_salt sf)) \<and>
     {a \<in> set (split_char 44 raw). starts_with a (lit ''m='')} = {}"
proof -
  obtain s i where scan: "scan_first_attrs (None, None, None) (split_char 44 raw) =
      Ok (Some (sf_nonce sf), Some s, i)"
    and rest: "starts_with (sf_nonce sf) cn" "base64_decode s = Ok (sf_salt sf)"
      "4096 \<le> sf_iterations sf" "sf_iterations sf \<le> 600000"
    using assms by (rule parse_server_first_inv)
  from scan_first_attrs_sound [OF scan] rest show ?thesis by auto
qed

theorem parse_server_first_sound_witness:
  "starts_with (lit ''abXY'') (lit ''ab'') \<and>
   key_value (lit ''r'') (lit ''abXY'') \<in> set (split_char 44 (lit ''r=abXY,s=QUJD,i=4096''))"
  using parse_server_first_sound [OF sample_server_first] by simp

text \<open>
  A server reads from the client-first message the user name that was given, commas and equal
  signs included, and the nonce; no user name can add or change an attribute.
\<close>

theorem client_first_read:
  assumes "valid_utf8 user" and "generate_client_nonce entropy = Ok cn"
  shows "read_client_first (build_client_first user cn) = Some (user, cn)"
proof -
  have cn: "44 \<notin> set cn"
    using assms(2) b64_no_comma by (auto simp: generate_client_nonce_def split: option.splits)
  have parts: "44 \<notin> set (lit ''n='' @ escape_saslname user)" "44 \<notin> set (lit ''r='' @ cn)"
    using cn escape_no_comma [OF assms(1)] by (simp_all add: lit_def)
  have "build_client_first user cn =
      lit ''n'' @ 44 # [] @ 44 # (lit ''n='' @ escape_saslname user) @ 44 # (lit ''r='' @ cn)"
    by (simp add: build_client_first_def lit_def)
  moreover have "44 \<notin> set (lit ''n'')" by (simp add: lit_def)
  ultimately have "split_char 44 (build_client_first user cn) =
      [lit ''n'', [], lit ''n='' @ escape_saslname user, lit ''r='' @ cn]"
    using parts by (simp only: split_char_append split_char_id append_Nil split_char.simps if_True
          simp_thms)
  then show ?thesis
    by (simp add: read_client_first_def strip_prefix_def unescape_escape [OF assms(1)])
qed

theorem client_first_read_witness:
  "read_client_first (build_client_first (lit ''a,b=c'') (lit ''QUJD'')) =
     Some (lit ''a,b=c'', lit ''QUJD'')"
proof -
  have "valid_utf8 (lit ''a,b=c'')" by code_simp
  moreover have "generate_client_nonce (Some (lit ''ABC'')) = Ok (lit ''QUJD'')" by code_simp
  ultimately show ?thesis by (rule client_first_read)
qed

end
