(* ===== verification/Outcome.thy ===== *)
theory Outcome
  imports Rust_Num Utf8
begin

text \<open>
  The result of a successful send, from \<open>wasm-smtp/src/outcome.rs\<close>: \<open>SendOutcome\<close> and the
  extraction of a queue id from the text of the reply.
\<close>

text \<open>\<open>is_queue_id_char\<close>, on one encoded character.\<close>

definition is_queue_id_char :: "byte list \<Rightarrow> bool" where
  "is_queue_id_char c = (case c of [b] \<Rightarrow> is_ascii_alphanumeric b \<or> b = 45 | _ \<Rightarrow> False)"

text \<open>
  The loop of \<open>scan_after\<close>.  The code calls it with three fixed non-empty markers only; with an
  empty one the source would never advance, and that case is cut off here.
\<close>

function scan_from :: "str \<Rightarrow> str \<Rightarrow> nat \<Rightarrow> str option" where
  "scan_from s marker idx =
     (if marker = [] then None
      else case find_sub marker (drop idx s) of
        None \<Rightarrow> None
      | Some pos \<Rightarrow>
          let start = idx + pos + length marker;
              token = concat (takeWhile is_queue_id_char (chars (drop start s)))
          in if 6 \<le> length token then Some token
             else if length s \<le> start then None
             else scan_from s marker start)"
  by pat_completeness auto
termination
  by (relation "measure (\<lambda>(s, marker, idx). length s - idx)") (auto simp: neq_Nil_conv)

declare scan_from.simps [simp del]

definition scan_after :: "str \<Rightarrow> str \<Rightarrow> str option" where
  "scan_after s marker = scan_from s marker 0"

definition extract_queue_id :: "str \<Rightarrow> str option" where
  "extract_queue_id reply_text =
     (case scan_after reply_text (lit ''queued as '') of
        Some i \<Rightarrow> Some i
      | None \<Rightarrow>
          (case scan_after reply_text (lit '' id='') of
             Some i \<Rightarrow> Some i
           | None \<Rightarrow>
               (case scan_after reply_text (lit '' id '') of
                  Some i \<Rightarrow> Some i
                | None \<Rightarrow> None)))"

record send_outcome =
  so_code :: u16
  so_server_message :: str
  so_queue_id :: "str option"

definition send_outcome_new :: "u16 \<Rightarrow> str \<Rightarrow> send_outcome" where
  "send_outcome_new code server_message =
     \<lparr>so_code = code, so_server_message = server_message,
      so_queue_id = extract_queue_id server_message\<rparr>"

definition show_send_outcome :: "send_outcome \<Rightarrow> str" where
  "show_send_outcome o' =
     (case so_queue_id o' of
        Some qid \<Rightarrow> show_word (so_code o') @ lit '' (queue id '' @ qid @ lit '')''
      | None \<Rightarrow> show_word (so_code o') @ lit '': '' @ so_server_message o')"

subsection \<open>Facts\<close>

definition queue_id_byte :: "byte \<Rightarrow> bool" where
  "queue_id_byte b = (is_ascii_alphanumeric b \<or> b = 45)"

lemma queue_id_char_bytes: "is_queue_id_char c \<Longrightarrow> b \<in> set c \<Longrightarrow> queue_id_byte b"
  by (auto simp: is_queue_id_char_def queue_id_byte_def split: list.splits)

lemma token_bytes: "list_all queue_id_byte (concat (takeWhile is_queue_id_char cs))"
  using queue_id_char_bytes by (auto simp: list_all_iff dest: set_takeWhileD)

lemma queue_id_byte_char: "queue_id_byte b \<Longrightarrow> is_queue_id_char [b] \<and> b < 128"
  by (auto simp: queue_id_byte_def is_queue_id_char_def is_ascii_alphanumeric_def
        is_ascii_digit_def word_le_nat_alt word_less_nat_alt)

text \<open>The token is the maximal run of queue-id bytes at the front.\<close>

lemma token_split:
  "\<exists>r. s = concat (takeWhile is_queue_id_char (chars s)) @ r \<and>
       \<not> (case r of [] \<Rightarrow> False | b # _ \<Rightarrow> queue_id_byte b)"
proof (induction s rule: chars.induct)
  case (1 s)
  show ?case
  proof (cases s)
    case Nil
    then show ?thesis by (simp add: chars.simps)
  next
    case (Cons b bs)
    obtain ok n where st: "utf8_step s = (ok, n)" by fastforce
    have ch: "chars s = take n s # chars (drop n s)"
      using Cons st by (subst chars.simps) simp
    show ?thesis
    proof (cases "is_queue_id_char (take n s)")
      case True
      have "\<exists>r. drop n s = concat (takeWhile is_queue_id_char (chars (drop n s))) @ r \<and>
          \<not> (case r of [] \<Rightarrow> False | b # _ \<Rightarrow> queue_id_byte b)"
        using 1 [of "(ok, n)" ok n] Cons st by simp
      then obtain r where
        "drop n s = concat (takeWhile is_queue_id_char (chars (drop n s))) @ r"
        and "\<not> (case r of [] \<Rightarrow> False | b # _ \<Rightarrow> queue_id_byte b)" by blast
      then show ?thesis using True by (metis ch append_assoc append_take_drop_id concat.simps(2)
            takeWhile.simps(2))
    next
      case False
      have "\<not> queue_id_byte b"
      proof
        assume "queue_id_byte b"
        then have "is_queue_id_char [b]" and "b < 128" using queue_id_byte_char by blast+
        moreover from this have "n = 1"
          using st Cons by (auto simp: utf8_step.simps utf8_width_def)
        ultimately show False using False Cons by simp
      qed
      then show ?thesis using False ch Cons by (intro exI [of _ s]) simp
    qed
  qed
qed

definition marked_id :: "str \<Rightarrow> str \<Rightarrow> str \<Rightarrow> bool" where
  "marked_id s marker i =
     (\<exists>a r. s = a @ marker @ i @ r \<and> 6 \<le> length i \<and> list_all queue_id_byte i \<and>
        \<not> (case r of [] \<Rightarrow> False | b # _ \<Rightarrow> queue_id_byte b))"

lemma scan_from_sound: "scan_from s marker idx = Some i \<Longrightarrow> marked_id s marker i"
proof (induction s marker idx rule: scan_from.induct)
  case (1 s marker idx)
  from 1(2) have ne: "marker \<noteq> []" by (auto simp: scan_from.simps split: if_splits)
  from 1(2) ne obtain pos where pos: "find_sub marker (drop idx s) = Some pos"
    by (subst (asm) scan_from.simps) (auto split: option.splits)
  define start where start: "start = idx + pos + length marker"
  define token where token: "token = concat (takeWhile is_queue_id_char (chars (drop start s)))"
  have step: "scan_from s marker idx = (if 6 \<le> length token then Some token
      else if length s \<le> start then None else scan_from s marker start)"
    using ne pos by (subst scan_from.simps) (simp add: start token Let_def)
  show ?case
  proof (cases "6 \<le> length token")
    case True
    then have i: "i = token" using step 1(2) by simp
    have "starts_with (drop pos (drop idx s)) marker" using find_sub_Some [OF pos] by simp
    then obtain t where t: "drop (idx + pos) s = marker @ t"
      by (auto simp: starts_with_iff add.commute)
    then have "drop start s = t"
      by (metis start add.commute append_eq_conv_conj drop_drop)
    moreover obtain r where "drop start s = token @ r"
      and r: "\<not> (case r of [] \<Rightarrow> False | b # _ \<Rightarrow> queue_id_byte b)"
      using token_split [of "drop start s"] by (auto simp: token)
    ultimately have "s = take (idx + pos) s @ marker @ token @ r"
      using t by (metis append_take_drop_id)
    then show ?thesis
      unfolding marked_id_def i using True r token_bytes [of "chars (drop start s)"] token by blast
  next
    case False
    then have "scan_from s marker start = Some i" "\<not> length s \<le> start"
      using step 1(2) by (auto split: if_splits)
    then show ?thesis
      using 1(1) [OF ne pos start token False] by blast
  qed
qed

subsection \<open>Properties\<close>

text \<open>
  A queue id is never made up: if a \<open>SendOutcome\<close> has one, the server's text contains, right
  after one of the three markers, that id as a maximal run of at least six letters, digits and
  hyphens.
\<close>

theorem queue_id_sound:
  assumes "so_queue_id (send_outcome_new code msg) = Some i"
  shows "\<exists>marker \<in> {lit ''queued as '', lit '' id='', lit '' id ''}. marked_id msg marker i"
  using assms scan_from_sound
  by (auto simp: send_outcome_new_def extract_queue_id_def scan_after_def split: option.splits)

theorem queue_id_sound_witness:
  "\<exists>marker \<in> {lit ''queued as '', lit '' id='', lit '' id ''}.
     marked_id (lit ''2.0.0 Ok: queued as 4XyZ12'') marker (lit ''4XyZ12'')"
proof (rule queue_id_sound)
  show "so_queue_id (send_outcome_new 250 (lit ''2.0.0 Ok: queued as 4XyZ12'')) =
      Some (lit ''4XyZ12'')"
  proof -
    let ?s = "lit ''2.0.0 Ok: queued as 4XyZ12''"
    have "find_sub (lit ''queued as '') (drop 0 ?s) = Some 10" by code_simp
    moreover have "concat (takeWhile is_queue_id_char (chars (drop 20 ?s))) = lit ''4XyZ12''"
      by code_simp
    ultimately have "scan_from ?s (lit ''queued as '') 0 = Some (lit ''4XyZ12'')"
      by (subst scan_from.simps) (simp add: lit_def)
    then show ?thesis by (simp add: send_outcome_new_def extract_queue_id_def scan_after_def)
  qed
qed

end
