(* ===== verification/Hooks.thy ===== *)
theory Hooks
  imports Errors
begin

text \<open>
  The caller's hooks: the send policy of \<open>wasm-smtp/src/policy.rs\<close> and the audit events and sinks
  of \<open>wasm-smtp/src/audit.rs\<close>.  A policy is the record of the answers it gives; its methods take
  \<open>&self\<close> and are called once each per send.  A sink is seen through what it has been told so far.
\<close>

subsection \<open>Policies\<close>

record send_policy =
  check_sender :: "str \<Rightarrow> policy_error + unit"
  check_recipients :: "str list \<Rightarrow> policy_error + unit"
  check_message_size :: "nat \<Rightarrow> policy_error + unit"

definition default_policy :: send_policy where
  "default_policy =
     \<lparr>check_sender = (\<lambda>_. Ok ()), check_recipients = (\<lambda>_. Ok ()), check_message_size = (\<lambda>_. Ok ())\<rparr>"

record bounded_policy =
  bp_max_recipients :: "nat option"
  bp_max_message_bytes :: "nat option"

definition bounded_policy_new :: bounded_policy where
  "bounded_policy_new = \<lparr>bp_max_recipients = None, bp_max_message_bytes = None\<rparr>"

definition max_recipients :: "nat \<Rightarrow> bounded_policy \<Rightarrow> bounded_policy" where
  "max_recipients n p = p\<lparr>bp_max_recipients := Some n\<rparr>"

definition max_message_bytes :: "nat \<Rightarrow> bounded_policy \<Rightarrow> bounded_policy" where
  "max_message_bytes n p = p\<lparr>bp_max_message_bytes := Some n\<rparr>"

definition bounded_check_recipients :: "bounded_policy \<Rightarrow> str list \<Rightarrow> policy_error + unit" where
  "bounded_check_recipients p recipients =
     (case bp_max_recipients p of
        Some m \<Rightarrow>
          if m < length recipients then
            Err (PolicyError (lit ''too many recipients: '' @ show_nat (length recipients)
                   @ lit '' exceeds limit of '' @ show_nat m))
          else Ok ()
      | None \<Rightarrow> Ok ())"

definition bounded_check_message_size :: "bounded_policy \<Rightarrow> nat \<Rightarrow> policy_error + unit" where
  "bounded_check_message_size p bytes =
     (case bp_max_message_bytes p of
        Some m \<Rightarrow>
          if m < bytes then
            Err (PolicyError (lit ''message too large: '' @ show_nat bytes
                   @ lit '' bytes exceeds limit of '' @ show_nat m @ lit '' bytes''))
          else Ok ()
      | None \<Rightarrow> Ok ())"

definition bounded_send_policy :: "bounded_policy \<Rightarrow> send_policy" where
  "bounded_send_policy p =
     \<lparr>check_sender = (\<lambda>_. Ok ()), check_recipients = bounded_check_recipients p,
      check_message_size = bounded_check_message_size p\<rparr>"

subsection \<open>Audit events\<close>

datatype audit_event =
    Connected
  | GreetingReceived u16
  | EhloCompleted
  | TlsUpgraded
  | AuthCompleted str
  | MailFromAccepted u16
  | RecipientAccepted u16
  | RecipientRejected u16
  | MessageAccepted u16
  | QuitCompleted
  | SessionAborted

text \<open>The derived \<open>Debug\<close> label; mechanism names need no escape.\<close>

definition debug_code :: "string \<Rightarrow> u16 \<Rightarrow> str" where
  "debug_code name code = lit name @ lit '' { code: '' @ show_word code @ lit '' }''"

primrec debug_event :: "audit_event \<Rightarrow> str" where
  "debug_event Connected = lit ''Connected''"
| "debug_event (GreetingReceived code) = debug_code ''GreetingReceived'' code"
| "debug_event EhloCompleted = lit ''EhloCompleted''"
| "debug_event TlsUpgraded = lit ''TlsUpgraded''"
| "debug_event (AuthCompleted m) =
     lit ''AuthCompleted { mechanism: '' @ [34] @ m @ [34] @ lit '' }''"
| "debug_event (MailFromAccepted code) = debug_code ''MailFromAccepted'' code"
| "debug_event (RecipientAccepted code) = debug_code ''RecipientAccepted'' code"
| "debug_event (RecipientRejected code) = debug_code ''RecipientRejected'' code"
| "debug_event (MessageAccepted code) = debug_code ''MessageAccepted'' code"
| "debug_event QuitCompleted = lit ''QuitCompleted''"
| "debug_event SessionAborted = lit ''SessionAborted''"

text \<open>\<open>VecAuditSink\<close>: the labels collected so far.\<close>

definition vec_sink_on_event :: "str list \<Rightarrow> audit_event \<Rightarrow> str list" where
  "vec_sink_on_event events e = events @ [debug_event e]"

lemma vec_sink_log: "foldl vec_sink_on_event acc log = acc @ map debug_event log"
  by (induction log arbitrary: acc) (simp_all add: vec_sink_on_event_def)

subsection \<open>Properties\<close>

definition within :: "nat option \<Rightarrow> nat \<Rightarrow> bool" where
  "within limit n = (case limit of None \<Rightarrow> True | Some m \<Rightarrow> n \<le> m)"

text \<open>
  \<open>BoundedPolicy\<close> lets a send through exactly if each limit that is set is respected, the limits
  included, whoever the sender is; as built by \<open>new\<close> it is the default policy.
\<close>

theorem bounded_policy_exact:
  "(check_recipients (bounded_send_policy p) rs = Ok () \<longleftrightarrow>
      within (bp_max_recipients p) (length rs)) \<and>
   (check_message_size (bounded_send_policy p) k = Ok () \<longleftrightarrow> within (bp_max_message_bytes p) k) \<and>
   check_sender (bounded_send_policy p) s = Ok () \<and>
   bounded_send_policy bounded_policy_new = default_policy"
  by (auto simp: bounded_send_policy_def bounded_check_recipients_def within_def
        bounded_check_message_size_def bounded_policy_new_def default_policy_def fun_eq_iff
        split: option.splits)

end
