(* ===== verification/Message_Body.thy ===== *)
theory Message_Body
  imports Errors
begin

text \<open>
  Streaming bodies, from \<open>wasm-smtp/src/message_body.rs\<close>.  \<open>read_chunk\<close> is given the size of the
  buffer and returns the bytes it put into it; the contract of the trait is the locale
  \<open>streaming_body\<close>, with the bytes still to come as its abstraction.
\<close>

locale streaming_body =
  fixes read_chunk :: "'b \<Rightarrow> nat \<Rightarrow> (io_error + byte list) \<times> 'b"
    and content :: "'b \<Rightarrow> byte list"
  assumes read_total: "\<exists>bs b'. read_chunk b n = (Ok bs, b')"
    and read_fits: "read_chunk b n = (Ok bs, b') \<Longrightarrow> length bs \<le> n"
    and read_content: "read_chunk b n = (Ok bs, b') \<Longrightarrow> content b = bs @ content b'"
    and read_eof: "read_chunk b n = (Ok [], b') \<Longrightarrow> 0 < n \<Longrightarrow> content b = []"
begin

lemma read_progress:
  "read_chunk b n = (Ok bs, b') \<Longrightarrow> bs \<noteq> [] \<Longrightarrow> length (content b') < length (content b)"
  using read_content [of b n bs b'] by simp

lemma read_eof_iff:
  "read_chunk b n = (Ok bs, b') \<Longrightarrow> 0 < n \<Longrightarrow> bs = [] \<longleftrightarrow> content b = []"
  using read_content [of b n bs b'] read_eof [of b n b'] by auto

end

record slice_body =
  sb_data :: "byte list"
  sb_pos :: nat

definition slice_body_new :: "byte list \<Rightarrow> slice_body" where
  "slice_body_new data = \<lparr>sb_data = data, sb_pos = 0\<rparr>"

definition slice_read_chunk :: "slice_body \<Rightarrow> nat \<Rightarrow> (io_error + byte list) \<times> slice_body" where
  "slice_read_chunk s buf_len =
     (if length (sb_data s) \<le> sb_pos s then (Ok [], s)
      else let n = min buf_len (length (sb_data s) - sb_pos s)
           in (Ok (slice (sb_data s) (sb_pos s) (sb_pos s + n)), s\<lparr>sb_pos := sb_pos s + n\<rparr>))"

definition slice_rest :: "slice_body \<Rightarrow> byte list" where
  "slice_rest s = drop (sb_pos s) (sb_data s)"

datatype str_body = StrBody slice_body

definition str_body_new :: "str \<Rightarrow> str_body" where
  "str_body_new s = StrBody (slice_body_new s)"

primrec str_read_chunk :: "str_body \<Rightarrow> nat \<Rightarrow> (io_error + byte list) \<times> str_body" where
  "str_read_chunk (StrBody b) buf_len =
     (let (r, b') = slice_read_chunk b buf_len in (r, StrBody b'))"

primrec str_rest :: "str_body \<Rightarrow> byte list" where
  "str_rest (StrBody b) = slice_rest b"

lemma slice_read_chunk_split:
  "slice_read_chunk s n = (r, s') \<Longrightarrow>
     \<exists>bs. r = Ok bs \<and> length bs \<le> n \<and> slice_rest s = bs @ slice_rest s' \<and>
          (bs = [] \<longleftrightarrow> slice_rest s = [] \<or> n = 0)"
proof -
  assume read: "slice_read_chunk s n = (r, s')"
  show ?thesis
  proof (cases "length (sb_data s) \<le> sb_pos s")
    case True
    with read show ?thesis by (auto simp: slice_read_chunk_def slice_rest_def)
  next
    case False
    define k where k: "k = min n (length (sb_data s) - sb_pos s)"
    have "slice_rest s' = drop k (slice_rest s)"
      using read False by (auto simp: slice_read_chunk_def slice_rest_def k Let_def add.commute)
    moreover have "slice (sb_data s) (sb_pos s) (sb_pos s + k) = take k (slice_rest s)"
      by (simp add: slice_def slice_rest_def)
    ultimately have "slice_rest s = slice (sb_data s) (sb_pos s) (sb_pos s + k) @ slice_rest s'"
      by (simp only: append_take_drop_id)
    moreover have "length (slice (sb_data s) (sb_pos s) (sb_pos s + k)) = k"
      by (simp add: slice_def k)
    moreover have "r = Ok (slice (sb_data s) (sb_pos s) (sb_pos s + k))"
      using read False by (auto simp: slice_read_chunk_def k Let_def)
    moreover have "k \<le> n" "k = 0 \<longleftrightarrow> n = 0" using False by (auto simp: k min_def)
    ultimately show ?thesis using False by (auto simp: slice_rest_def)
  qed
qed

interpretation slice_source: streaming_body slice_read_chunk slice_rest
proof
  show "\<exists>bs b'. slice_read_chunk b n = (Ok bs, b')" for b n
    using slice_read_chunk_split [of b n] by (cases "slice_read_chunk b n") auto
next
  fix b n bs b' assume "slice_read_chunk b n = (Ok bs, b')"
  from slice_read_chunk_split [OF this]
  show "length bs \<le> n" and "slice_rest b = bs @ slice_rest b'" by auto
next
  fix b n b' assume "slice_read_chunk b n = (Ok [], b')" and "0 < n"
  with slice_read_chunk_split [of b n "Ok []" b'] show "slice_rest b = []" by auto
qed

lemma str_read_chunk_split:
  "str_read_chunk b n = (r, b') \<longleftrightarrow>
     (\<exists>s s'. b = StrBody s \<and> b' = StrBody s' \<and> slice_read_chunk s n = (r, s'))"
  by (cases b) (auto simp: Let_def split: prod.splits)

interpretation str_source: streaming_body str_read_chunk str_rest
proof
  show "\<exists>bs b'. str_read_chunk b n = (Ok bs, b')" for b n
  proof -
    obtain s where b: "b = StrBody s" by (cases b)
    from slice_source.read_total [of s n] show ?thesis by (auto simp: b)
  qed
qed (auto simp: str_read_chunk_split intro: slice_source.read_fits
       dest: slice_source.read_content slice_source.read_eof)

lemma slice_rest_new [simp]: "slice_rest (slice_body_new data) = data"
  by (simp add: slice_rest_def slice_body_new_def)

lemma str_rest_new [simp]: "str_rest (str_body_new s) = s"
  by (simp add: str_body_new_def)

end
