(* ===== verification/Transport.thy ===== *)
theory Transport
  imports Errors
begin

text \<open>
  The transport a client owns: the trait of \<open>wasm-smtp/src/transport.rs\<close> as a record of
  operations on an abstract connection \<open>'t\<close>, the contracts the client relies on as locales, and
  \<open>MockTransport\<close> of \<open>wasm-smtp-test\<close> as their provider.

  \<open>t_read ops t n\<close> is \<open>read\<close> with a buffer of \<open>n\<close> bytes: it returns the bytes it filled in, so an
  empty list is \<open>Ok(0)\<close>.  Every operation returns the connection, on success and on failure.
\<close>

record 't transport_ops =
  t_read :: "'t \<Rightarrow> nat \<Rightarrow> (io_error + byte list) \<times> 't"
  t_write_all :: "'t \<Rightarrow> byte list \<Rightarrow> (io_error + unit) \<times> 't"
  t_flush :: "'t \<Rightarrow> (io_error + unit) \<times> 't"
  t_close :: "'t \<Rightarrow> (io_error + unit) \<times> 't"
  t_upgrade_to_tls :: "'t \<Rightarrow> (io_error + unit) \<times> 't"

text \<open>\<open>Transport::flush\<close> has a default body, for transports that do not buffer.\<close>

definition default_flush :: "'t \<Rightarrow> (io_error + unit) \<times> 't" where
  "default_flush t = (Ok (), t)"

subsection \<open>Contracts\<close>

text \<open>The signature of \<open>read\<close>: no more bytes than the buffer has room for.\<close>

locale transport_contract =
  fixes ops :: "'t transport_ops"
  assumes read_fits: "t_read ops t n = (Ok bs, t') \<Longrightarrow> length bs \<le> n"

text \<open>
  A connection whose incoming bytes are determined: they arrive in order, in pieces of any size,
  and end of file is reported only when all have arrived.
\<close>

locale scripted_transport =
  fixes ops :: "'t transport_ops"
    and incoming :: "'t \<Rightarrow> byte list"
    and ready :: "'t \<Rightarrow> bool"
  assumes read_ready: "ready t \<Longrightarrow> 0 < n \<Longrightarrow>
      \<exists>bs t'. t_read ops t n = (Ok bs, t') \<and> ready t' \<and> incoming t = bs @ incoming t' \<and>
        (bs = [] \<longleftrightarrow> incoming t = [])"

text \<open>A connection on which one can look up what has been written to it.\<close>

locale recording_transport =
  fixes ops :: "'t transport_ops"
    and written :: "'t \<Rightarrow> byte list"
  assumes write_written: "t_write_all ops t bs = (Ok (), t') \<Longrightarrow> written t' = written t @ bs"
    and read_written: "t_read ops t n = (r, t') \<Longrightarrow> written t' = written t"
    and flush_written: "t_flush ops t = (u, t') \<Longrightarrow> written t' = written t"

subsection \<open>The mock\<close>

datatype upgrade_behavior = Succeed | Fail str

record mock =
  m_incoming :: "byte list list"
  m_pending_post :: "byte list list"
  m_written :: "byte list"
  m_closed :: bool
  m_upgrades :: u32
  m_upgrade_behavior :: upgrade_behavior

definition mock_build :: "byte list list \<Rightarrow> byte list list \<Rightarrow> upgrade_behavior \<Rightarrow> mock" where
  "mock_build pre post behavior =
     \<lparr>m_incoming = pre, m_pending_post = post, m_written = [], m_closed = False, m_upgrades = 0,
      m_upgrade_behavior = behavior\<rparr>"

definition mock_new :: "byte list list \<Rightarrow> mock" where
  "mock_new chunks = mock_build chunks [] Succeed"

definition mock_with_starttls ::
    "byte list list \<Rightarrow> byte list list \<Rightarrow> upgrade_behavior \<Rightarrow> mock" where
  "mock_with_starttls pre post behavior = mock_build pre post behavior"

definition mock_read :: "mock \<Rightarrow> nat \<Rightarrow> (io_error + byte list) \<times> mock" where
  "mock_read t buf_len =
     (case m_incoming t of
        [] \<Rightarrow> (Ok [], t)
      | chunk # rest \<Rightarrow>
          let n = min buf_len (length chunk); left = drop n chunk
          in (Ok (take n chunk), t\<lparr>m_incoming := (if left = [] then rest else left # rest)\<rparr>))"

definition mock_write_all :: "mock \<Rightarrow> byte list \<Rightarrow> (io_error + unit) \<times> mock" where
  "mock_write_all t buf = (Ok (), t\<lparr>m_written := m_written t @ buf\<rparr>)"

definition mock_close :: "mock \<Rightarrow> (io_error + unit) \<times> mock" where
  "mock_close t = (Ok (), t\<lparr>m_closed := True\<rparr>)"

definition mock_upgrade_to_tls :: "mock \<Rightarrow> (io_error + unit) \<times> mock" where
  "mock_upgrade_to_tls t =
     (let t = t\<lparr>m_upgrades := m_upgrades t + 1\<rparr>
      in case m_upgrade_behavior t of
           Succeed \<Rightarrow>
             (Ok (), t\<lparr>m_incoming := m_incoming t @ m_pending_post t, m_pending_post := []\<rparr>)
         | Fail msg \<Rightarrow> (Err (io_error_new msg), t))"

definition mock_ops :: "mock transport_ops" where
  "mock_ops =
     \<lparr>t_read = mock_read, t_write_all = mock_write_all, t_flush = default_flush,
      t_close = mock_close, t_upgrade_to_tls = mock_upgrade_to_tls\<rparr>"

text \<open>\<open>flatten\<close>: scripted replies that arrive as one chunk.\<close>

definition flatten :: "byte list list \<Rightarrow> byte list" where
  "flatten parts = concat parts"

definition mock_bytes :: "mock \<Rightarrow> byte list" where
  "mock_bytes t = concat (m_incoming t)"

text \<open>A script without empty chunks: an empty one would be reported as end of file.\<close>

definition mock_ready :: "mock \<Rightarrow> bool" where
  "mock_ready t = list_all (\<lambda>c. c \<noteq> []) (m_incoming t)"

lemma mock_ops_simps [simp]:
  "t_read mock_ops = mock_read" "t_write_all mock_ops = mock_write_all"
  "t_flush mock_ops = default_flush" "t_close mock_ops = mock_close"
  "t_upgrade_to_tls mock_ops = mock_upgrade_to_tls"
  by (simp_all add: mock_ops_def)

lemma mock_read_fits: "mock_read t n = (Ok bs, t') \<Longrightarrow> length bs \<le> n"
  by (auto simp: mock_read_def Let_def split: list.splits)

lemma mock_read_ready:
  assumes "mock_ready t" and "0 < n"
  shows "\<exists>bs t'. mock_read t n = (Ok bs, t') \<and> mock_ready t' \<and>
     mock_bytes t = bs @ mock_bytes t' \<and> (bs = [] \<longleftrightarrow> mock_bytes t = [])"
proof (cases "m_incoming t")
  case Nil
  then show ?thesis using assms by (simp add: mock_read_def mock_bytes_def)
next
  case (Cons c cs)
  then have "c \<noteq> []" using assms(1) by (simp add: mock_ready_def)
  then show ?thesis
    using assms Cons by (auto simp: mock_read_def mock_bytes_def mock_ready_def Let_def min_def)
qed

interpretation mock_contract: transport_contract mock_ops
  by unfold_locales (simp add: mock_read_fits)

interpretation mock_transport: scripted_transport mock_ops mock_bytes mock_ready
  by unfold_locales (simp add: mock_read_ready)

interpretation mock_recorder: recording_transport mock_ops m_written
  by unfold_locales
     (auto simp: mock_write_all_def mock_read_def default_flush_def Let_def split: list.splits)

end
