(* ===== verification/Client_IO.thy ===== *)
theory Client_IO
  imports Session Reply Mechanism Scram Hooks Transport
begin

text \<open>
  The client and its low-level input and output, from \<open>wasm-smtp/src/client/mod.rs\<close> and
  \<open>client/io.rs\<close>: state changes and the one place that poisons a session, the receive buffer,
  lines and replies, the greeting and EHLO.

  \<open>'t env\<close> holds what does not change during a session and is not part of the client: the
  operations of the transport, the cargo features, the crypto primitives, the random bytes the
  system would give, and \<open>usize::MAX\<close> of the target.
\<close>

definition READ_CHUNK :: nat where "READ_CHUNK = 1024"
definition RX_BUF_COMPACT_THRESHOLD :: nat where "RX_BUF_COMPACT_THRESHOLD = 4096"
definition RX_BUF_HARD_LIMIT :: nat where "RX_BUF_HARD_LIMIT = MAX_REPLY_LINE_LEN * 2"

record 't env =
  e_ops :: "'t transport_ops"
  e_features :: features
  e_crypto :: crypto
  e_entropy :: "byte list option"
  e_usize_max :: nat

record 't client =
  transport :: 't
  state :: session_state
  rx_buf :: "byte list"
  rx_pos :: nat
  capabilities :: "str list"
  ehlo_domain :: str
  enhanced_status_enabled :: bool
  policy :: send_policy
  audit :: "audit_event list"

text \<open>The client \<open>connect_with\<close> starts from; \<open>log\<close> is what the sink has been told before.\<close>

definition client_new :: "'t \<Rightarrow> str \<Rightarrow> send_policy \<Rightarrow> audit_event list \<Rightarrow> 't client" where
  "client_new t dm pol log =
     \<lparr>transport = t, state = Greeting, rx_buf = [], rx_pos = 0, capabilities = [],
      ehlo_domain = dm, enhanced_status_enabled = False, policy = pol, audit = log\<rparr>"

subsection \<open>State changes\<close>

definition on_event :: "audit_event \<Rightarrow> 't client \<Rightarrow> 't client" where
  "on_event e c = c\<lparr>audit := audit c @ [e]\<rparr>"

definition mark_closed :: "'t client \<Rightarrow> 't client" where
  "mark_closed c =
     (if state c \<noteq> Closed then on_event SessionAborted (c\<lparr>state := Closed\<rparr>) else c)"

definition invalid_input :: "string \<Rightarrow> smtp_error" where
  "invalid_input msg = InvalidInput (InvalidInputError (lit msg))"

definition assert_state_in :: "session_state list \<Rightarrow> 't client \<Rightarrow> (smtp_error + unit) \<times> 't client" where
  "assert_state_in allowed c =
     (if state c \<in> set allowed then (Ok (), c)
      else if state c = Closed then
        (Err (invalid_input ''operation not allowed: SMTP session is already closed''), c)
      else (Err (invalid_input ''operation not allowed in the current SMTP session state''), c))"

definition transition :: "session_state \<Rightarrow> 't client \<Rightarrow> (smtp_error + unit) \<times> 't client" where
  "transition n c =
     (if can_transition_to (state c) n then (Ok (), c\<lparr>state := n\<rparr>)
      else (Err (invalid_input ''internal session-state transition rejected''), c))"

text \<open>Notify the sink, and go on.\<close>

definition emit :: "audit_event \<Rightarrow> 't client \<Rightarrow> (smtp_error + unit) \<times> 't client" where
  "emit e c = (Ok (), on_event e c)"

text \<open>Poison the session and return an error.\<close>

definition abort_with :: "smtp_error \<Rightarrow> 't client \<Rightarrow> (smtp_error + 'a) \<times> 't client" where
  "abort_with e c = (Err e, mark_closed c)"

subsection \<open>Bytes\<close>

definition write_all :: "'t env \<Rightarrow> byte list \<Rightarrow> 't client \<Rightarrow> (smtp_error + unit) \<times> 't client" where
  "write_all env buf c =
     (case t_write_all (e_ops env) (transport c) buf of
        (Ok u, t) \<Rightarrow> (Ok (), c\<lparr>transport := t\<rparr>)
      | (Err e, t) \<Rightarrow> abort_with (Io e) (c\<lparr>transport := t\<rparr>))"

definition flush :: "'t env \<Rightarrow> 't client \<Rightarrow> (smtp_error + unit) \<times> 't client" where
  "flush env c =
     (case t_flush (e_ops env) (transport c) of
        (Ok u, t) \<Rightarrow> (Ok (), c\<lparr>transport := t\<rparr>)
      | (Err e, t) \<Rightarrow> abort_with (Io e) (c\<lparr>transport := t\<rparr>))"

fun find_crlf :: "byte list \<Rightarrow> nat option" where
  "find_crlf (a # b # bs) =
     (if a = CR \<and> b = LF then Some 0 else map_option Suc (find_crlf (b # bs)))"
| "find_crlf _ = None"

definition compact_rx :: "'t client \<Rightarrow> 't client" where
  "compact_rx c =
     (if RX_BUF_COMPACT_THRESHOLD \<le> rx_pos c
      then c\<lparr>rx_buf := drop (rx_pos c) (rx_buf c), rx_pos := 0\<rparr> else c)"

definition fill_buf :: "'t env \<Rightarrow> 't client \<Rightarrow> (smtp_error + nat) \<times> 't client" where
  "fill_buf env c =
     (case t_read (e_ops env) (transport c) READ_CHUNK of
        (Err e, t) \<Rightarrow> abort_with (Io e) (c\<lparr>transport := t\<rparr>)
      | (Ok tmp, t) \<Rightarrow> (Ok (length tmp), c\<lparr>transport := t, rx_buf := rx_buf c @ tmp\<rparr>))"

lemma fill_buf_grows:
  "fill_buf env c = (Ok n, c') \<Longrightarrow> rx_pos c' = rx_pos c \<and> length (rx_buf c') = length (rx_buf c) + n"
  by (auto simp: fill_buf_def abort_with_def split: prod.splits sum.splits)

function read_line :: "'t env \<Rightarrow> 't client \<Rightarrow> (smtp_error + byte list) \<times> 't client" where
  "read_line env c =
     (case find_crlf (drop (rx_pos c) (rx_buf c)) of
        Some pos \<Rightarrow>
          let abs_end = rx_pos c + pos;
              line = slice (rx_buf c) (rx_pos c) abs_end;
              c1 = compact_rx (c\<lparr>rx_pos := abs_end + 2\<rparr>)
          in if MAX_REPLY_LINE_LEN < length line then abort_with (Protocol LineTooLong) c1
             else (Ok line, c1)
      | None \<Rightarrow>
          if RX_BUF_HARD_LIMIT < length (rx_buf c) - rx_pos c then
            abort_with (Protocol LineTooLong) c
          else and_then (fill_buf env c) (\<lambda>n c1.
            if n = 0 then abort_with (Protocol UnexpectedClose) c1 else read_line env c1))"
  by pat_completeness auto
termination
proof (relation "measure (\<lambda>(env, c). Suc RX_BUF_HARD_LIMIT + rx_pos c - length (rx_buf c))")
  fix env :: "'t env" and c c1 :: "'t client" and n
  assume none: "find_crlf (drop (rx_pos c) (rx_buf c)) = None"
    and le: "\<not> RX_BUF_HARD_LIMIT < length (rx_buf c) - rx_pos c"
    and fill: "fill_buf env c = (Ok n, c1)" and n: "n \<noteq> 0"
  from fill_buf_grows [OF fill] le n
  show "((env, c1), (env, c)) \<in> measure (\<lambda>(env, c). Suc RX_BUF_HARD_LIMIT + rx_pos c - length (rx_buf c))"
    by simp
qed auto

declare read_line.simps [simp del]

subsection \<open>Replies\<close>

definition too_many_lines :: smtp_error where
  "too_many_lines =
     Protocol (Malformed (lit ''reply exceeded '' @ show_nat MAX_REPLY_LINES @ lit '' lines''))"

text \<open>What \<open>read_reply\<close> makes of the collected lines.\<close>

definition finish_reply :: "bool \<Rightarrow> u16 \<Rightarrow> str list \<Rightarrow> reply" where
  "finish_reply enhanced code lines =
     (let r = reply_new code lines
      in if enhanced then
           (case try_parse_enhanced r of Some status \<Rightarrow> attach_enhanced_status status r | None \<Rightarrow> r)
         else r)"

text \<open>The loop of \<open>read_reply\<close>, with its locals \<open>lines\<close> and \<open>code\<close>.\<close>

function read_reply_loop ::
    "'t env \<Rightarrow> str list \<Rightarrow> u16 option \<Rightarrow> 't client \<Rightarrow> (smtp_error + reply) \<times> 't client" where
  "read_reply_loop env lines code c =
     (if MAX_REPLY_LINES \<le> length lines then abort_with too_many_lines c
      else and_then (read_line env c) (\<lambda>line c.
        case parse_reply_line line of
          Err e \<Rightarrow> abort_with (Protocol e) c
        | Ok parsed \<Rightarrow>
            (case code of
               Some prev \<Rightarrow>
                 if prev \<noteq> rl_code parsed then
                   abort_with (Protocol (InconsistentMultiline prev (rl_code parsed))) c
                 else if rl_is_last parsed then
                   (Ok (finish_reply (enhanced_status_enabled c) prev
                          (lines @ [from_utf8_lossy (rl_text parsed)])), c)
                 else read_reply_loop env (lines @ [from_utf8_lossy (rl_text parsed)]) (Some prev) c
             | None \<Rightarrow>
                 if rl_is_last parsed then
                   (Ok (finish_reply (enhanced_status_enabled c) (rl_code parsed)
                          (lines @ [from_utf8_lossy (rl_text parsed)])), c)
                 else read_reply_loop env (lines @ [from_utf8_lossy (rl_text parsed)])
                        (Some (rl_code parsed)) c)))"
  by pat_completeness auto
termination
  by (relation "measure (\<lambda>(env, lines, code, c). MAX_REPLY_LINES - length lines)") auto

declare read_reply_loop.simps [simp del]

definition read_reply :: "'t env \<Rightarrow> 't client \<Rightarrow> (smtp_error + reply) \<times> 't client" where
  "read_reply env c = read_reply_loop env [] None c"

definition unexpected_code :: "smtp_op \<Rightarrow> byte \<Rightarrow> reply \<Rightarrow> smtp_error" where
  "unexpected_code during class r =
     Protocol (UnexpectedCode during class (r_code r) (r_enhanced r) (joined_text r))"

definition expect_code ::
    "'t env \<Rightarrow> u16 \<Rightarrow> smtp_op \<Rightarrow> 't client \<Rightarrow> (smtp_error + reply) \<times> 't client" where
  "expect_code env expected during c =
     and_then (read_reply env c) (\<lambda>r c.
       if r_code r = expected then (Ok r, c)
       else abort_with (unexpected_code during (ucast (expected div 100)) r) c)"

definition expect_class ::
    "'t env \<Rightarrow> byte \<Rightarrow> smtp_op \<Rightarrow> 't client \<Rightarrow> (smtp_error + reply) \<times> 't client" where
  "expect_class env expected_class during c =
     and_then (read_reply env c) (\<lambda>r c.
       if reply_class r = expected_class then (Ok r, c)
       else abort_with (unexpected_code during expected_class r) c)"

subsection \<open>Greeting and EHLO\<close>

definition read_greeting :: "'t env \<Rightarrow> 't client \<Rightarrow> (smtp_error + unit) \<times> 't client" where
  "read_greeting env c =
     and_then (read_reply env c) (\<lambda>r c.
       if reply_class r \<noteq> 2 then abort_with (unexpected_code OpGreeting 2 r) c
       else and_then (emit (GreetingReceived (r_code r)) c) (\<lambda>_ c. transition Ehlo c))"

definition store_capabilities :: "str list \<Rightarrow> 't client \<Rightarrow> 't client" where
  "store_capabilities lines c =
     c\<lparr>enhanced_status_enabled := ehlo_advertises_enhanced_status_codes lines,
       capabilities := lines\<rparr>"

definition send_ehlo :: "'t env \<Rightarrow> str \<Rightarrow> 't client \<Rightarrow> (smtp_error + unit) \<times> 't client" where
  "send_ehlo env domain c =
     and_then (write_all env (format_command_arg (lit ''EHLO'') domain) c) (\<lambda>_ c.
     and_then (read_reply env c) (\<lambda>r c.
       if reply_class r \<noteq> 2 then abort_with (unexpected_code OpEhlo 2 r) c
       else and_then (emit EhloCompleted (store_capabilities (drop 1 (r_lines r)) c)) (\<lambda>_ c.
         transition Authentication c)))"

subsection \<open>What a reply can be\<close>

text \<open>
  Whatever the server sends, a reply that is accepted has from one to 128 lines, each a string of at
  most three times 994 bytes: every byte of a line that is not UTF-8 becomes U+FFFD, of three bytes.
\<close>

definition received_text :: "str \<Rightarrow> bool" where
  "received_text l \<longleftrightarrow> valid_utf8 l \<and> length l \<le> 2982"

definition received :: "reply \<Rightarrow> bool" where
  "received r \<longleftrightarrow> r_lines r \<noteq> [] \<and> length (r_lines r) \<le> MAX_REPLY_LINES \<and>
     list_all received_text (r_lines r) \<and> r_code r < 1000"

lemma finish_reply_facts [simp]:
  "r_lines (finish_reply enh n ls) = ls" "r_code (finish_reply enh n ls) = n"
  by (simp_all add: finish_reply_def Let_def reply_new_def attach_enhanced_status_def
        split: option.splits)

lemma read_line_short: "read_line env c = (Ok line, d) \<Longrightarrow> length line \<le> MAX_REPLY_LINE_LEN"
proof (induction env c rule: read_line.induct)
  case (1 env c)
  show ?case
  proof (cases "find_crlf (drop (rx_pos c) (rx_buf c))")
    case (Some k)
    then show ?thesis
      using 1(2) by (subst (asm) read_line.simps) (auto simp: Let_def abort_with_def split: if_splits)
  next
    case None
    show ?thesis
    proof (cases "RX_BUF_HARD_LIMIT < length (rx_buf c) - rx_pos c")
      case True
      then show ?thesis using 1(2) None by (subst (asm) read_line.simps) (simp add: abort_with_def)
    next
      case False
      obtain n c1 where f: "fill_buf env c = (Ok n, c1)"
        "(if n = 0 then abort_with (Protocol UnexpectedClose) c1 else read_line env c1) = (Ok line, d)"
        using 1(2) None False by (subst (asm) read_line.simps) (auto simp: and_then_Ok_iff)
      then have "n \<noteq> 0" "read_line env c1 = (Ok line, d)" by (auto simp: abort_with_def split: if_splits)
      then show ?thesis using 1(1) [OF None False f(1)] by blast
    qed
  qed
qed

lemma parsed_line:
  assumes "parse_reply_line line = Ok p"
  shows "length (rl_text p) + 3 \<le> length line \<and> (rl_text p = [] \<or> length (rl_text p) + 4 = length line) \<and>
     rl_code p < 1000"
proof -
  have "spells_line line p" using parse_reply_line_sound [OF assms] .
  then show ?thesis using code_of_nat(2) by (auto simp: spells_line_def)
qed

lemma received_line:
  assumes "read_line env c = (Ok line, d)" and "parse_reply_line line = Ok p"
  shows "received_text (from_utf8_lossy (rl_text p)) \<and> rl_code p < 1000"
proof -
  have "length (rl_text p) \<le> 994"
    using read_line_short [OF assms(1)] parsed_line [OF assms(2)] by (auto simp: MAX_REPLY_LINE_LEN_def)
  then show ?thesis
    using parsed_line [OF assms(2)] length_from_utf8_lossy [of "rl_text p"]
    by (simp add: received_text_def valid_from_utf8_lossy)
qed

lemma read_reply_loop_received:
  "read_reply_loop env lines code c = (Ok r, d) \<Longrightarrow> list_all received_text lines \<Longrightarrow>
   (case code of Some n \<Rightarrow> n < 1000 | None \<Rightarrow> True) \<Longrightarrow> received r"
proof (induction env lines code c rule: read_reply_loop.induct)
  case (1 env lines code c)
  have few: "\<not> MAX_REPLY_LINES \<le> length lines"
    using 1(3) by (subst (asm) read_reply_loop.simps) (auto simp: abort_with_def split: if_splits)
  obtain line c1 where l: "read_line env c = (Ok line, c1)"
    using 1(3) few by (subst (asm) read_reply_loop.simps) (auto simp: and_then_Ok_iff)
  obtain p where p: "parse_reply_line line = Ok p"
    using 1(3) few l
    by (subst (asm) read_reply_loop.simps) (auto simp: abort_with_def split: sum.splits)
  note rt = received_line [OF l p]
  let ?lines = "lines @ [from_utf8_lossy (rl_text p)]"
  have fin: "received (finish_reply enh n ?lines)" if "n < 1000" for enh n
    using few rt 1(4) that by (simp add: received_def)
  show ?case
  proof (cases code)
    case None
    then show ?thesis
      using 1(3) few l p fin rt 1(1) [OF few l p] 1(2) [OF few l p] 1(4)
      by (subst (asm) read_reply_loop.simps) (auto split: if_splits)
  next
    case (Some n)
    then show ?thesis
      using 1(3) few l p fin rt 1(1) [OF few l p] 1(2) [OF few l p] 1(4,5)
      by (subst (asm) read_reply_loop.simps) (auto simp: abort_with_def split: if_splits)
  qed
qed

lemma read_reply_received: "read_reply env c = (Ok r, d) \<Longrightarrow> received r"
  unfolding read_reply_def by (erule read_reply_loop_received) simp_all

subsection \<open>How an operation can end\<close>

text \<open>
  \<open>fatal\<close> errors are those after which the connection is not in a known state.  The one
  authentication error that is not is the lack of random bytes, found before anything is sent.
\<close>

definition no_entropy :: auth_error where
  "no_entropy = auth_other ''CSPRNG unavailable''"

definition fatal :: "smtp_error \<Rightarrow> bool" where
  "fatal e = (case e of
     Io _ \<Rightarrow> True | Protocol _ \<Rightarrow> True | Auth a \<Rightarrow> a \<noteq> no_entropy
   | InvalidInput _ \<Rightarrow> False | Policy _ \<Rightarrow> False)"

lemma fatal_simps [simp]:
  "fatal (Io e1)" "fatal (Protocol e2)" "fatal (Auth a) \<longleftrightarrow> a \<noteq> no_entropy"
  "\<not> fatal (InvalidInput e4)" "\<not> fatal (Policy e5)" "\<not> fatal (invalid_input m)"
  by (simp_all add: fatal_def invalid_input_def)

text \<open>
  \<open>failed c e c'\<close>: from \<open>c\<close> the session ended in the fatal error \<open>e\<close>: it is closed, and the audit
  log goes on with events that are not aborts and one final abort.
\<close>

definition failed :: "'t client \<Rightarrow> smtp_error \<Rightarrow> 't client \<Rightarrow> bool" where
  "failed c e c' \<longleftrightarrow> fatal e \<and> state c' = Closed \<and>
     (\<exists>es. audit c' = audit c @ es @ [SessionAborted] \<and> SessionAborted \<notin> set es)"

text \<open>\<open>aborted c e c'\<close>: the same with nothing told to the sink but the abort.\<close>

definition aborted :: "'t client \<Rightarrow> smtp_error \<Rightarrow> 't client \<Rightarrow> bool" where
  "aborted c e c' \<longleftrightarrow> fatal e \<and> state c' = Closed \<and> audit c' = audit c @ [SessionAborted]"

lemma aborted_failed: "aborted c e d \<Longrightarrow> failed c e d"
  by (auto simp: aborted_def failed_def)

text \<open>\<open>quiet c c'\<close>: only the transport and the receive buffer may differ.\<close>

definition quiet :: "'t client \<Rightarrow> 't client \<Rightarrow> bool" where
  "quiet c c' \<longleftrightarrow> state c' = state c \<and> capabilities c' = capabilities c \<and>
     ehlo_domain c' = ehlo_domain c \<and> enhanced_status_enabled c' = enhanced_status_enabled c \<and>
     policy c' = policy c \<and> audit c' = audit c"

lemma quiet_refl [simp]: "quiet c c"
  by (simp add: quiet_def)

lemma quiet_trans: "quiet c d \<Longrightarrow> quiet d e \<Longrightarrow> quiet c e"
  by (simp add: quiet_def)

lemma quiet_transport [simp]: "quiet c (c\<lparr>transport := t\<rparr>)"
  and quiet_rx_buf [simp]: "quiet c (c\<lparr>transport := t, rx_buf := b\<rparr>)"
  and quiet_compact [simp]: "quiet c (compact_rx (c\<lparr>rx_pos := p\<rparr>))"
  by (simp_all add: quiet_def compact_rx_def)

lemma failed_mono:
  "failed d e c' \<Longrightarrow> audit d = audit c @ es \<Longrightarrow> SessionAborted \<notin> set es \<Longrightarrow> failed c e c'"
  by (auto simp: failed_def)

lemma failed_quiet: "failed d e c' \<Longrightarrow> quiet c d \<Longrightarrow> failed c e c'"
  using failed_mono [of d e c' c "[]"] by (simp add: quiet_def)

lemma aborted_quiet: "aborted d e c' \<Longrightarrow> quiet c d \<Longrightarrow> aborted c e c'"
  by (simp add: aborted_def quiet_def)

lemma aborted_abort: "state c \<noteq> Closed \<Longrightarrow> fatal e \<Longrightarrow> aborted c e (mark_closed c)"
  by (simp add: aborted_def mark_closed_def on_event_def)

lemmas failed_abort = aborted_abort [THEN aborted_failed]

lemma abort_aborts:
  "state c \<noteq> Closed \<Longrightarrow> fatal e \<Longrightarrow> holds (abort_with e c) Q (aborted c)"
  by (simp add: abort_with_def aborted_abort)

lemma abort_spec:
  "state c \<noteq> Closed \<Longrightarrow> fatal e \<Longrightarrow> holds (abort_with e c) Q (failed c)"
  by (simp add: abort_with_def failed_abort)

lemma holds_aborts: "holds p Q (aborted c) \<Longrightarrow> holds p Q (failed c)"
  by (erule holds_weaken) (auto intro: aborted_failed)

text \<open>Going on after a quiet step, and after one that emits events.\<close>

lemma holds_quiet:
  assumes "holds p (\<lambda>_. quiet c) (failed c)"
    and "\<And>a d. quiet c d \<Longrightarrow> holds (k a d) Q (failed d)"
  shows "holds (and_then p k) Q (failed c)"
  by (rule holds_and_then [OF assms(1)])
     (rule holds_weaken [OF assms(2)], auto intro: failed_quiet)

lemma holds_emit:
  assumes "e \<noteq> SessionAborted" and "holds (k () (on_event e c)) Q (failed (on_event e c))"
  shows "holds (and_then (emit e c) k) Q (failed c)"
proof -
  have "failed c x d" if "failed (on_event e c) x d" for x d
    by (rule failed_mono [OF that, of _ "[e]"]) (use assms(1) in \<open>auto simp: on_event_def\<close>)
  then show ?thesis using assms(2) by (auto simp: emit_def intro: holds_weaken)
qed

lemma holds_transition:
  assumes "can_transition_to (state c) n" and "holds (k () (c\<lparr>state := n\<rparr>)) Q (failed (c\<lparr>state := n\<rparr>))"
  shows "holds (and_then (transition n c) k) Q (failed c)"
proof -
  have "failed (c\<lparr>state := n\<rparr>) = failed c" by (simp add: failed_def fun_eq_iff)
  then show ?thesis using assms by (simp add: transition_def)
qed

subsection \<open>Bytes and replies, and how they end\<close>

lemma io_quiet_aborted:
  "state c \<noteq> Closed \<Longrightarrow> aborted c (Io e) (mark_closed (c\<lparr>transport := t\<rparr>))"
  using aborted_quiet [OF aborted_abort] by (metis fatal_simps(1) quiet_def quiet_transport)

lemma write_all_aborts:
  "state c \<noteq> Closed \<Longrightarrow> holds (write_all env b c) (\<lambda>_. quiet c) (aborted c)"
  by (auto simp: write_all_def abort_with_def io_quiet_aborted split: prod.splits sum.splits)

lemma flush_aborts:
  "state c \<noteq> Closed \<Longrightarrow> holds (flush env c) (\<lambda>_. quiet c) (aborted c)"
  by (auto simp: flush_def abort_with_def io_quiet_aborted split: prod.splits sum.splits)

lemma fill_buf_aborts:
  "state c \<noteq> Closed \<Longrightarrow> holds (fill_buf env c) (\<lambda>_. quiet c) (aborted c)"
  by (auto simp: fill_buf_def abort_with_def io_quiet_aborted split: prod.splits sum.splits)

lemma abort_quiet_aborts:
  "state c \<noteq> Closed \<Longrightarrow> quiet c d \<Longrightarrow> fatal e \<Longrightarrow> holds (abort_with e d) Q (aborted c)"
  by (auto simp: abort_with_def quiet_def intro: aborted_quiet [OF aborted_abort])

lemma aborts_and_then:
  assumes "holds p (\<lambda>_. quiet c) (aborted c)" and "state c \<noteq> Closed"
    and "\<And>a d. p = (Ok a, d) \<Longrightarrow> quiet c d \<Longrightarrow> state d \<noteq> Closed \<Longrightarrow>
      holds (k a d) (\<lambda>_. quiet d) (aborted d)"
  shows "holds (and_then p k) (\<lambda>_. quiet c) (aborted c)"
proof (cases p)
  case (Pair r d)
  show ?thesis
  proof (cases r)
    case (Inr a)
    then have q: "quiet c d" using assms(1) by (simp add: Pair)
    moreover have "state d \<noteq> Closed" using q assms(2) by (simp add: quiet_def)
    ultimately have "holds (k a d) (\<lambda>_. quiet d) (aborted d)" using assms(3) Inr Pair by blast
    then have "holds (k a d) (\<lambda>_. quiet c) (aborted c)"
      by (rule holds_weaken) (auto intro: quiet_trans [OF q] aborted_quiet q)
    then show ?thesis by (simp add: Pair Inr)
  qed (use assms(1) in \<open>simp add: Pair\<close>)
qed

lemma read_line_aborts:
  "state c \<noteq> Closed \<Longrightarrow> holds (read_line env c) (\<lambda>_. quiet c) (aborted c)"
proof (induction env c rule: read_line.induct)
  case (1 env c)
  show ?case
  proof (cases "find_crlf (drop (rx_pos c) (rx_buf c))")
    case (Some pos)
    with 1(2) show ?thesis
      by (subst read_line.simps) (simp add: Let_def abort_quiet_aborts)
  next
    case None
    have "holds (and_then (fill_buf env c) (\<lambda>n c1.
          if n = 0 then abort_with (Protocol UnexpectedClose) c1 else read_line env c1))
        (\<lambda>_. quiet c) (aborted c)" if "\<not> RX_BUF_HARD_LIMIT < length (rx_buf c) - rx_pos c"
      by (rule aborts_and_then [OF fill_buf_aborts [OF 1(2)] 1(2)])
         (use 1(1) [OF None that] in \<open>auto simp: abort_aborts\<close>)
    then show ?thesis using None 1(2) by (subst read_line.simps) (simp add: abort_aborts)
  qed
qed

lemmas write_all_spec = write_all_aborts [THEN holds_aborts]
  and flush_spec = flush_aborts [THEN holds_aborts]
  and read_line_spec = read_line_aborts [THEN holds_aborts]

lemma abort_quiet_spec:
  "state c \<noteq> Closed \<Longrightarrow> quiet c d \<Longrightarrow> fatal e \<Longrightarrow> holds (abort_with e d) Q (failed c)"
  by (rule holds_aborts [OF abort_quiet_aborts])

lemma holds_read_line:
  assumes "state c \<noteq> Closed" and "\<And>line d. quiet c d \<Longrightarrow> holds (k line d) Q (failed d)"
  shows "holds (and_then (read_line env c) k) Q (failed c)"
  by (rule holds_quiet [OF read_line_spec [OF assms(1)] assms(2)])

lemma read_reply_loop_aborts:
  "state c \<noteq> Closed \<Longrightarrow> holds (read_reply_loop env lines code c) (\<lambda>_. quiet c) (aborted c)"
proof (induction env lines code c rule: read_reply_loop.induct)
  case (1 env lines code c)
  show ?case
  proof (cases "MAX_REPLY_LINES \<le> length lines")
    case True
    then show ?thesis
      using 1(3) by (subst read_reply_loop.simps) (simp add: abort_aborts too_many_lines_def)
  next
    case False
    then show ?thesis
    proof (subst read_reply_loop.simps, simp only: if_False,
        intro aborts_and_then [OF read_line_aborts [OF 1(3)] 1(3)])
      fix line d assume line: "read_line env c = (Ok line, d)" and d: "quiet c d" "state d \<noteq> Closed"
      show "holds (case parse_reply_line line of
          Err e \<Rightarrow> abort_with (Protocol e) d
        | Ok parsed \<Rightarrow>
            (case code of
               Some prev \<Rightarrow>
                 if prev \<noteq> rl_code parsed then
                   abort_with (Protocol (InconsistentMultiline prev (rl_code parsed))) d
                 else if rl_is_last parsed then
                   (Ok (finish_reply (enhanced_status_enabled d) prev
                          (lines @ [from_utf8_lossy (rl_text parsed)])), d)
                 else read_reply_loop env (lines @ [from_utf8_lossy (rl_text parsed)]) (Some prev) d
             | None \<Rightarrow>
                 if rl_is_last parsed then
                   (Ok (finish_reply (enhanced_status_enabled d) (rl_code parsed)
                          (lines @ [from_utf8_lossy (rl_text parsed)])), d)
                 else read_reply_loop env (lines @ [from_utf8_lossy (rl_text parsed)])
                        (Some (rl_code parsed)) d)) (\<lambda>_. quiet d) (aborted d)"
      proof (cases "parse_reply_line line")
        case (Inr parsed)
        then show ?thesis
          using 1(1,2) [OF False line Inr] d by (auto simp: abort_aborts split: option.split)
      qed (simp add: abort_aborts d)
    qed
  qed
qed

lemma read_reply_aborts:
  "state c \<noteq> Closed \<Longrightarrow> holds (read_reply env c) (\<lambda>_. quiet c) (aborted c)"
  by (simp add: read_reply_def read_reply_loop_aborts)

lemmas read_reply_spec = read_reply_aborts [THEN holds_aborts]

lemma holds_read_reply:
  assumes "state c \<noteq> Closed" and "\<And>r d. quiet c d \<Longrightarrow> holds (k r d) Q (failed d)"
  shows "holds (and_then (read_reply env c) k) Q (failed c)"
  by (rule holds_quiet [OF read_reply_spec [OF assms(1)] assms(2)])

lemma holds_write_all:
  assumes "state c \<noteq> Closed" and "\<And>d. quiet c d \<Longrightarrow> holds (k () d) Q (failed d)"
  shows "holds (and_then (write_all env b c) k) Q (failed c)"
  by (rule holds_quiet [OF write_all_spec [OF assms(1)]]) (use assms(2) in simp)

lemma holds_flush:
  assumes "state c \<noteq> Closed" and "\<And>d. quiet c d \<Longrightarrow> holds (k () d) Q (failed d)"
  shows "holds (and_then (flush env c) k) Q (failed c)"
  by (rule holds_quiet [OF flush_spec [OF assms(1)]]) (use assms(2) in simp)

lemma fatal_unexpected [simp]: "fatal (unexpected_code during class r)"
  by (simp add: unexpected_code_def)

lemma expect_code_aborts:
  assumes "state c \<noteq> Closed"
  shows "holds (expect_code env n during c) (\<lambda>r d. quiet c d \<and> r_code r = n) (aborted c)"
  unfolding expect_code_def
  by (rule holds_and_then [OF read_reply_aborts [OF assms]], rule holds_if)
     (simp_all add: abort_quiet_aborts [OF assms])

lemmas expect_code_spec = expect_code_aborts [THEN holds_aborts]

lemma expect_class_spec:
  assumes "state c \<noteq> Closed"
  shows "holds (expect_class env k during c) (\<lambda>r d. quiet c d \<and> reply_class r = k) (failed c)"
  unfolding expect_class_def
proof (rule holds_read_reply [OF assms], rule holds_if)
  fix r d assume q: "quiet c d"
  then have "state d \<noteq> Closed" using assms by (simp add: quiet_def)
  then show "holds (abort_with (unexpected_code during k r) d)
      (\<lambda>r d. quiet c d \<and> reply_class r = k) (failed d)" by (simp add: abort_spec)
qed simp

lemma holds_expect_code:
  assumes "state c \<noteq> Closed" and "\<And>r d. quiet c d \<Longrightarrow> r_code r = n \<Longrightarrow> holds (k r d) Q (failed d)"
  shows "holds (and_then (expect_code env n during c) k) Q (failed c)"
  by (rule holds_and_then [OF expect_code_spec [OF assms(1)]])
     (rule holds_weaken [OF assms(2)], auto intro: failed_quiet)

lemma holds_expect_class:
  assumes "state c \<noteq> Closed"
    and "\<And>r d. quiet c d \<Longrightarrow> reply_class r = n \<Longrightarrow> holds (k r d) Q (failed d)"
  shows "holds (and_then (expect_class env n during c) k) Q (failed c)"
  by (rule holds_and_then [OF expect_class_spec [OF assms(1)]])
     (rule holds_weaken [OF assms(2)], auto intro: failed_quiet)

lemma read_greeting_spec:
  assumes "state c = Greeting"
  shows "holds (read_greeting env c)
     (\<lambda>_ d. state d = Ehlo \<and> (\<exists>code. audit d = audit c @ [GreetingReceived code])) (failed c)"
  unfolding read_greeting_def
proof (rule holds_read_reply)
  fix r d assume q: "quiet c d"
  then have st: "state d = Greeting" and log: "audit d = audit c"
    using assms by (simp_all add: quiet_def)
  show "holds (if reply_class r \<noteq> 2 then abort_with (unexpected_code OpGreeting 2 r) d
      else and_then (emit (GreetingReceived (r_code r)) d) (\<lambda>_. transition Ehlo))
     (\<lambda>_ d. state d = Ehlo \<and> (\<exists>code. audit d = audit c @ [GreetingReceived code])) (failed d)"
    using st log
    by (auto simp: emit_def on_event_def transition_def can_transition_to_def abort_spec)
qed (use assms in simp)

lemma send_ehlo_spec:
  assumes "state c = Ehlo"
  shows "holds (send_ehlo env dm c)
     (\<lambda>_ d. state d = Authentication \<and> audit d = audit c @ [EhloCompleted]) (failed c)"
  unfolding send_ehlo_def
proof (rule holds_write_all)
  fix d assume q: "quiet c d"
  show "holds (and_then (read_reply env d) (\<lambda>r c.
       if reply_class r \<noteq> 2 then abort_with (unexpected_code OpEhlo 2 r) c
       else and_then (emit EhloCompleted (store_capabilities (drop 1 (r_lines r)) c)) (\<lambda>_ c.
         transition Authentication c)))
     (\<lambda>_ d. state d = Authentication \<and> audit d = audit c @ [EhloCompleted]) (failed d)"
  proof (rule holds_read_reply)
    fix r e assume q': "quiet d e"
    then have st: "state e = Ehlo" and log: "audit e = audit c"
      using assms q by (simp_all add: quiet_def)
    then show "holds (if reply_class r \<noteq> 2 then abort_with (unexpected_code OpEhlo 2 r) e
       else and_then (emit EhloCompleted (store_capabilities (drop 1 (r_lines r)) e)) (\<lambda>_ c.
         transition Authentication c))
     (\<lambda>_ d. state d = Authentication \<and> audit d = audit c @ [EhloCompleted]) (failed e)"
      by (auto simp: emit_def on_event_def transition_def can_transition_to_def abort_spec
            store_capabilities_def)
  qed (use assms q in \<open>simp add: quiet_def\<close>)
qed (use assms in simp)

subsection \<open>What every operation respects\<close>

text \<open>
  The interface between the primitive steps and the operations built from them: a relation between
  the client before and after that is reflexive and transitive and holds across each primitive
  step holds across every operation of the client.  \<open>reading_relation\<close> asks it of the steps that
  send nothing and is enough for the operations that only receive; \<open>speaking_relation\<close> adds those
  that send, which all commands are made of, and \<open>client_relation\<close> the rest, for STARTTLS and QUIT.
\<close>

locale reading_relation =
  fixes env :: "'t env"
    and R :: "'t client \<Rightarrow> 't client \<Rightarrow> bool"
  assumes refl: "R c c"
    and trans: "R c d \<Longrightarrow> R d e \<Longrightarrow> R c e"
    and event: "R c (on_event ev c)"
    and moving: "can_transition_to (state c) n \<Longrightarrow> R c (c\<lparr>state := n\<rparr>)"
    and read_failing: "t_read (e_ops env) (transport c) READ_CHUNK = (Err err, t) \<Longrightarrow>
      R c (c\<lparr>transport := t\<rparr>)"
    and reading: "t_read (e_ops env) (transport c) READ_CHUNK = (Ok bs, t) \<Longrightarrow>
      length (rx_buf c) - rx_pos c \<le> RX_BUF_HARD_LIMIT \<Longrightarrow>
      R c (c\<lparr>transport := t, rx_buf := rx_buf c @ bs\<rparr>)"
    and consuming: "find_crlf (drop (rx_pos c) (rx_buf c)) = Some k \<Longrightarrow>
      R c (compact_rx (c\<lparr>rx_pos := rx_pos c + k + 2\<rparr>))"
begin

lemma R_then:
  "R c (snd p) \<Longrightarrow> (\<And>a d. p = (Ok a, d) \<Longrightarrow> R d (snd (k a d))) \<Longrightarrow> R c (snd (and_then p k))"
  by (cases p; cases "fst p") (auto intro: trans)

lemma R_if: "(b \<Longrightarrow> R c (snd p)) \<Longrightarrow> (\<not> b \<Longrightarrow> R c (snd q)) \<Longrightarrow> R c (snd (if b then p else q))"
  by simp

lemma R_done: "R c (snd (r, c))"
  by (simp add: refl)

lemma R_mark_closed: "R c (mark_closed c)"
  using trans [OF moving [of c Closed] event] by (simp add: mark_closed_def refl)

lemma R_abort: "R c (snd (abort_with e c))"
  by (simp add: abort_with_def R_mark_closed)

lemma R_abort_after: "R c d \<Longrightarrow> R c (snd (abort_with e d))"
  using R_abort trans by blast

lemma R_assert: "R c (snd (assert_state_in ss c))"
  by (simp add: assert_state_in_def refl)

lemma R_transition: "R c (snd (transition n c))"
  by (simp add: transition_def refl moving)

lemma R_emit: "R c (snd (emit e c))"
  by (simp add: emit_def event)

lemma R_check: "R c (snd (check r c))"
  by (simp add: refl)

lemma R_fill_buf:
  "length (rx_buf c) - rx_pos c \<le> RX_BUF_HARD_LIMIT \<Longrightarrow> R c (snd (fill_buf env c))"
  by (auto simp: fill_buf_def intro: reading read_failing R_abort_after
        split: prod.splits sum.splits)

lemma R_read_line: "R c (snd (read_line env c))"
proof -
  have "env' = env \<Longrightarrow> R c (snd (read_line env' c))" for env'
  proof (induction env' c rule: read_line.induct)
    case (1 env' c)
    show ?case
    proof (cases "find_crlf (drop (rx_pos c) (rx_buf c))")
      case (Some k)
      then have "R c (compact_rx (c\<lparr>rx_pos := rx_pos c + k + 2\<rparr>))" by (rule consuming)
      then show ?thesis
        using Some by (subst read_line.simps) (simp add: Let_def R_abort_after)
    next
      case None
      show ?thesis
      proof (cases "RX_BUF_HARD_LIMIT < length (rx_buf c) - rx_pos c")
        case True
        with None show ?thesis by (subst read_line.simps) (simp add: R_abort)
      next
        case False
        have "R c (snd (and_then (fill_buf env' c) (\<lambda>n c1.
            if n = 0 then abort_with (Protocol UnexpectedClose) c1 else read_line env' c1)))"
          by (rule R_then, use False 1(2) R_fill_buf in simp)
             (rule R_if, rule R_abort, use 1(1) [OF None False] 1(2) in blast)
        then show ?thesis using None False by (subst read_line.simps) simp
      qed
    qed
  qed
  then show ?thesis by blast
qed

lemma R_read_reply_loop: "R c (snd (read_reply_loop env lines code c))"
proof -
  have "env' = env \<Longrightarrow> R c (snd (read_reply_loop env' lines code c))" for env'
  proof (induction env' lines code c rule: read_reply_loop.induct)
    case (1 env' lines code c)
    show ?case
    proof (cases "MAX_REPLY_LINES \<le> length lines")
      case True
      then show ?thesis by (subst read_reply_loop.simps) (simp add: R_abort)
    next
      case False
      have rec: "R d (snd (case parse_reply_line line of
            Err e \<Rightarrow> abort_with (Protocol e) d
          | Ok parsed \<Rightarrow>
            (case code of
               Some prev \<Rightarrow>
                 if prev \<noteq> rl_code parsed then
                   abort_with (Protocol (InconsistentMultiline prev (rl_code parsed))) d
                 else if rl_is_last parsed then
                   (Ok (finish_reply (enhanced_status_enabled d) prev
                          (lines @ [from_utf8_lossy (rl_text parsed)])), d)
                 else read_reply_loop env' (lines @ [from_utf8_lossy (rl_text parsed)]) (Some prev) d
             | None \<Rightarrow>
                 if rl_is_last parsed then
                   (Ok (finish_reply (enhanced_status_enabled d) (rl_code parsed)
                          (lines @ [from_utf8_lossy (rl_text parsed)])), d)
                 else read_reply_loop env' (lines @ [from_utf8_lossy (rl_text parsed)])
                        (Some (rl_code parsed)) d)))"
        if p: "read_line env' c = (Ok line, d)" for line d
        using 1(1) [OF False p] 1(2) [OF False p] 1(3)
        by (cases "parse_reply_line line"; cases code) (simp_all add: R_abort refl)
      have "R c (snd (read_line env' c))" using R_read_line 1(3) by simp
      from R_then [OF this rec] show ?thesis
        using False by (subst read_reply_loop.simps) simp
    qed
  qed
  then show ?thesis by blast
qed

lemma R_read_reply: "R c (snd (read_reply env c))"
  by (simp add: read_reply_def R_read_reply_loop)

lemma R_expect_code: "R c (snd (expect_code env n during c))"
  unfolding expect_code_def by (intro R_then R_read_reply R_if R_done R_abort)

lemma R_expect_class: "R c (snd (expect_class env n during c))"
  unfolding expect_class_def by (intro R_then R_read_reply R_if R_done R_abort)

lemma R_read_greeting: "R c (snd (read_greeting env c))"
  unfolding read_greeting_def by (intro R_then R_read_reply R_if R_abort R_emit R_transition)

end

locale speaking_relation = reading_relation env R
  for env :: "'t env" and R :: "'t client \<Rightarrow> 't client \<Rightarrow> bool" +
  assumes writing: "t_write_all (e_ops env) (transport c) b = (r, t) \<Longrightarrow> R c (c\<lparr>transport := t\<rparr>)"
    and flushing: "t_flush (e_ops env) (transport c) = (r, t) \<Longrightarrow> R c (c\<lparr>transport := t\<rparr>)"
    and learning: "list_all received_text ls \<Longrightarrow> length ls \<le> MAX_REPLY_LINES \<Longrightarrow>
      R c (store_capabilities ls c)"
begin

lemma R_write_all: "R c (snd (write_all env b c))"
  by (auto simp: write_all_def intro: writing R_abort_after split: prod.splits sum.splits)

lemma R_flush: "R c (snd (flush env c))"
  by (auto simp: flush_def intro: flushing R_abort_after split: prod.splits sum.splits)

lemma R_send_ehlo: "R c (snd (send_ehlo env d c))"
proof -
  have "R c (snd (emit e (store_capabilities (drop 1 (r_lines r)) c)))" if "received r" for e r c
  proof -
    have "list_all received_text (drop 1 (r_lines r))" "length (drop 1 (r_lines r)) \<le> MAX_REPLY_LINES"
      using that by (auto simp: received_def list_all_iff dest: in_set_dropD)
    then show ?thesis using trans [OF learning event] by (simp add: emit_def)
  qed
  then show ?thesis
    unfolding send_ehlo_def
    by (intro R_then R_write_all R_read_reply R_if R_abort R_transition) (auto dest: read_reply_received)
qed

lemmas rel_intros =
  R_then R_if R_done R_abort R_assert R_transition R_emit R_check R_write_all R_flush R_read_reply
  R_expect_code R_expect_class R_read_greeting R_send_ehlo

end

locale client_relation = speaking_relation env R
  for env :: "'t env" and R :: "'t client \<Rightarrow> 't client \<Rightarrow> bool" +
  assumes releasing: "t_close (e_ops env) (transport c) = (r, t) \<Longrightarrow> R c (c\<lparr>transport := t\<rparr>)"
    and upgrading: "t_upgrade_to_tls (e_ops env) (transport c) = (r, t) \<Longrightarrow> R c (c\<lparr>transport := t\<rparr>)"
    and forgetting: "R c (c\<lparr>capabilities := []\<rparr>)"

end
