(* ===== verification/Client_Stream.thy ===== *)
theory Client_Stream
  imports Client_IO
begin

text \<open>
  What the client's buffering means.  First the relations that every operation of the client
  respects (\<open>client_relation\<close>): its configuration is fixed, the audit log only grows, the state
  moves along the session table, and the receive buffer stays bounded.  Then the reference
  semantics of lines and replies on the stream of bytes the server sends: the client's result
  does not depend on how the transport cuts that stream into reads.
\<close>

subsection \<open>Relations every operation respects\<close>

definition same_setup :: "'t client \<Rightarrow> 't client \<Rightarrow> bool" where
  "same_setup c d \<longleftrightarrow> policy d = policy c \<and> ehlo_domain d = ehlo_domain c"

definition log_grows :: "'t client \<Rightarrow> 't client \<Rightarrow> bool" where
  "log_grows c d \<longleftrightarrow> prefix (audit c) (audit d)"

definition state_moves :: "'t client \<Rightarrow> 't client \<Rightarrow> bool" where
  "state_moves c d \<longleftrightarrow> (state c, state d) \<in> {(s, n). can_transition_to s n}\<^sup>*"

interpretation frame: client_relation env same_setup for env
  by unfold_locales (simp_all add: same_setup_def on_event_def compact_rx_def store_capabilities_def)

interpretation logged: client_relation env log_grows for env
  by unfold_locales (auto simp: log_grows_def on_event_def compact_rx_def store_capabilities_def)

interpretation path: client_relation env state_moves for env
  by unfold_locales
     (auto simp: state_moves_def on_event_def compact_rx_def store_capabilities_def)

text \<open>
  The receive buffer: what has been consumed is dropped in time, and what has not is at most one
  read beyond the limit at which a line is given up.
\<close>

definition rx_ok :: "'t client \<Rightarrow> bool" where
  "rx_ok c \<longleftrightarrow> rx_pos c \<le> length (rx_buf c) \<and> rx_pos c < RX_BUF_COMPACT_THRESHOLD \<and>
     length (rx_buf c) - rx_pos c \<le> RX_BUF_HARD_LIMIT + READ_CHUNK"

definition rx_keeps :: "'t client \<Rightarrow> 't client \<Rightarrow> bool" where
  "rx_keeps c d \<longleftrightarrow> (rx_ok c \<longrightarrow> rx_ok d)"

locale client_env = transport_contract "e_ops env" for env :: "'t env"

lemma find_crlf_Some:
  "find_crlf s = Some k \<Longrightarrow> k + 2 \<le> length s \<and> drop k s = CRLF @ drop (k + 2) s"
  by (induction s arbitrary: k rule: find_crlf.induct) (auto split: if_splits)

sublocale client_env \<subseteq> buffer: client_relation env rx_keeps
proof
  fix c :: "'t client" and k
  assume "find_crlf (drop (rx_pos c) (rx_buf c)) = Some k"
  from find_crlf_Some [OF this] show "rx_keeps c (compact_rx (c\<lparr>rx_pos := rx_pos c + k + 2\<rparr>))"
    by (auto simp: rx_keeps_def rx_ok_def compact_rx_def RX_BUF_COMPACT_THRESHOLD_def)
next
  fix c :: "'t client" and bs t
  assume "t_read (e_ops env) (transport c) READ_CHUNK = (Ok bs, t)"
    and "length (rx_buf c) - rx_pos c \<le> RX_BUF_HARD_LIMIT"
  then show "rx_keeps c (c\<lparr>transport := t, rx_buf := rx_buf c @ bs\<rparr>)"
    using read_fits [of "transport c" READ_CHUNK bs t] by (auto simp: rx_keeps_def rx_ok_def)
qed (simp_all add: rx_keeps_def rx_ok_def on_event_def store_capabilities_def)

definition mock_env :: "features \<Rightarrow> crypto \<Rightarrow> byte list option \<Rightarrow> nat \<Rightarrow> mock env" where
  "mock_env f c entropy umax =
     \<lparr>e_ops = mock_ops, e_features = f, e_crypto = c, e_entropy = entropy, e_usize_max = umax\<rparr>"

interpretation mock_client: client_env "mock_env f c entropy umax" for f c entropy umax
  unfolding client_env_def mock_env_def by (simp add: mock_contract.transport_contract_axioms)

subsection \<open>Lines and replies on a stream\<close>

definition stream_line :: "byte list \<Rightarrow> smtp_error + byte list \<times> byte list" where
  "stream_line s =
     (case find_crlf s of
        Some k \<Rightarrow> if k \<le> MAX_REPLY_LINE_LEN then Ok (take k s, drop (k + 2) s)
                  else Err (Protocol LineTooLong)
      | None \<Rightarrow> if length s \<le> RX_BUF_HARD_LIMIT then Err (Protocol UnexpectedClose)
                else Err (Protocol LineTooLong))"

lemma find_crlf_append:
  "find_crlf s = Some k \<Longrightarrow> find_crlf (s @ t) = Some k"
  by (induction s arbitrary: k rule: find_crlf.induct) (auto split: if_splits)

lemma find_crlf_late:
  "find_crlf s = None \<Longrightarrow> find_crlf (s @ t) = Some k \<Longrightarrow> length s \<le> k + 1"
proof (induction s arbitrary: k rule: find_crlf.induct)
  case (1 a b bs)
  then obtain j where "find_crlf ((b # bs) @ t) = Some j" and "k = Suc j"
    by (auto split: if_splits)
  with 1 show ?case by (auto split: if_splits)
qed auto

text \<open>The bytes the client has not consumed: those in its buffer, then those still to arrive.\<close>

definition unread :: "('t \<Rightarrow> byte list) \<Rightarrow> 't client \<Rightarrow> byte list" where
  "unread inc c = drop (rx_pos c) (rx_buf c) @ inc (transport c)"

text \<open>The reply on a stream: the loop of \<open>read_reply\<close> over \<open>stream_line\<close>.\<close>

function stream_reply ::
    "bool \<Rightarrow> str list \<Rightarrow> u16 option \<Rightarrow> byte list \<Rightarrow> smtp_error + reply \<times> byte list" where
  "stream_reply enh lines code s =
     (if MAX_REPLY_LINES \<le> length lines then Err too_many_lines
      else case stream_line s of
        Err e \<Rightarrow> Err e
      | Ok (line, rest) \<Rightarrow>
          (case parse_reply_line line of
             Err e \<Rightarrow> Err (Protocol e)
           | Ok parsed \<Rightarrow>
               let prev = (case code of Some p \<Rightarrow> p | None \<Rightarrow> rl_code parsed);
                   texts = lines @ [from_utf8_lossy (rl_text parsed)]
               in if prev \<noteq> rl_code parsed then
                    Err (Protocol (InconsistentMultiline prev (rl_code parsed)))
                  else if rl_is_last parsed then Ok (finish_reply enh prev texts, rest)
                  else stream_reply enh texts (Some prev) rest))"
  by pat_completeness auto
termination
  by (relation "measure (\<lambda>(enh, lines, code, s). MAX_REPLY_LINES - length lines)") auto

declare stream_reply.simps [simp del]

lemma READ_CHUNK_pos: "0 < READ_CHUNK"
  by (simp add: READ_CHUNK_def)

context scripted_transport
begin

text \<open>A line that is in the buffer, and one that cannot be any more.\<close>

lemma read_line_buffered:
  assumes "ready (transport c)" and found: "find_crlf (drop (rx_pos c) (rx_buf c)) = Some k"
  shows "holds (read_line env c)
     (\<lambda>line d. stream_line (unread incoming c) = Ok (line, unread incoming d) \<and>
        ready (transport d) \<and> rx_pos d \<le> length (rx_buf d))
     (\<lambda>e d. stream_line (unread incoming c) = Err e)"
proof -
  let ?b = "drop (rx_pos c) (rx_buf c)" and ?d = "compact_rx (c\<lparr>rx_pos := rx_pos c + k + 2\<rparr>)"
  have s: "find_crlf (unread incoming c) = Some k"
    unfolding unread_def by (rule find_crlf_append [OF found])
  have k: "k + 2 \<le> length ?b" using find_crlf_Some [OF found] by blast
  have line: "slice (rx_buf c) (rx_pos c) (rx_pos c + k) = take k (unread incoming c)"
    and len: "length (take k (unread incoming c)) = k"
    and rest: "unread incoming ?d = drop (k + 2) (unread incoming c)"
    using k by (simp_all add: slice_def unread_def compact_rx_def add.commute)
  have "rx_pos ?d \<le> length (rx_buf ?d)" and "ready (transport ?d)"
    using k assms(1) by (auto simp: compact_rx_def)
  then show ?thesis
    using found s line rest len
    by (subst read_line.simps) (simp add: stream_line_def Let_def abort_with_def)
qed

lemma stream_line_too_long:
  assumes "find_crlf (drop (rx_pos c) (rx_buf c)) = None"
    and "RX_BUF_HARD_LIMIT < length (rx_buf c) - rx_pos c"
  shows "stream_line (unread incoming c) = Err (Protocol LineTooLong)"
proof -
  have "\<not> k \<le> MAX_REPLY_LINE_LEN" if "find_crlf (unread incoming c) = Some k" for k
    using find_crlf_late [OF assms(1) that [unfolded unread_def]] assms(2)
    by (simp add: RX_BUF_HARD_LIMIT_def MAX_REPLY_LINE_LEN_def)
  moreover have "\<not> length (unread incoming c) \<le> RX_BUF_HARD_LIMIT"
    using assms(2) by (simp add: unread_def)
  ultimately show ?thesis by (auto simp: stream_line_def split: option.splits)
qed

lemma read_line_stream:
  assumes "ready (transport c)" and "rx_pos c \<le> length (rx_buf c)" and "e_ops env = ops"
  shows "holds (read_line env c)
     (\<lambda>line d. stream_line (unread incoming c) = Ok (line, unread incoming d) \<and>
        ready (transport d) \<and> rx_pos d \<le> length (rx_buf d))
     (\<lambda>e d. stream_line (unread incoming c) = Err e)"
  using assms
proof (induction env c rule: read_line.induct)
  case (1 env c)
  let ?b = "drop (rx_pos c) (rx_buf c)"
  consider k where "find_crlf ?b = Some k"
    | "find_crlf ?b = None" "RX_BUF_HARD_LIMIT < length (rx_buf c) - rx_pos c"
    | "find_crlf ?b = None" "\<not> RX_BUF_HARD_LIMIT < length (rx_buf c) - rx_pos c"
    by (cases "find_crlf ?b") auto
  then show ?case
  proof cases
    case (1 k)
    then show ?thesis using read_line_buffered "1.prems"(1) by blast
  next
    case 2
    then show ?thesis
      using stream_line_too_long [OF 2] by (subst read_line.simps) (simp add: abort_with_def)
  next
    case 3
    obtain bs t where read: "t_read ops (transport c) READ_CHUNK = (Ok bs, t)" and rdy: "ready t"
      and inc: "incoming (transport c) = bs @ incoming t" and eof: "bs = [] \<longleftrightarrow> incoming (transport c) = []"
      using read_ready [OF "1.prems"(1) READ_CHUNK_pos] by blast
    let ?d = "c\<lparr>transport := t, rx_buf := rx_buf c @ bs\<rparr>"
    have fill: "fill_buf env c = (Ok (length bs), ?d)"
      using read "1.prems"(3) by (simp add: fill_buf_def)
    show ?thesis
    proof (cases "bs = []")
      case True
      then have "stream_line (unread incoming c) = Err (Protocol UnexpectedClose)"
        using 3 eof by (simp add: stream_line_def unread_def)
      then show ?thesis
        using 3 fill True by (subst read_line.simps) (simp add: abort_with_def)
    next
      case ne: False
      have "unread incoming ?d = unread incoming c"
        using "1.prems"(2) inc by (simp add: unread_def)
      moreover have "holds (read_line env ?d)
         (\<lambda>line d. stream_line (unread incoming ?d) = Ok (line, unread incoming d) \<and>
            ready (transport d) \<and> rx_pos d \<le> length (rx_buf d))
         (\<lambda>e d. stream_line (unread incoming ?d) = Err e)"
        using "1.IH" [OF 3 fill] ne rdy "1.prems"(2,3) by simp
      ultimately show ?thesis
        using 3 fill ne by (subst read_line.simps) simp
    qed
  qed
qed

lemma read_reply_loop_stream:
  assumes "ready (transport c)" and "rx_pos c \<le> length (rx_buf c)" and "e_ops env = ops"
    and "enhanced_status_enabled c = enh" and "state c \<noteq> Closed"
  shows "holds (read_reply_loop env lines code c)
     (\<lambda>r d. stream_reply enh lines code (unread incoming c) = Ok (r, unread incoming d) \<and>
        ready (transport d) \<and> rx_pos d \<le> length (rx_buf d))
     (\<lambda>e d. stream_reply enh lines code (unread incoming c) = Err e)"
  using assms
proof (induction env lines code c rule: read_reply_loop.induct)
  case (1 env lines code c)
  show ?case
  proof (cases "MAX_REPLY_LINES \<le> length lines")
    case True
    then show ?thesis
      by (subst read_reply_loop.simps, subst stream_reply.simps) (simp add: abort_with_def)
  next
    case False
    obtain r d where p: "read_line env c = (r, d)" by fastforce
    have line: "holds (r, d)
       (\<lambda>line d. stream_line (unread incoming c) = Ok (line, unread incoming d) \<and>
          ready (transport d) \<and> rx_pos d \<le> length (rx_buf d))
       (\<lambda>e d. stream_line (unread incoming c) = Err e)"
      using read_line_stream [OF 1(3,4,5)] by (simp add: p)
    show ?thesis
    proof (cases r)
      case (Inl e)
      then show ?thesis
        using False p line
        by (subst read_reply_loop.simps, subst stream_reply.simps) simp
    next
      case r: (Inr line')
      have q: "quiet c d" using read_line_spec [OF 1(7), of env] by (simp add: p r)
      then have en: "enhanced_status_enabled d = enh" and st: "state d \<noteq> Closed"
        using 1(6,7) by (simp_all add: quiet_def)
      have ok: "stream_line (unread incoming c) = Ok (line', unread incoming d)"
        and d: "ready (transport d)" "rx_pos d \<le> length (rx_buf d)"
        using line by (simp_all add: r)
      show ?thesis
      proof (cases "parse_reply_line line'")
        case (Inl e)
        then show ?thesis
          using False p r ok
          by (subst read_reply_loop.simps, subst stream_reply.simps) (simp add: abort_with_def)
      next
        case parsed: (Inr parsed)
        note IH = 1(1) [OF False p [unfolded r] parsed] 1(2) [OF False p [unfolded r] parsed]
        show ?thesis
          using False p r ok parsed en d IH 1(5) st
          by (subst read_reply_loop.simps, subst (1 2) stream_reply.simps, cases code)
             (simp_all add: abort_with_def Let_def)
      qed
    qed
  qed
qed

lemma read_reply_stream:
  assumes "ready (transport c)" and "rx_pos c \<le> length (rx_buf c)" and "e_ops env = ops"
    and "state c \<noteq> Closed"
  shows "holds (read_reply env c)
     (\<lambda>r d. stream_reply (enhanced_status_enabled c) [] None (unread incoming c) =
          Ok (r, unread incoming d) \<and> ready (transport d) \<and> rx_pos d \<le> length (rx_buf d))
     (\<lambda>e d. stream_reply (enhanced_status_enabled c) [] None (unread incoming c) = Err e)"
  unfolding read_reply_def by (rule read_reply_loop_stream [OF assms(1-3) refl assms(4)])

end

subsection \<open>Replies as a server writes them\<close>

definition code_digits :: "nat \<Rightarrow> byte list" where
  "code_digits n = [of_nat (48 + n div 100), of_nat (48 + n div 10 mod 10), of_nat (48 + n mod 10)]"

fun render_reply :: "nat \<Rightarrow> str list \<Rightarrow> byte list" where
  "render_reply n [] = []"
| "render_reply n [l] = code_digits n @ [SP] @ l @ CRLF"
| "render_reply n (l # ls) = code_digits n @ [45] @ l @ CRLF @ render_reply n ls"

text \<open>A line a server may send: text without CR that fits in a reply line with its code.\<close>

definition line_ok :: "str \<Rightarrow> bool" where
  "line_ok l \<longleftrightarrow> valid_utf8 l \<and> CR \<notin> set l \<and> length l + 4 \<le> MAX_REPLY_LINE_LEN"

lemma find_crlf_end: "CR \<notin> set l \<Longrightarrow> find_crlf (l @ CR # LF # rest) = Some (length l)"
proof (induction l)
  case Nil
  show ?case by simp
next
  case (Cons a l)
  then show ?case by (cases l) auto
qed

lemma code_digits_facts:
  assumes "n < 1000"
  obtains a b c where "code_digits n = [a, b, c]" and "is_ascii_digit a" and "is_ascii_digit b"
    and "is_ascii_digit c" and "code_of a b c = of_nat n" and "CR \<notin> {a, b, c}"
proof -
  let ?a = "of_nat (48 + n div 100) :: byte"
  let ?b = "of_nat (48 + n div 10 mod 10) :: byte"
  let ?c = "of_nat (48 + n mod 10) :: byte"
  have lt: "n div 100 < 10" "n div 10 mod 10 < 10" "n mod 10 < 10" using assms by simp_all
  note d = is_ascii_digit_of_nat [OF lt(1)] is_ascii_digit_of_nat [OF lt(2)]
    is_ascii_digit_of_nat [OF lt(3)]
  have "unat (code_of ?a ?b ?c) = (n div 100) * 100 + (n div 10 mod 10) * 10 + n mod 10"
    using code_of_nat(1) [OF d] unat_digit [OF lt(1)] unat_digit [OF lt(2)] unat_digit [OF lt(3)]
    by simp
  also have "\<dots> = n"
  proof -
    have "n div 100 = n div 10 div 10" by (simp add: div_mult2_eq [symmetric])
    moreover have "n = 10 * (n div 10) + n mod 10" by simp
    moreover have "n div 10 = 10 * (n div 10 div 10) + n div 10 mod 10" by simp
    ultimately show ?thesis by linarith
  qed
  finally have "code_of ?a ?b ?c = of_nat n"
    using assms by (simp add: word_unat_eq_iff unat_of_nat)
  moreover have "CR \<noteq> x" if "is_ascii_digit x" for x
    using that by (auto simp: is_ascii_digit_def)
  ultimately show thesis
    using that [of ?a ?b ?c] d by (simp add: code_digits_def)
qed

lemma stream_line_render:
  assumes "n < 1000" and "line_ok l" and "sep \<in> {SP, 45}"
  shows "stream_line (code_digits n @ [sep] @ l @ CRLF @ rest) = Ok (code_digits n @ [sep] @ l, rest)"
proof -
  obtain a b c where cd: "code_digits n = [a, b, c]" "CR \<notin> {a, b, c}"
    using code_digits_facts [OF assms(1)] by metis
  have "CR \<notin> set (code_digits n @ [sep] @ l)"
    using cd assms(2,3) by (auto simp: line_ok_def)
  from find_crlf_end [OF this, of rest] show ?thesis
    using assms(2) cd(1) by (simp add: stream_line_def line_ok_def)
qed

lemma parse_rendered:
  assumes "n < 1000"
  shows "parse_reply_line (code_digits n @ [SP] @ l) =
           Ok \<lparr>rl_code = of_nat n, rl_is_last = True, rl_text = l\<rparr>"
    and "parse_reply_line (code_digits n @ [45] @ l) =
           Ok \<lparr>rl_code = of_nat n, rl_is_last = False, rl_text = l\<rparr>"
proof -
  obtain a b c where "code_digits n = [a, b, c]" "is_ascii_digit a" "is_ascii_digit b"
    "is_ascii_digit c" "code_of a b c = of_nat n"
    using code_digits_facts [OF assms] by metis
  then show "parse_reply_line (code_digits n @ [SP] @ l) =
           Ok \<lparr>rl_code = of_nat n, rl_is_last = True, rl_text = l\<rparr>"
    and "parse_reply_line (code_digits n @ [45] @ l) =
           Ok \<lparr>rl_code = of_nat n, rl_is_last = False, rl_text = l\<rparr>"
    by (simp_all add: parse_reply_line_cons)
qed

lemma stream_reply_render:
  assumes "n < 1000" and "ls \<noteq> []" and "list_all line_ok ls"
    and "length acc + length ls \<le> MAX_REPLY_LINES" and "code = None \<or> code = Some (of_nat n)"
  shows "stream_reply enh acc code (render_reply n ls @ rest) =
     Ok (finish_reply enh (of_nat n) (acc @ ls), rest)"
  using assms
proof (induction n ls arbitrary: acc code rule: render_reply.induct)
  case (1 n)
  then show ?case by simp
next
  case (2 n l)
  have l: "line_ok l" "from_utf8_lossy l = l"
    using 2 by (simp_all add: line_ok_def from_utf8_lossy_id)
  have "stream_line (render_reply n [l] @ rest) = Ok (code_digits n @ [SP] @ l, rest)"
    using stream_line_render [OF 2(1) l(1), of SP rest] by simp
  then show ?case
    using 2(4,5) parse_rendered(1) [OF 2(1), of l] l(2)
    by (subst stream_reply.simps) (auto simp: Let_def)
next
  case (3 n l l' ls)
  have l: "line_ok l" "from_utf8_lossy l = l"
    using 3 by (simp_all add: line_ok_def from_utf8_lossy_id)
  have "stream_line (render_reply n (l # l' # ls) @ rest) =
      Ok (code_digits n @ [45] @ l, render_reply n (l' # ls) @ rest)"
    using stream_line_render [OF 3(2) l(1), of 45 "render_reply n (l' # ls) @ rest"] by simp
  moreover have "stream_reply enh (acc @ [l]) (Some (of_nat n)) (render_reply n (l' # ls) @ rest) =
      Ok (finish_reply enh (of_nat n) (acc @ l # l' # ls), rest)"
    using 3(1) [of "acc @ [l]" "Some (of_nat n)"] 3(2-5) by simp
  ultimately show ?case
    using 3(5,6) parse_rendered(2) [OF 3(2), of l] l(2)
    by (subst stream_reply.simps) (auto simp: Let_def)
qed

subsection \<open>Properties\<close>

text \<open>
  A line is read from the connection exactly as from the stream of bytes the server sent,
  however they were cut into reads: it ends at the first CRLF, has at most 998 bytes, a longer
  one (and more than 1996 bytes without CRLF) is \<open>LineTooLong\<close>, and a stream that ends earlier is
  \<open>UnexpectedClose\<close>; what follows the CRLF stays unread.
\<close>

theorem read_line_refines_stream:
  assumes "mock_ready (transport c)" and "rx_ok c"
  shows "case read_line (mock_env f k ent um) c of
      (Ok line, d) \<Rightarrow> stream_line (unread mock_bytes c) = Ok (line, unread mock_bytes d)
    | (Err e, d) \<Rightarrow> stream_line (unread mock_bytes c) = Err e"
  using mock_transport.read_line_stream [of c "mock_env f k ent um"] assms
  by (auto simp: rx_ok_def mock_env_def holds_def split: prod.splits sum.splits)

definition split_greeting :: "mock client" where
  "split_greeting =
     client_new (mock_new [lit ''220-mx'' @ [13], [10] @ lit ''220 hi'' @ CRLF @ lit ''25'']) [] default_policy []"

lemma split_greeting_facts:
  "mock_ready (transport split_greeting)" "rx_ok split_greeting" "state split_greeting \<noteq> Closed"
  "enhanced_status_enabled split_greeting = False"
  "unread mock_bytes split_greeting =
     render_reply 220 [lit ''mx'', lit ''hi''] @ lit ''25''"
  by (simp_all add: split_greeting_def client_new_def mock_new_def mock_build_def mock_ready_def
        rx_ok_def RX_BUF_COMPACT_THRESHOLD_def RX_BUF_HARD_LIMIT_def unread_def mock_bytes_def
        code_digits_def lit_def)

theorem read_line_refines_stream_witness:
  "case read_line (mock_env default_features toy_crypto None 0) split_greeting of
      (Ok line, d) \<Rightarrow> stream_line (unread mock_bytes split_greeting) = Ok (line, unread mock_bytes d)
    | (Err e, d) \<Rightarrow> stream_line (unread mock_bytes split_greeting) = Err e"
  by (rule read_line_refines_stream [OF split_greeting_facts(1,2)])

text \<open>
  C15: a reply is read exactly as the reference \<open>stream_reply\<close> reads it from the unread bytes, with
  the same errors; in particular neither the reply nor what is left unread depends on how the
  transport delivered the bytes.
\<close>

theorem read_reply_refines_stream:
  assumes "mock_ready (transport c)" and "rx_ok c" and "state c \<noteq> Closed"
  shows "case read_reply (mock_env f k ent um) c of
      (Ok r, d) \<Rightarrow> stream_reply (enhanced_status_enabled c) [] None (unread mock_bytes c) =
                    Ok (r, unread mock_bytes d)
    | (Err e, d) \<Rightarrow> stream_reply (enhanced_status_enabled c) [] None (unread mock_bytes c) = Err e"
  using mock_transport.read_reply_stream [of c "mock_env f k ent um"] assms
  by (auto simp: rx_ok_def mock_env_def holds_def split: prod.splits sum.splits)

theorem read_reply_refines_stream_witness:
  "case read_reply (mock_env default_features toy_crypto None 0) split_greeting of
      (Ok r, d) \<Rightarrow> stream_reply False [] None (unread mock_bytes split_greeting) =
                    Ok (r, unread mock_bytes d)
    | (Err e, d) \<Rightarrow> stream_reply False [] None (unread mock_bytes split_greeting) = Err e"
  using read_reply_refines_stream [OF split_greeting_facts(1-3)]
  by (simp only: split_greeting_facts(4))

text \<open>
  Whatever a server says in a well-formed reply reaches the client: at most 128 lines without
  CR that fit the line limit, under one three-digit code, are read as that code and those lines,
  and the bytes after the reply are left alone.
\<close>

theorem reply_received_as_sent:
  assumes "n < 1000" and "ls \<noteq> []" and "list_all line_ok ls" and "length ls \<le> MAX_REPLY_LINES"
    and "mock_ready (transport c)" and "rx_ok c" and "state c \<noteq> Closed"
    and "enhanced_status_enabled c = enh" and "unread mock_bytes c = render_reply n ls @ rest"
  shows "\<exists>d. read_reply (mock_env f k ent um) c = (Ok (finish_reply enh (of_nat n) ls), d) \<and>
     unread mock_bytes d = rest"
proof -
  have "stream_reply enh [] None (unread mock_bytes c) = Ok (finish_reply enh (of_nat n) ls, rest)"
    using stream_reply_render [OF assms(1-3), of "[]" None enh rest] assms(4,9) by simp
  then show ?thesis
    using mock_transport.read_reply_stream [of c "mock_env f k ent um"] assms(5-8)
    by (auto simp: rx_ok_def mock_env_def holds_def split: prod.splits sum.splits)
qed

theorem reply_received_as_sent_witness:
  "\<exists>d. read_reply (mock_env default_features toy_crypto None 0) split_greeting =
       (Ok (finish_reply False (of_nat 220) [lit ''mx'', lit ''hi'']), d) \<and>
     unread mock_bytes d = lit ''25''"
proof (rule reply_received_as_sent)
  have "valid_utf8 (lit ''mx'')" "valid_utf8 (lit ''hi'')" by code_simp+
  then show "list_all line_ok [lit ''mx'', lit ''hi'']"
    by (simp add: line_ok_def lit_def MAX_REPLY_LINE_LEN_def)
qed (simp_all add: split_greeting_facts MAX_REPLY_LINES_def)

end
