(* ===== verification/Client_Talk.thy ===== *)
theory Client_Talk
  imports Client_Stream
begin

text \<open>
  Conversations: what the client has written and what the server has still to say, over the course
  of an operation.  \<open>answering_transport\<close> is a connection on which writes succeed and the server's
  bytes are determined; its rules follow an operation step by step, and are used for what an
  operation writes, for what it has read when it succeeds, and for the fact that it succeeds with
  a server that gives the right answers.
\<close>

locale answering_transport =
  fixes ops :: "'t transport_ops"
    and incoming :: "'t \<Rightarrow> byte list"
    and ready :: "'t \<Rightarrow> bool"
    and written :: "'t \<Rightarrow> byte list"
  assumes read_answers: "ready t \<Longrightarrow> 0 < n \<Longrightarrow>
      \<exists>bs t'. t_read ops t n = (Ok bs, t') \<and> ready t' \<and> written t' = written t \<and>
        incoming t = bs @ incoming t' \<and> (bs = [] \<longleftrightarrow> incoming t = [])"
    and write_succeeds: "ready t \<Longrightarrow>
      \<exists>t'. t_write_all ops t b = (Ok (), t') \<and> ready t' \<and> incoming t' = incoming t \<and>
        written t' = written t @ b"
    and flush_succeeds: "ready t \<Longrightarrow>
      \<exists>t'. t_flush ops t = (Ok (), t') \<and> ready t' \<and> incoming t' = incoming t \<and>
        written t' = written t"

text \<open>Reading such a connection is reading a script, while what has been written stays as it is.\<close>

sublocale answering_transport \<subseteq> at_written:
  scripted_transport ops incoming "\<lambda>t. ready t \<and> written t = w" for w
proof
  fix t and n :: nat
  assume "ready t \<and> written t = w" and "0 < n"
  then show "\<exists>bs t'. t_read ops t n = (Ok bs, t') \<and> (ready t' \<and> written t' = w) \<and>
      incoming t = bs @ incoming t' \<and> (bs = [] \<longleftrightarrow> incoming t = [])"
    using read_answers [of t n] by metis
qed

lemma mock_read_written: "m_written (snd (mock_read t n)) = m_written t"
  by (auto simp: mock_read_def Let_def split: list.splits)

interpretation mock_answers: answering_transport mock_ops mock_bytes mock_ready m_written
proof
  fix t and n :: nat
  assume "mock_ready t" and "0 < n"
  then show "\<exists>bs t'. t_read mock_ops t n = (Ok bs, t') \<and> mock_ready t' \<and> m_written t' = m_written t \<and>
      mock_bytes t = bs @ mock_bytes t' \<and> (bs = [] \<longleftrightarrow> mock_bytes t = [])"
    using mock_read_ready [of t n] mock_read_written [of t n] by auto
qed (simp_all add: mock_write_all_def default_flush_def mock_ready_def mock_bytes_def)

text \<open>
  \<open>follows inc ok wr c0 s w c\<close>: up to connection and buffer, \<open>c\<close> is \<open>c0\<close>; on its connection \<open>s\<close> is
  what the client has not read yet, and \<open>w\<close> what it has written.
\<close>

definition follows ::
    "('t \<Rightarrow> byte list) \<Rightarrow> ('t \<Rightarrow> bool) \<Rightarrow> ('t \<Rightarrow> byte list) \<Rightarrow>
     't client \<Rightarrow> byte list \<Rightarrow> byte list \<Rightarrow> 't client \<Rightarrow> bool" where
  "follows inc ok wr c0 s w c \<longleftrightarrow>
     quiet c0 c \<and> ok (transport c) \<and> rx_pos c \<le> length (rx_buf c) \<and>
     unread inc c = s \<and> wr (transport c) = w"

abbreviation hears :: "mock client \<Rightarrow> byte list \<Rightarrow> byte list \<Rightarrow> mock client \<Rightarrow> bool" where
  "hears \<equiv> follows mock_bytes mock_ready m_written"

text \<open>The receiving operations leave what has been written alone.\<close>

definition same_written :: "('t \<Rightarrow> byte list) \<Rightarrow> 't client \<Rightarrow> 't client \<Rightarrow> bool" where
  "same_written wr c d \<longleftrightarrow> wr (transport d) = wr (transport c)"

locale client_recorder = recording_transport "e_ops env" written
  for env :: "'t env" and written :: "'t \<Rightarrow> byte list"

sublocale client_recorder \<subseteq> hearing: reading_relation env "same_written written"
  by unfold_locales
     (auto simp: same_written_def on_event_def compact_rx_def read_written)

interpretation mock_wrote: client_recorder "mock_env f k ent um" m_written for f k ent um
  unfolding client_recorder_def mock_env_def by (simp add: mock_recorder.recording_transport_axioms)

locale client_talk = answering_transport "e_ops env" incoming ready written
  for env :: "'t env" and incoming :: "'t \<Rightarrow> byte list" and ready :: "'t \<Rightarrow> bool"
    and written :: "'t \<Rightarrow> byte list"
begin

abbreviation "at \<equiv> follows incoming ready written"

lemma talk_write:
  assumes "at c0 s w c" and "\<And>d. at c0 s (w @ b) d \<Longrightarrow> holds (k () d) Q E"
  shows "holds (and_then (write_all env b c) k) Q E"
proof -
  obtain t where t: "t_write_all (e_ops env) (transport c) b = (Ok (), t)" "ready t"
      "incoming t = incoming (transport c)" "written t = written (transport c) @ b"
    using write_succeeds [of "transport c" b] assms(1) by (auto simp: follows_def)
  then have "at c0 s (w @ b) (c\<lparr>transport := t\<rparr>)"
    using assms(1) by (auto simp: follows_def unread_def intro: quiet_trans)
  then show ?thesis using assms(2) t(1) by (simp add: write_all_def)
qed

lemma talk_flush:
  assumes "at c0 s w c" and "\<And>d. at c0 s w d \<Longrightarrow> holds (k () d) Q E"
  shows "holds (and_then (flush env c) k) Q E"
proof -
  obtain t where t: "t_flush (e_ops env) (transport c) = (Ok (), t)" "ready t"
      "incoming t = incoming (transport c)" "written t = written (transport c)"
    using flush_succeeds [of "transport c"] assms(1) by (auto simp: follows_def)
  then have "at c0 s w (c\<lparr>transport := t\<rparr>)"
    using assms(1) by (auto simp: follows_def unread_def intro: quiet_trans)
  then show ?thesis using assms(2) t(1) by (simp add: flush_def)
qed

lemma read_reply_talk:
  assumes "at c0 s w c" and "state c0 \<noteq> Closed"
  shows "holds (read_reply env c)
     (\<lambda>r d. \<exists>s'. stream_reply (enhanced_status_enabled c0) [] None s = Ok (r, s') \<and> at c0 s' w d)
     (\<lambda>e d. stream_reply (enhanced_status_enabled c0) [] None s = Err e)"
proof -
  have "state c \<noteq> Closed" and enh: "enhanced_status_enabled c = enhanced_status_enabled c0"
    using assms by (auto simp: follows_def quiet_def)
  have p: "ready (transport c) \<and> written (transport c) = w" "rx_pos c \<le> length (rx_buf c)"
    using assms(1) by (auto simp: follows_def)
  from holds_conj [OF at_written.read_reply_stream [OF p refl \<open>state c \<noteq> Closed\<close>]
      read_reply_spec [OF \<open>state c \<noteq> Closed\<close>]]
  show ?thesis
    by (rule holds_weaken) (use assms(1) enh in \<open>auto simp: follows_def intro: quiet_trans\<close>)
qed

lemma talk_read:
  assumes "at c0 s w c" and "state c0 \<noteq> Closed"
    and "\<And>r s' d. stream_reply (enhanced_status_enabled c0) [] None s = Ok (r, s') \<Longrightarrow>
           at c0 s' w d \<Longrightarrow> holds (k r d) Q E"
    and "\<And>e d. stream_reply (enhanced_status_enabled c0) [] None s = Err e \<Longrightarrow> E e d"
  shows "holds (and_then (read_reply env c) k) Q E"
  by (rule holds_and_then [OF holds_weaken [OF read_reply_talk [OF assms(1,2)]]])
     (use assms(3,4) in auto)

lemma talk_read_ok:
  assumes "at c0 s w c" and "state c0 \<noteq> Closed"
    and "stream_reply (enhanced_status_enabled c0) [] None s = Ok (r, s')"
    and "\<And>d. at c0 s' w d \<Longrightarrow> holds (k r d) Q E"
  shows "holds (and_then (read_reply env c) k) Q E"
  by (rule talk_read [OF assms(1,2)]) (use assms(3,4) in auto)

lemma talk_expect_code:
  assumes "at c0 s w c" and "state c0 \<noteq> Closed"
    and "stream_reply (enhanced_status_enabled c0) [] None s = Ok (r, s')" and "r_code r = n"
    and "\<And>d. at c0 s' w d \<Longrightarrow> holds (k r d) Q E"
  shows "holds (and_then (expect_code env n during c) k) Q E"
proof (rule holds_and_then)
  show "holds (expect_code env n during c) (\<lambda>r' d. r' = r \<and> at c0 s' w d) E"
    unfolding expect_code_def by (rule talk_read [OF assms(1,2)]) (use assms(3,4) in auto)
qed (use assms(5) in auto)

lemma talk_expect_class:
  assumes "at c0 s w c" and "state c0 \<noteq> Closed"
    and "stream_reply (enhanced_status_enabled c0) [] None s = Ok (r, s')" and "reply_class r = n"
    and "\<And>d. at c0 s' w d \<Longrightarrow> holds (k r d) Q E"
  shows "holds (and_then (expect_class env n during c) k) Q E"
proof (rule holds_and_then)
  show "holds (expect_class env n during c) (\<lambda>r' d. r' = r \<and> at c0 s' w d) E"
    unfolding expect_class_def by (rule talk_read [OF assms(1,2)]) (use assms(3,4) in auto)
qed (use assms(5) in auto)

lemma talk_emit:
  assumes "at c0 s w c" and "\<And>d. at (on_event e c0) s w d \<Longrightarrow> holds (k () d) Q E"
  shows "holds (and_then (emit e c) k) Q E"
  using assms by (auto simp: emit_def follows_def quiet_def on_event_def unread_def)

lemma talk_transition:
  assumes "at c0 s w c" and "can_transition_to (state c0) n"
    and "\<And>d. at (c0\<lparr>state := n\<rparr>) s w d \<Longrightarrow> holds (k () d) Q E"
  shows "holds (and_then (transition n c) k) Q E"
  using assms by (auto simp: transition_def follows_def quiet_def unread_def)

end

interpretation mock_talk: client_talk "mock_env f k ent um" mock_bytes mock_ready m_written
  for f k ent um
  unfolding client_talk_def mock_env_def by (simp add: mock_answers.answering_transport_axioms)

text \<open>A client at the start of a conversation.\<close>

lemma follows_start:
  "mock_ready (transport c) \<Longrightarrow> rx_ok c \<Longrightarrow>
   hears c (unread mock_bytes c) (m_written (transport c)) c"
  by (simp add: follows_def rx_ok_def)

text \<open>Replies as the stream reads them.\<close>

lemma stream_reply_rendered:
  "n < 1000 \<Longrightarrow> ls \<noteq> [] \<Longrightarrow> list_all line_ok ls \<Longrightarrow> length ls \<le> MAX_REPLY_LINES \<Longrightarrow>
   stream_reply enh [] None (render_reply n ls @ rest) = Ok (finish_reply enh (of_nat n) ls, rest)"
  using stream_reply_render [of n ls "[]" None enh rest] by simp

lemma joined_single [simp]: "joined_text (finish_reply enh n [l]) = l"
  by (simp add: joined_text_def)

end
