(* ===== verification/Client_Auth.thy ===== *)
theory Client_Auth
  imports Client_Talk
begin

text \<open>
  Authentication, from \<open>wasm-smtp/src/client/auth.rs\<close> (and \<open>convert_auth\<close> of \<open>client/mod.rs\<close>): the
  five exchanges, \<open>login\<close> and \<open>login_with\<close>, and how each of them can end.
\<close>

subsection \<open>Errors\<close>

definition is_5xx :: "u16 \<Rightarrow> bool" where
  "is_5xx code = (500 \<le> code \<and> code < 600)"

definition convert_auth :: "smtp_error \<Rightarrow> smtp_error" where
  "convert_auth e = (case e of
     Protocol (UnexpectedCode _ _ actual enhanced msg) \<Rightarrow>
       if is_5xx actual then Auth (Rejected actual enhanced msg) else e
   | _ \<Rightarrow> e)"

text \<open>\<open>.map_err(f)\<close> on the outcome of an operation.\<close>

definition on_error :: "('e \<Rightarrow> 'f) \<Rightarrow> ('e + 'a) \<times> 's \<Rightarrow> ('f + 'a) \<times> 's" where
  "on_error f p = (map_err f (fst p), snd p)"

definition rejected :: "reply \<Rightarrow> smtp_error" where
  "rejected r = Auth (Rejected (r_code r) (r_enhanced r) (joined_text r))"

definition auth_refused :: "smtp_op \<Rightarrow> byte \<Rightarrow> reply \<Rightarrow> smtp_error" where
  "auth_refused during class r =
     (if is_5xx (r_code r) then rejected r else unexpected_code during class r)"

definition malformed_challenge :: "string \<Rightarrow> smtp_error" where
  "malformed_challenge s = Auth (MalformedChallenge (lit s))"

subsection \<open>The exchanges\<close>

definition run_auth_plain ::
    "'t env \<Rightarrow> str \<Rightarrow> str \<Rightarrow> 't client \<Rightarrow> (smtp_error + unit) \<times> 't client" where
  "run_auth_plain env user pass c =
     and_then (write_all env
       (lit ''AUTH PLAIN '' @ build_auth_plain_initial_response user pass @ CRLF) c) (\<lambda>_ c.
     and_then (on_error convert_auth (expect_code env 235 OpAuthPlain c)) (\<lambda>_ c.
     (Ok (), c)))"

definition run_auth_login ::
    "'t env \<Rightarrow> str \<Rightarrow> str \<Rightarrow> 't client \<Rightarrow> (smtp_error + unit) \<times> 't client" where
  "run_auth_login env user pass c =
     and_then (write_all env (lit ''AUTH LOGIN'' @ CRLF) c) (\<lambda>_ c.
     and_then (on_error convert_auth (expect_code env 334 OpAuthLogin c)) (\<lambda>_ c.
     and_then (write_all env (base64_encode user @ CRLF) c) (\<lambda>_ c.
     and_then (on_error convert_auth (expect_code env 334 OpAuthLogin c)) (\<lambda>_ c.
     and_then (write_all env (base64_encode pass @ CRLF) c) (\<lambda>_ c.
     and_then (on_error convert_auth (expect_code env 235 OpAuthLogin c)) (\<lambda>_ c.
     (Ok (), c)))))))"

definition run_auth_xoauth2 ::
    "'t env \<Rightarrow> str \<Rightarrow> str \<Rightarrow> 't client \<Rightarrow> (smtp_error + unit) \<times> 't client" where
  "run_auth_xoauth2 env user token c =
     and_then (write_all env
       (lit ''AUTH XOAUTH2 '' @ build_xoauth2_initial_response user token @ CRLF) c) (\<lambda>_ c.
     and_then (read_reply env c) (\<lambda>r c.
       if r_code r = 235 then (Ok (), c)
       else if r_code r = 334 then
         and_then (write_all env CRLF c) (\<lambda>_ c.
         and_then (read_reply env c) (\<lambda>final c. abort_with (rejected final) c))
       else abort_with (auth_refused OpAuthXOAuth2 2 r) c))"

definition run_auth_oauthbearer ::
    "'t env \<Rightarrow> str \<Rightarrow> str \<Rightarrow> 't client \<Rightarrow> (smtp_error + unit) \<times> 't client" where
  "run_auth_oauthbearer env user token c =
     and_then (write_all env
       (lit ''AUTH OAUTHBEARER '' @ build_oauthbearer_initial_response user token @ CRLF) c) (\<lambda>_ c.
     and_then (read_reply env c) (\<lambda>r c.
       if r_code r = 235 then (Ok (), c)
       else if r_code r = 334 then
         and_then (write_all env (1 # CRLF) c) (\<lambda>_ c.
         and_then (read_reply env c) (\<lambda>final c. abort_with (rejected final) c))
       else abort_with (auth_refused OpAuthOAuthBearer 2 r) c))"

definition scram_verify_server_final ::
    "str \<Rightarrow> byte list \<Rightarrow> 't client \<Rightarrow> (smtp_error + unit) \<times> 't client" where
  "scram_verify_server_final server_final_b64 expected_signature c =
     (case base64_decode server_final_b64 of
        Err _ \<Rightarrow> abort_with (malformed_challenge ''SCRAM server-final not valid base64'') c
      | Ok bytes \<Rightarrow>
     (case from_utf8 bytes of
        None \<Rightarrow> abort_with (malformed_challenge ''SCRAM server-final not valid UTF-8'') c
      | Some s \<Rightarrow>
     (case verify_server_final s expected_signature of
        Err e \<Rightarrow> abort_with (Auth e) c
      | Ok u \<Rightarrow> (Ok (), c))))"

text \<open>Step 4 of the SCRAM exchange: the reply to the client-final message.\<close>

definition scram_finish ::
    "'t env \<Rightarrow> byte list \<Rightarrow> reply \<Rightarrow> 't client \<Rightarrow> (smtp_error + unit) \<times> 't client" where
  "scram_finish env signature r c =
     (if r_code r = 334 then
        and_then (scram_verify_server_final (joined_text r) signature c) (\<lambda>_ c.
        and_then (write_all env CRLF c) (\<lambda>_ c.
        and_then (on_error convert_auth (expect_code env 235 OpAuthScramSha256 c)) (\<lambda>_ c.
        (Ok (), c))))
      else if r_code r = 235 then scram_verify_server_final (joined_text r) signature c
      else abort_with (auth_refused OpAuthScramSha256 2 r) c)"

text \<open>Steps 2 and 3: the server-first message, and the answer to it.\<close>

definition scram_answer ::
    "'t env \<Rightarrow> str \<Rightarrow> str \<Rightarrow> str \<Rightarrow> reply \<Rightarrow> 't client \<Rightarrow> (smtp_error + unit) \<times> 't client" where
  "scram_answer env user password client_nonce r c =
     (case base64_decode (joined_text r) of
        Err _ \<Rightarrow> abort_with (malformed_challenge ''SCRAM server-first not valid base64'') c
      | Ok bytes \<Rightarrow>
     (case from_utf8 bytes of
        None \<Rightarrow> abort_with (malformed_challenge ''SCRAM server-first not valid UTF-8'') c
      | Some raw \<Rightarrow>
     (case parse_server_first raw client_nonce of
        Err e \<Rightarrow> abort_with (Auth e) c
      | Ok sf \<Rightarrow>
          let cf = compute_client_final (e_crypto env) user password client_nonce sf raw
          in and_then (write_all env (base64_encode (cf_message cf) @ CRLF) c) (\<lambda>_ c.
             and_then (read_reply env c) (\<lambda>r c.
             scram_finish env (expected_server_signature cf) r c)))))"

definition run_auth_scram_sha256 ::
    "'t env \<Rightarrow> str \<Rightarrow> str \<Rightarrow> 't client \<Rightarrow> (smtp_error + unit) \<times> 't client" where
  "run_auth_scram_sha256 env user password c =
     (case generate_client_nonce (e_entropy env) of
        Err e \<Rightarrow> (Err (Auth e), c)
      | Ok client_nonce \<Rightarrow>
          and_then (write_all env (lit ''AUTH SCRAM-SHA-256 ''
             @ base64_encode (build_client_first user client_nonce) @ CRLF) c) (\<lambda>_ c.
          and_then (read_reply env c) (\<lambda>r c.
            if r_code r \<noteq> 334 then abort_with (auth_refused OpAuthScramSha256 3 r) c
            else scram_answer env user password client_nonce r c)))"

subsection \<open>Login\<close>

definition not_compiled_in :: "invalid_input_error + unit" where
  "not_compiled_in = Err (InvalidInputError (lit ''the requested AUTH mechanism is not compiled in''))"

definition both :: "'e + unit \<Rightarrow> 'e + unit \<Rightarrow> 'e + unit" where
  "both a b = (case a of Err e \<Rightarrow> Err e | Ok u \<Rightarrow> b)"

definition validate_credentials ::
    "features \<Rightarrow> auth_mechanism \<Rightarrow> str \<Rightarrow> str \<Rightarrow> invalid_input_error + unit" where
  "validate_credentials f mechanism user credential = (case mechanism of
     Plain \<Rightarrow> both (validate_plain_username user) (validate_plain_password credential)
   | Login \<Rightarrow> both (validate_plain_username user) (validate_plain_password credential)
   | XOAuth2 \<Rightarrow>
       if xoauth2 f then both (validate_xoauth2_user user) (validate_oauth2_token credential)
       else not_compiled_in
   | OAuthBearer \<Rightarrow> if oauthbearer f then validate_oauth2_token credential else not_compiled_in
   | ScramSha256 \<Rightarrow>
       if scram_sha_256 f
       then both (validate_plain_username user) (validate_plain_password credential)
       else not_compiled_in)"

definition run_mechanism ::
    "'t env \<Rightarrow> auth_mechanism \<Rightarrow> str \<Rightarrow> str \<Rightarrow> 't client \<Rightarrow> (smtp_error + unit) \<times> 't client" where
  "run_mechanism env mechanism user credential c = (case mechanism of
     Plain \<Rightarrow> run_auth_plain env user credential c
   | Login \<Rightarrow> run_auth_login env user credential c
   | XOAuth2 \<Rightarrow> run_auth_xoauth2 env user credential c
   | OAuthBearer \<Rightarrow> run_auth_oauthbearer env user credential c
   | ScramSha256 \<Rightarrow> run_auth_scram_sha256 env user credential c)"

definition login_with ::
    "'t env \<Rightarrow> auth_mechanism \<Rightarrow> str \<Rightarrow> str \<Rightarrow> 't client \<Rightarrow> (smtp_error + unit) \<times> 't client" where
  "login_with env mechanism user credential c =
     and_then (check (map_err InvalidInput
       (validate_credentials (e_features env) mechanism user credential)) c) (\<lambda>_ c.
     and_then (assert_state_in [Authentication] c) (\<lambda>_ c.
     if \<not> ehlo_advertises_auth (capabilities c) (mechanism_name mechanism) then
       abort_with (Auth UnsupportedMechanism) c
     else
       and_then (run_mechanism env mechanism user credential c) (\<lambda>_ c.
       and_then (transition MailFrom c) (\<lambda>_ c.
       and_then (emit (AuthCompleted (mechanism_name mechanism)) c) (\<lambda>_ c. (Ok (), c))))))"

definition login ::
    "'t env \<Rightarrow> str \<Rightarrow> str \<Rightarrow> 't client \<Rightarrow> (smtp_error + unit) \<times> 't client" where
  "login env user pass c =
     (case select_auth_mechanism (e_features env) (capabilities c) of
        Some mech \<Rightarrow> login_with env mech user pass c
      | None \<Rightarrow>
          and_then (check (map_err InvalidInput (validate_plain_username user)) c) (\<lambda>_ c.
          and_then (check (map_err InvalidInput (validate_plain_password pass)) c) (\<lambda>_ c.
          and_then (assert_state_in [Authentication] c) (\<lambda>_ c.
          abort_with (Auth UnsupportedMechanism) c))))"

definition login_xoauth2 ::
    "'t env \<Rightarrow> str \<Rightarrow> str \<Rightarrow> 't client \<Rightarrow> (smtp_error + unit) \<times> 't client" where
  "login_xoauth2 env user access_token c = login_with env XOAuth2 user access_token c"

definition login_oauthbearer ::
    "'t env \<Rightarrow> str \<Rightarrow> str \<Rightarrow> 't client \<Rightarrow> (smtp_error + unit) \<times> 't client" where
  "login_oauthbearer env user access_token c = login_with env OAuthBearer user access_token c"

subsection \<open>What every operation respects\<close>

context speaking_relation
begin

lemma R_on_error: "R c (snd p) \<Longrightarrow> R c (snd (on_error f p))"
  by (simp add: on_error_def)

lemma R_scram_verify: "R c (snd (scram_verify_server_final s e c))"
  by (auto simp: scram_verify_server_final_def R_abort refl split: sum.splits option.splits)

lemma R_scram_finish: "R c (snd (scram_finish env s r c))"
  unfolding scram_finish_def by (intro rel_intros R_on_error R_scram_verify)

lemma R_scram_answer: "R c (snd (scram_answer env u p n r c))"
proof -
  have "R c (snd (and_then (write_all env b c) (\<lambda>_ c.
             and_then (read_reply env c) (\<lambda>r c. scram_finish env s r c))))" for b s
    by (intro rel_intros R_scram_finish)
  then show ?thesis
    by (auto simp: scram_answer_def R_abort Let_def split: sum.splits option.splits)
qed

lemma R_run_mechanism: "R c (snd (run_mechanism env m u p c))"
proof -
  have "R c (snd (run_auth_plain env u p c))"
    unfolding run_auth_plain_def by (intro rel_intros R_on_error)
  moreover have "R c (snd (run_auth_login env u p c))"
    unfolding run_auth_login_def by (intro rel_intros R_on_error)
  moreover have "R c (snd (run_auth_xoauth2 env u p c))"
    unfolding run_auth_xoauth2_def by (intro rel_intros)
  moreover have "R c (snd (run_auth_oauthbearer env u p c))"
    unfolding run_auth_oauthbearer_def by (intro rel_intros)
  moreover have "R c (snd (run_auth_scram_sha256 env u p c))"
  proof (cases "generate_client_nonce (e_entropy env)")
    case (Inl e)
    then show ?thesis by (simp add: run_auth_scram_sha256_def refl)
  next
    case (Inr n)
    then show ?thesis
      unfolding run_auth_scram_sha256_def Inr sum.case by (intro rel_intros R_scram_answer)
  qed
  ultimately show ?thesis by (cases m) (simp_all add: run_mechanism_def)
qed

lemma R_login_with: "R c (snd (login_with env m u p c))"
  unfolding login_with_def by (intro rel_intros R_run_mechanism)

lemma R_login: "R c (snd (login env u p c))"
proof (cases "select_auth_mechanism (e_features env) (capabilities c)")
  case None
  show ?thesis unfolding login_def None option.case by (intro rel_intros)
next
  case (Some m)
  then show ?thesis by (simp add: login_def R_login_with)
qed

end

subsection \<open>How each exchange ends\<close>

lemma holds_on_error:
  "holds p Q E \<Longrightarrow> (\<And>e d. E e d \<Longrightarrow> E' (f e) d) \<Longrightarrow> holds (on_error f p) Q E'"
  by (cases p; cases "fst p") (auto simp: on_error_def)

lemma fatal_convert: "fatal e \<Longrightarrow> fatal (convert_auth e)"
  by (auto simp: convert_auth_def no_entropy_def auth_other_def
        split: smtp_error.splits protocol_error.splits)

lemma failed_convert: "failed c e d \<Longrightarrow> failed c (convert_auth e) d"
  by (simp add: failed_def fatal_convert)

lemma auth_errors_fatal [simp]:
  "fatal (rejected r)" "fatal (auth_refused during k r)" "fatal (malformed_challenge s)"
  "UnsupportedMechanism \<noteq> no_entropy"
  by (simp_all add: rejected_def auth_refused_def malformed_challenge_def no_entropy_def auth_other_def)

text \<open>Steps of an exchange: nothing changes but the connection, or the session has failed.\<close>

lemma quiet_step:
  assumes "quiet c0 c" and "state c0 \<noteq> Closed"
    and "state c \<noteq> Closed \<Longrightarrow> holds p (\<lambda>_. quiet c) (failed c)"
    and "\<And>a d. quiet c0 d \<Longrightarrow> holds (k a d) Q (failed c0)"
  shows "holds (and_then p k) Q (failed c0)"
proof (rule holds_and_then)
  have "state c \<noteq> Closed" using assms(1,2) by (simp add: quiet_def)
  then show "holds p (\<lambda>_. quiet c0) (failed c0)"
    by (rule holds_weaken [OF assms(3)]) (auto intro: quiet_trans failed_quiet assms(1))
qed (rule assms(4))

lemma quiet_write:
  "quiet c0 c \<Longrightarrow> state c0 \<noteq> Closed \<Longrightarrow> (\<And>d. quiet c0 d \<Longrightarrow> holds (k () d) Q (failed c0)) \<Longrightarrow>
   holds (and_then (write_all env b c) k) Q (failed c0)"
  by (rule quiet_step) (auto intro: write_all_spec)

lemma quiet_read:
  "quiet c0 c \<Longrightarrow> state c0 \<noteq> Closed \<Longrightarrow> (\<And>r d. quiet c0 d \<Longrightarrow> holds (k r d) Q (failed c0)) \<Longrightarrow>
   holds (and_then (read_reply env c) k) Q (failed c0)"
  by (rule quiet_step) (auto intro: read_reply_spec)

lemma expect_auth_spec:
  "state c \<noteq> Closed \<Longrightarrow>
   holds (on_error convert_auth (expect_code env n during c)) (\<lambda>_. quiet c) (failed c)"
  by (rule holds_on_error [OF holds_weaken [OF expect_code_spec]]) (auto intro: failed_convert)

lemma quiet_expect_auth:
  "quiet c0 c \<Longrightarrow> state c0 \<noteq> Closed \<Longrightarrow> (\<And>r d. quiet c0 d \<Longrightarrow> holds (k r d) Q (failed c0)) \<Longrightarrow>
   holds (and_then (on_error convert_auth (expect_code env n during c)) k) Q (failed c0)"
  by (rule quiet_step) (auto intro: expect_auth_spec)

lemma quiet_done: "quiet c0 c \<Longrightarrow> holds (Ok u, c) (\<lambda>_. quiet c0) E"
  by simp

lemma quiet_abort:
  "quiet c0 c \<Longrightarrow> state c0 \<noteq> Closed \<Longrightarrow> fatal e \<Longrightarrow> holds (abort_with e c) Q (failed c0)"
  by (rule abort_quiet_spec)

lemmas quiet_steps =
  quiet_write quiet_read quiet_expect_auth quiet_done quiet_abort holds_if auth_errors_fatal

lemma scram_errors_fatal [simp]:
  "auth_other ''malformed server-first message'' \<noteq> no_entropy"
  "auth_other ''server iteration count not a u32'' \<noteq> no_entropy"
  "auth_other ''server requested an unsupported SCRAM extension'' \<noteq> no_entropy"
  "auth_other ''server-first missing r='' \<noteq> no_entropy"
  "auth_other ''server-first missing s='' \<noteq> no_entropy"
  "auth_other ''server-first missing i='' \<noteq> no_entropy"
  "auth_other ''server nonce does not start with client nonce'' \<noteq> no_entropy"
  "auth_other ''server iteration count outside acceptable range'' \<noteq> no_entropy"
  "auth_other ''server-first salt is not valid base64'' \<noteq> no_entropy"
  "auth_other ''server rejected SCRAM exchange'' \<noteq> no_entropy"
  "auth_other ''server-final missing v='' \<noteq> no_entropy"
  "auth_other ''server-final v= is not valid base64'' \<noteq> no_entropy"
  "auth_other ''server-final v= is not 32 bytes'' \<noteq> no_entropy"
  "auth_other ''server signature did not verify'' \<noteq> no_entropy"
  by (simp_all add: no_entropy_def auth_other_def lit_def)

lemma scan_first_attrs_fatal: "scan_first_attrs acc attrs = Err e \<Longrightarrow> e \<noteq> no_entropy"
proof (induction attrs arbitrary: acc)
  case (Cons attr attrs)
  then show ?case by (cases acc) (auto split: option.splits if_splits)
qed simp

lemma parse_server_first_fatal: "parse_server_first raw n = Err e \<Longrightarrow> e \<noteq> no_entropy"
  by (auto simp: parse_server_first_def dest: scan_first_attrs_fatal
        split: sum.splits option.splits if_splits)

lemma verify_server_final_fatal: "verify_server_final s x = Err e \<Longrightarrow> e \<noteq> no_entropy"
  by (auto simp: verify_server_final_def split: sum.splits option.splits if_splits)

text \<open>What a successful SCRAM exchange has verified.\<close>

definition scram_verified :: "'t env \<Rightarrow> str \<Rightarrow> str \<Rightarrow> bool" where
  "scram_verified env user password \<longleftrightarrow>
     (\<exists>nonce raw sf final. generate_client_nonce (e_entropy env) = Ok nonce \<and>
        parse_server_first raw nonce = Ok sf \<and>
        verify_server_final final (expected_server_signature
          (compute_client_final (e_crypto env) user password nonce sf raw)) = Ok ())"

lemma scram_verify_spec:
  assumes "quiet c0 c" and "state c0 \<noteq> Closed"
  shows "holds (scram_verify_server_final s sig c)
     (\<lambda>_ d. quiet c0 d \<and> (\<exists>final. verify_server_final final sig = Ok ())) (failed c0)"
  using verify_server_final_fatal
  by (auto simp: scram_verify_server_final_def assms quiet_abort
        split: sum.splits option.splits)

lemma scram_finish_spec:
  assumes "quiet c0 c" and "state c0 \<noteq> Closed"
  shows "holds (scram_finish env sig r c)
     (\<lambda>_ d. quiet c0 d \<and> (\<exists>final. verify_server_final final sig = Ok ())) (failed c0)"
proof -
  let ?V = "\<exists>final. verify_server_final final sig = Ok ()"
  have "holds (and_then (scram_verify_server_final (joined_text r) sig c) (\<lambda>_ c.
        and_then (write_all env CRLF c) (\<lambda>_ c.
        and_then (on_error convert_auth (expect_code env 235 OpAuthScramSha256 c)) (\<lambda>_ c.
        (Ok (), c)))))
     (\<lambda>_ d. quiet c0 d \<and> ?V) (failed c0)"
  proof (rule holds_and_then [OF scram_verify_spec [OF assms]])
    fix d assume d: "quiet c0 d \<and> ?V"
    then have "quiet c0 d" ..
    show "holds (and_then (write_all env CRLF d) (\<lambda>_ c.
        and_then (on_error convert_auth (expect_code env 235 OpAuthScramSha256 c)) (\<lambda>_ c.
        (Ok (), c)))) (\<lambda>_ d. quiet c0 d \<and> ?V) (failed c0)"
      by (rule quiet_write [OF \<open>quiet c0 d\<close> assms(2)], rule quiet_expect_auth [OF _ assms(2)])
         (use d in simp_all)
  qed
  then show ?thesis
    by (auto simp: scram_finish_def scram_verify_spec [OF assms] quiet_abort [OF assms])
qed

lemma run_auth_scram_spec:
  assumes "state c \<noteq> Closed"
  shows "holds (run_auth_scram_sha256 env u p c) (\<lambda>_ d. quiet c d \<and> scram_verified env u p)
     (\<lambda>e d. failed c e d \<or> e = Auth no_entropy \<and> d = c)"
proof (cases "generate_client_nonce (e_entropy env)")
  case (Inl e)
  then show ?thesis
    by (auto simp: run_auth_scram_sha256_def generate_client_nonce_def no_entropy_def
          split: option.splits)
next
  case nonce: (Inr n)
  have answer: "holds (scram_answer env u p n r d)
      (\<lambda>_ d. quiet c d \<and> scram_verified env u p) (failed c)"
    if q: "quiet c d" for r d
  proof -
    have step: "holds (and_then (write_all env b d) (\<lambda>_ c. and_then (read_reply env c)
          (\<lambda>r c. scram_finish env (expected_server_signature
             (compute_client_final (e_crypto env) u p n sf raw)) r c)))
        (\<lambda>_ d. quiet c d \<and> scram_verified env u p) (failed c)"
      if "parse_server_first raw n = Ok sf" for b raw sf
      by (rule quiet_write [OF q assms], rule quiet_read [OF _ assms], assumption)
         (rule holds_weaken [OF scram_finish_spec [OF _ assms]],
          use that nonce in \<open>auto simp: scram_verified_def\<close>)
    show ?thesis
      unfolding scram_answer_def
      using parse_server_first_fatal
      by (auto simp: q assms quiet_abort Let_def step split: sum.splits option.splits)
  qed
  have "holds (run_auth_scram_sha256 env u p c)
      (\<lambda>_ d. quiet c d \<and> scram_verified env u p) (failed c)"
    unfolding run_auth_scram_sha256_def nonce sum.case
    by (rule quiet_write [OF quiet_refl assms], rule quiet_read [OF _ assms], assumption,
        rule holds_if, rule quiet_abort [OF _ assms])
       (auto intro: answer)
  then show ?thesis by (rule holds_weaken) auto
qed

lemma run_mechanism_spec:
  assumes "state c \<noteq> Closed"
  shows "holds (run_mechanism env m u p c)
     (\<lambda>_ d. quiet c d \<and> (m = ScramSha256 \<longrightarrow> scram_verified env u p))
     (\<lambda>e d. failed c e d \<or> e = Auth no_entropy \<and> d = c)"
proof (cases "m = ScramSha256")
  case True
  show ?thesis
    by (rule holds_weaken)
       (use run_auth_scram_spec [OF assms, of env u p] True in \<open>auto simp: run_mechanism_def\<close>)
next
  case False
  have "holds (run_auth_plain env u p c) (\<lambda>_. quiet c) (failed c)"
    unfolding run_auth_plain_def by (rule quiet_refl assms quiet_steps | assumption)+
  moreover have "holds (run_auth_login env u p c) (\<lambda>_. quiet c) (failed c)"
    unfolding run_auth_login_def by (rule quiet_refl assms quiet_steps | assumption)+
  moreover have "holds (run_auth_xoauth2 env u p c) (\<lambda>_. quiet c) (failed c)"
    unfolding run_auth_xoauth2_def by (rule quiet_refl assms quiet_steps | assumption)+
  moreover have "holds (run_auth_oauthbearer env u p c) (\<lambda>_. quiet c) (failed c)"
    unfolding run_auth_oauthbearer_def by (rule quiet_refl assms quiet_steps | assumption)+
  ultimately have "holds (run_mechanism env m u p c) (\<lambda>_. quiet c) (failed c)"
    using False by (cases m) (simp_all add: run_mechanism_def)
  then show ?thesis by (rule holds_weaken) (simp_all add: False)
qed

subsection \<open>How a login ends\<close>

text \<open>A call on an open session that fails: either fatally, or without any effect.\<close>

definition failed_or_unchanged :: "'t client \<Rightarrow> smtp_error \<Rightarrow> 't client \<Rightarrow> bool" where
  "failed_or_unchanged c e d \<longleftrightarrow> failed c e d \<or> \<not> fatal e \<and> d = c"

lemma holds_check_input:
  "holds (k () c) Q (failed_or_unchanged c) \<Longrightarrow>
   holds (and_then (check (map_err InvalidInput r) c) k) Q (failed_or_unchanged c)"
  by (cases r) (simp_all add: failed_or_unchanged_def)

lemma holds_assert_state:
  "(state c \<in> set ss \<Longrightarrow> holds (k () c) Q (failed_or_unchanged c)) \<Longrightarrow>
   holds (and_then (assert_state_in ss c) k) Q (failed_or_unchanged c)"
  by (auto simp: assert_state_in_def failed_or_unchanged_def)

lemma abort_unchanged_spec:
  "state c \<noteq> Closed \<Longrightarrow> fatal e \<Longrightarrow> holds (abort_with e c) Q (failed_or_unchanged c)"
  by (rule holds_weaken [OF abort_spec]) (simp_all add: failed_or_unchanged_def)

definition logged_in :: "'t env \<Rightarrow> auth_mechanism \<Rightarrow> str \<Rightarrow> str \<Rightarrow> 't client \<Rightarrow> 't client \<Rightarrow> bool" where
  "logged_in env m user credential c d \<longleftrightarrow>
     state c = Authentication \<and> state d = MailFrom \<and>
     ehlo_advertises_auth (capabilities c) (mechanism_name m) \<and> capabilities d = capabilities c \<and>
     audit d = audit c @ [AuthCompleted (mechanism_name m)] \<and>
     (m = ScramSha256 \<longrightarrow> scram_verified env user credential)"

lemma login_with_spec:
  "holds (login_with env m user cred c) (\<lambda>_. logged_in env m user cred c) (failed_or_unchanged c)"
  unfolding login_with_def
proof (rule holds_check_input, rule holds_assert_state, rule holds_if)
  assume "state c \<in> set [Authentication]"
  then show "holds (abort_with (Auth UnsupportedMechanism) c)
      (\<lambda>_. logged_in env m user cred c) (failed_or_unchanged c)"
    by (intro abort_unchanged_spec) auto
next
  assume st: "state c \<in> set [Authentication]"
    and adv: "\<not> \<not> ehlo_advertises_auth (capabilities c) (mechanism_name m)"
  then have "state c \<noteq> Closed" by auto
  from run_mechanism_spec [OF this]
  have "holds (run_mechanism env m user cred c)
     (\<lambda>_ d. quiet c d \<and> (m = ScramSha256 \<longrightarrow> scram_verified env user cred))
     (failed_or_unchanged c)"
    by (rule holds_weaken) (auto simp: failed_or_unchanged_def)
  then show "holds (and_then (run_mechanism env m user cred c) (\<lambda>_ c.
       and_then (transition MailFrom c) (\<lambda>_ c.
       and_then (emit (AuthCompleted (mechanism_name m)) c) (\<lambda>_ c. (Ok (), c)))))
     (\<lambda>_. logged_in env m user cred c) (failed_or_unchanged c)"
    by (rule holds_and_then)
       (use st adv in \<open>auto simp: transition_def can_transition_to_def emit_def on_event_def
          logged_in_def quiet_def\<close>)
qed

text \<open>Nothing is sent, and nothing read, unless the call passes all the checks.\<close>

lemma login_with_connection:
  "transport (snd (login_with env m user cred c)) = transport c \<or>
   validate_credentials (e_features env) m user cred = Ok () \<and> state c = Authentication \<and>
   ehlo_advertises_auth (capabilities c) (mechanism_name m)"
proof (cases "validate_credentials (e_features env) m user cred")
  case (Inl e)
  then show ?thesis by (simp add: login_with_def)
next
  case (Inr u)
  then show ?thesis
    by (auto simp: login_with_def assert_state_in_def abort_with_def mark_closed_def on_event_def)
qed

lemma select_is_advertised:
  "select_auth_mechanism f caps = Some m \<Longrightarrow> ehlo_advertises_auth caps (mechanism_name m)"
  by (auto simp: select_auth_mechanism_def split: if_splits)

subsection \<open>An honest server\<close>

lemma b64_line_ok: "length xs \<le> 744 \<Longrightarrow> line_ok (base64_encode xs)"
proof -
  assume "length xs \<le> 744"
  then have "length (base64_encode xs) + 4 \<le> MAX_REPLY_LINE_LEN"
    by (simp add: length_base64_encode MAX_REPLY_LINE_LEN_def)
  moreover have "CR \<notin> set (base64_encode xs)" using base64_encode_clean [of xs] by blast
  ultimately show ?thesis by (simp add: line_ok_def valid_utf8_ascii is_ascii_base64_encode)
qed

text \<open>What an RFC 5802 server says to a client that has sent its first message.\<close>

definition scram_script :: "str \<Rightarrow> str \<Rightarrow> byte list" where
  "scram_script raw final =
     render_reply 334 [base64_encode raw] @ render_reply 334 [base64_encode final] @
     render_reply 235 [lit ''ok'']"

text \<open>What the client sends to it.\<close>

definition scram_sent :: "str \<Rightarrow> str \<Rightarrow> client_final \<Rightarrow> byte list" where
  "scram_sent user nonce cf =
     lit ''AUTH SCRAM-SHA-256 '' @ base64_encode (build_client_first user nonce) @ CRLF @
     base64_encode (cf_message cf) @ CRLF @ CRLF"

context client_talk
begin

lemma expect_auth_ok:
  assumes "at c0 s w c" and "state c0 \<noteq> Closed"
    and "stream_reply (enhanced_status_enabled c0) [] None s = Ok (r, s')" and "r_code r = n"
    and "\<And>d. at c0 s' w d \<Longrightarrow> holds (k r d) Q (\<lambda>_ _. False)"
  shows "holds (and_then (on_error convert_auth (expect_code env n during c)) k)
     Q (\<lambda>_ _. False)"
proof -
  have "holds (and_then (expect_code env n during c) (\<lambda>r' d. (Ok r', d)))
      (\<lambda>r' d. r' = r \<and> at c0 s' w d) (\<lambda>_ _. False)"
    by (rule talk_expect_code [OF assms(1-4)]) simp
  then obtain d where "expect_code env n during c = (Ok r, d)" "at c0 s' w d"
    by (auto simp: holds_def and_then_def split: prod.splits sum.splits)
  then show ?thesis using assms(5) by (simp add: on_error_def)
qed

lemma auth_plain_completes:
  assumes "at c (render_reply 235 ls @ s) w c" and "state c \<noteq> Closed"
    and "ls \<noteq> []" and "list_all line_ok ls" and "length ls \<le> MAX_REPLY_LINES"
  shows "holds (run_auth_plain env user pass c)
     (\<lambda>_. at c s (w @ lit ''AUTH PLAIN '' @ build_auth_plain_initial_response user pass @ CRLF))
     (\<lambda>_ _. False)"
proof -
  have r: "stream_reply (enhanced_status_enabled c) [] None (render_reply 235 ls @ s) =
      Ok (finish_reply (enhanced_status_enabled c) 235 ls, s)"
    using stream_reply_rendered [of 235 ls] assms(3-5) by simp
  show ?thesis
    unfolding run_auth_plain_def
    by (rule talk_write [OF assms(1)], rule expect_auth_ok [OF _ assms(2) r]) simp_all
qed

lemma auth_oauthbearer_completes:
  assumes "at c (render_reply 235 ls @ s) w c" and "state c \<noteq> Closed"
    and "ls \<noteq> []" and "list_all line_ok ls" and "length ls \<le> MAX_REPLY_LINES"
  shows "holds (run_auth_oauthbearer env user token c)
     (\<lambda>_. at c s (w @ lit ''AUTH OAUTHBEARER '' @ build_oauthbearer_initial_response user token @ CRLF))
     (\<lambda>_ _. False)"
proof -
  have r: "stream_reply (enhanced_status_enabled c) [] None (render_reply 235 ls @ s) =
      Ok (finish_reply (enhanced_status_enabled c) 235 ls, s)"
    using stream_reply_rendered [of 235 ls] assms(3-5) by simp
  show ?thesis
    unfolding run_auth_oauthbearer_def
    by (rule talk_write [OF assms(1)], rule talk_read_ok [OF _ assms(2) r]) simp_all
qed

text \<open>A login whose exchange succeeds, on a client that may log in.\<close>

lemma login_with_completes:
  assumes at: "at c0 s0 w0 c" and "state c0 = Authentication"
    and "validate_credentials (e_features env) m user cred = Ok ()"
    and "ehlo_advertises_auth (capabilities c0) (mechanism_name m)"
    and run: "holds (run_mechanism env m user cred c) (\<lambda>_. at c s w) (\<lambda>_ _. False)"
  shows "holds (login_with env m user cred c)
     (\<lambda>_. at (on_event (AuthCompleted (mechanism_name m)) (c0\<lparr>state := MailFrom\<rparr>)) s w)
     (\<lambda>_ _. False)"
proof -
  have c: "state c = Authentication" "capabilities c = capabilities c0"
    using assms(1,2) by (auto simp: follows_def quiet_def)
  obtain d where d: "run_mechanism env m user cred c = (Ok (), d)" and hd: "at c s w d"
    using run by (auto simp: holds_def split: prod.splits sum.splits)
  have "at (on_event (AuthCompleted (mechanism_name m)) (c0\<lparr>state := MailFrom\<rparr>)) s w
      (on_event (AuthCompleted (mechanism_name m)) (d\<lparr>state := MailFrom\<rparr>))"
    using hd at by (auto simp: follows_def quiet_def on_event_def unread_def)
  moreover have "state d = Authentication" using hd c by (simp add: follows_def quiet_def)
  ultimately show ?thesis
    using d c assms(3,4)
    by (simp add: login_with_def assert_state_in_def transition_def can_transition_to_def emit_def)
qed

lemma at_self: "at c0 s w c \<Longrightarrow> at c s w c"
  by (auto simp: follows_def quiet_def)

text \<open>A login over PLAIN or OAUTHBEARER, from the server's side one reply.\<close>

lemma login_plain_completes:
  assumes at: "at c0 (render_reply 235 ls @ s) w c" and "state c0 = Authentication"
    and ls: "ls \<noteq> []" "list_all line_ok ls" "length ls \<le> MAX_REPLY_LINES"
    and "validate_credentials (e_features env) Plain user pass = Ok ()"
    and "ehlo_advertises_auth (capabilities c0) (mechanism_name Plain)"
  shows "holds (login_with env Plain user pass c)
     (\<lambda>_. at (on_event (AuthCompleted (mechanism_name Plain)) (c0\<lparr>state := MailFrom\<rparr>)) s
        (w @ lit ''AUTH PLAIN '' @ build_auth_plain_initial_response user pass @ CRLF))
     (\<lambda>_ _. False)"
proof (rule login_with_completes [OF at assms(2,6,7)])
  have "state c \<noteq> Closed" using at assms(2) by (auto simp: follows_def quiet_def)
  from auth_plain_completes [OF at_self [OF at] this ls]
  show "holds (run_mechanism env Plain user pass c)
      (\<lambda>_. at c s (w @ lit ''AUTH PLAIN '' @ build_auth_plain_initial_response user pass @ CRLF))
      (\<lambda>_ _. False)" by (simp add: run_mechanism_def)
qed

lemma login_oauthbearer_completes:
  assumes at: "at c0 (render_reply 235 ls @ s) w c" and "state c0 = Authentication"
    and ls: "ls \<noteq> []" "list_all line_ok ls" "length ls \<le> MAX_REPLY_LINES"
    and "oauthbearer (e_features env)" and "validate_oauth2_token token = Ok ()"
    and "ehlo_advertises_auth (capabilities c0) (mechanism_name OAuthBearer)"
  shows "holds (login_oauthbearer env user token c)
     (\<lambda>_. at (on_event (AuthCompleted (mechanism_name OAuthBearer)) (c0\<lparr>state := MailFrom\<rparr>)) s
        (w @ lit ''AUTH OAUTHBEARER '' @ build_oauthbearer_initial_response user token @ CRLF))
     (\<lambda>_ _. False)"
  unfolding login_oauthbearer_def
proof (rule login_with_completes [OF at assms(2) _ assms(8)])
  have "state c \<noteq> Closed" using at assms(2) by (auto simp: follows_def quiet_def)
  from auth_oauthbearer_completes [OF at_self [OF at] this ls]
  show "holds (run_mechanism env OAuthBearer user token c)
      (\<lambda>_. at c s (w @ lit ''AUTH OAUTHBEARER '' @ build_oauthbearer_initial_response user token @ CRLF))
      (\<lambda>_ _. False)" by (simp add: run_mechanism_def)
qed (simp add: validate_credentials_def assms(6,7))

end

text \<open>The three replies of such an exchange, as the client reads them.\<close>

lemma scram_script_replies:
  fixes rest :: "byte list"
  assumes raw: "length raw \<le> 744" and final: "final = lit ''v='' @ base64_encode sig" "length sig = 32"
  defines "s3 \<equiv> render_reply 235 [lit ''ok''] @ rest"
  defines "s2 \<equiv> render_reply 334 [base64_encode final] @ s3"
  shows "stream_reply enh [] None (scram_script raw final @ rest) =
      Ok (finish_reply enh 334 [base64_encode raw], s2)"
    and "stream_reply enh [] None s2 = Ok (finish_reply enh 334 [base64_encode final], s3)"
    and "stream_reply enh [] None s3 = Ok (finish_reply enh 235 [lit ''ok''], rest)"
    and "from_utf8 final = Some final"
proof -
  have reply: "stream_reply enh [] None (render_reply n [l] @ t) =
      Ok (finish_reply enh (of_nat n) [l], t)" if "n < 1000" "line_ok l" for n l t
    using stream_reply_rendered [of n "[l]"] that by (simp add: MAX_REPLY_LINES_def)
  have len: "length final = 46" using final by (simp add: length_base64_encode)
  have ok: "line_ok (lit ''ok'')"
    by (simp add: line_ok_def lit_def MAX_REPLY_LINE_LEN_def valid_utf8_ascii is_ascii_def)
  show "stream_reply enh [] None (scram_script raw final @ rest) =
      Ok (finish_reply enh 334 [base64_encode raw], s2)"
    using reply [OF _ b64_line_ok [OF raw], of 334 s2] by (simp add: scram_script_def s2_def s3_def)
  show "stream_reply enh [] None s2 = Ok (finish_reply enh 334 [base64_encode final], s3)"
    using reply [OF _ b64_line_ok, of 334 final s3] len by (simp add: s2_def)
  show "stream_reply enh [] None s3 = Ok (finish_reply enh 235 [lit ''ok''], rest)"
    using reply [OF _ ok, of 235 rest] by (simp add: s3_def)
  have "is_ascii final"
    using is_ascii_base64_encode [of sig] by (simp add: final is_ascii_def lit_def)
  then show "from_utf8 final = Some final" by (simp add: from_utf8_def valid_utf8_ascii)
qed

lemma scram_answer_completes:
  assumes at: "hears c (render_reply 334 [base64_encode final] @ render_reply 235 [lit ''ok''] @ rest) w d"
    and c: "state c \<noteq> Closed" and raw: "valid_utf8 raw" "length raw \<le> 744"
    and sf: "parse_server_first raw nonce = Ok sf"
    and cf: "cf = compute_client_final (e_crypto env) user password nonce sf raw"
    and final: "final = lit ''v='' @ base64_encode (expected_server_signature cf)"
      "length (expected_server_signature cf) = 32"
    and env: "env = mock_env f k ent um" and all: "v = w @ base64_encode (cf_message cf) @ CRLF @ CRLF"
  shows "holds (scram_answer env user password nonce (finish_reply enh 334 [base64_encode raw]) d)
     (\<lambda>_. hears c rest v) (\<lambda>_ _. False)"
proof -
  let ?sig = "expected_server_signature cf" and ?enh = "enhanced_status_enabled c"
  have verify: "verify_server_final final ?sig = Ok ()" using final verify_own_signature by simp
  note replies = scram_script_replies(2,3) [OF raw(2) final, where enh = ?enh and rest = rest]
  have utf: "from_utf8 final = Some final" by (rule scram_script_replies(4) [OF raw(2) final])
  show ?thesis
    unfolding scram_answer_def env using sf
  proof (simp add: from_utf8_def raw(1) Let_def cf [unfolded env, symmetric],
      intro mock_talk.talk_write [OF at] mock_talk.talk_read_ok [OF _ c replies(1)])
    fix d
    assume at: "hears c (render_reply 235 [lit ''ok''] @ rest) (w @ base64_encode (cf_message cf) @ CRLF) d"
    show "holds (scram_finish (mock_env f k ent um) ?sig (finish_reply ?enh 334 [base64_encode final]) d)
      (\<lambda>_. hears c rest v) (\<lambda>_ _. False)"
      unfolding scram_finish_def scram_verify_server_final_def using utf verify
      by (simp, intro mock_talk.talk_write [OF at] mock_talk.expect_auth_ok [OF _ c replies(2)]) (simp_all add: all)
  qed
qed

lemma scram_completes:
  assumes k: "crypto_ok k" and sf: "parse_server_first raw (base64_encode bytes) = Ok sf"
    and srv: "server_check k (enrol k password (sf_salt sf) (sf_iterations sf))
       (drop 3 (build_client_first user (base64_encode bytes))) raw (cf_message cf) = Some final"
    and cf: "cf = compute_client_final k user password (base64_encode bytes) sf raw"
    and raw: "valid_utf8 raw" "length raw \<le> 744"
    and c: "mock_ready (transport c)" "rx_ok c" "state c \<noteq> Closed"
    and says: "unread mock_bytes c = scram_script raw final @ rest"
  shows "holds (run_auth_scram_sha256 (mock_env f k (Some bytes) um) user password c)
     (\<lambda>_. hears c rest (m_written (transport c) @ scram_sent user (base64_encode bytes) cf))
     (\<lambda>_ _. False)"
proof -
  let ?env = "mock_env f k (Some bytes) um" and ?n = "base64_encode bytes"
  let ?sig = "expected_server_signature cf" and ?enh = "enhanced_status_enabled c"
  have final: "final = lit ''v='' @ base64_encode ?sig" "length ?sig = 32"
    using scram_exchange [OF k sf, where pw = password and user = user] srv cf by simp_all
  let ?S2 = "render_reply 334 [base64_encode final] @ render_reply 235 [lit ''ok''] @ rest"
  have r1: "stream_reply ?enh [] None (unread mock_bytes c) =
      Ok (finish_reply ?enh 334 [base64_encode raw], ?S2)"
    unfolding says by (rule scram_script_replies(1) [OF raw(2) final])
  have env: "e_entropy ?env = Some bytes" by (simp add: mock_env_def)
  have cf': "cf = compute_client_final (e_crypto ?env) user password ?n sf raw"
    using cf by (simp add: mock_env_def)
  show ?thesis
    unfolding run_auth_scram_sha256_def env generate_client_nonce_def option.case sum.case
  proof (rule mock_talk.talk_write [OF follows_start [OF c(1,2)]],
      rule mock_talk.talk_read_ok [OF _ c(3) r1], assumption)
    fix d
    assume "hears c ?S2 (m_written (transport c) @ lit ''AUTH SCRAM-SHA-256 '' @
      base64_encode (build_client_first user ?n) @ CRLF) d"
    from scram_answer_completes [OF this c(3) raw sf cf' final refl refl]
    show "holds (if r_code (finish_reply ?enh 334 [base64_encode raw]) \<noteq> 334
        then abort_with (auth_refused OpAuthScramSha256 3
            (finish_reply ?enh 334 [base64_encode raw])) d
        else scram_answer ?env user password ?n (finish_reply ?enh 334 [base64_encode raw]) d)
      (\<lambda>_. hears c rest (m_written (transport c) @ scram_sent user ?n cf)) (\<lambda>_ _. False)"
      by (simp add: scram_sent_def)
  qed
qed

definition carries :: "reply \<Rightarrow> str \<Rightarrow> bool" where
  "carries r s \<longleftrightarrow> base64_decode (joined_text r) = Ok s \<and> from_utf8 s = Some s"

lemma carriesI: "base64_decode (joined_text r) = Ok s \<Longrightarrow> valid_utf8 s \<Longrightarrow> carries r s"
  by (simp add: carries_def from_utf8_def)

lemma scram_verify_carries:
  "holds (scram_verify_server_final (joined_text r) sig d)
     (\<lambda>_ _. \<exists>final. carries r final \<and> verify_server_final final sig = Ok ()) (\<lambda>_ _. True)"
  by (auto simp: scram_verify_server_final_def carries_def abort_with_def from_utf8_def
        split: sum.splits)

lemma holds_ignoring:
  "holds p (\<lambda>_ _. P) (\<lambda>_ _. True) \<Longrightarrow> (P \<Longrightarrow> Q) \<Longrightarrow> holds (and_then p k) (\<lambda>_ _. Q) (\<lambda>_ _. True)"
  by (cases p; cases "fst p") (auto simp: holds_def split: prod.splits sum.splits)

lemma scram_finish_carries:
  "holds (scram_finish env sig r d)
     (\<lambda>_ _. r_code r \<in> {334, 235} \<and> (\<exists>final. carries r final \<and> verify_server_final final sig = Ok ()))
     (\<lambda>_ _. True)"
  unfolding scram_finish_def
  by (intro holds_if holds_ignoring [OF scram_verify_carries])
     (auto simp: abort_with_def intro: holds_weaken [OF scram_verify_carries])

text \<open>A session with such a server.\<close>

definition scram_bytes :: "byte list" where
  "scram_bytes = replicate 24 0"

definition scram_first :: str where
  "scram_first = lit ''r=AAAAAAAAAAAAAAAAAAAAAAAAAAAAAAAAXY,s=QUJD,i=4096''"

definition scram_params :: server_first where
  "scram_params = \<lparr>sf_nonce = lit ''AAAAAAAAAAAAAAAAAAAAAAAAAAAAAAAAXY'', sf_salt = lit ''ABC'',
     sf_iterations = 4096\<rparr>"

definition scram_answer_of :: "str \<Rightarrow> str \<Rightarrow> client_final" where
  "scram_answer_of user password =
     compute_client_final toy_crypto user password (base64_encode scram_bytes) scram_params scram_first"

definition scram_client :: "mock client" where
  "scram_client =
     (client_new (mock_new [scram_script scram_first (lit ''v='' @ base64_encode
          (expected_server_signature (scram_answer_of (lit ''u'') (lit ''pw''))))])
        (lit ''c'') default_policy [])
     \<lparr>state := Authentication, capabilities := [lit ''AUTH SCRAM-SHA-256'']\<rparr>"

abbreviation scram_env :: "mock env" where
  "scram_env \<equiv> mock_env default_features toy_crypto (Some scram_bytes) 0"

lemma scram_first_parsed:
  "parse_server_first scram_first (base64_encode scram_bytes) = Ok scram_params"
proof -
  have "split_char 44 scram_first =
      [lit ''r=AAAAAAAAAAAAAAAAAAAAAAAAAAAAAAAAXY'', lit ''s=QUJD'', lit ''i=4096'']"
    by (simp add: lit_def scram_first_def)
  moreover have "base64_decode (lit ''QUJD'') = Ok (lit ''ABC'')" by code_simp
  moreover have "parse_uint 4294967295 (lit ''4096'') = Some 4096"
    by (simp add: parse_uint_def lit_def is_ascii_digit_def)
  moreover have "base64_encode scram_bytes = lit ''AAAAAAAAAAAAAAAAAAAAAAAAAAAAAAAA''"
    by code_simp
  ultimately show ?thesis
    by (simp add: parse_server_first_def lit_def starts_with_def MIN_PBKDF2_ITERATIONS_def
          MAX_PBKDF2_ITERATIONS_def scram_params_def)
qed

lemma scram_client_facts:
  "mock_ready (transport scram_client)" "rx_ok scram_client" "state scram_client = Authentication"
  "m_written (transport scram_client) = []" "enhanced_status_enabled scram_client = False"
  "unread mock_bytes scram_client = scram_script scram_first (lit ''v='' @ base64_encode
     (expected_server_signature (scram_answer_of (lit ''u'') (lit ''pw''))))"
  by (simp_all add: scram_client_def client_new_def mock_new_def mock_build_def mock_ready_def
        rx_ok_def RX_BUF_COMPACT_THRESHOLD_def unread_def mock_bytes_def scram_script_def
        code_digits_def)

lemma scram_first_ok: "valid_utf8 scram_first" "length scram_first \<le> 744"
  by (rule valid_utf8_ascii, simp add: scram_first_def is_ascii_def lit_def)
     (simp add: scram_first_def)

lemma scram_server_ok:
  "server_check toy_crypto (enrol toy_crypto p (sf_salt scram_params) (sf_iterations scram_params))
     (drop 3 (build_client_first u (base64_encode scram_bytes))) scram_first
     (cf_message (scram_answer_of u p)) =
   Some (lit ''v='' @ base64_encode (expected_server_signature (scram_answer_of u p)))"
  unfolding scram_answer_of_def by (rule scram_exchange(1) [OF toy_crypto_ok scram_first_parsed])

subsection \<open>Properties\<close>

text \<open>
  C13: \<open>login_with\<close> on any session ends in one of three ways.  It succeeds only from
  \<open>Authentication\<close> with an advertised mechanism, leaves the session in \<open>MailFrom\<close>, and the sink is
  told \<open>AuthCompleted\<close> and nothing else; it fails for a reason in the call itself (the input, the
  state, no random bytes), and then the client is what it was; or it fails fatally, and then the
  session is closed and the sink is told of exactly one abort.
\<close>

theorem login_with_outcome:
  "case login_with env m user credential c of
     (Ok _, d) \<Rightarrow> state c = Authentication \<and> state d = MailFrom \<and>
       ehlo_advertises_auth (capabilities c) (mechanism_name m) \<and>
       audit d = audit c @ [AuthCompleted (mechanism_name m)]
   | (Err e, d) \<Rightarrow> failed c e d \<or> \<not> fatal e \<and> d = c"
  using login_with_spec [of env m user credential c]
  by (auto simp: holds_def logged_in_def failed_or_unchanged_def split: prod.splits sum.splits)

text \<open>
  C19: no credential leaves the client unless the server asked for it: the connection is used only
  if the credentials are well formed, the session is in \<open>Authentication\<close>, and the mechanism is in
  the server's EHLO reply; \<open>login\<close> uses it only with the mechanism it selects.
\<close>

theorem credentials_only_if_advertised:
  "(transport (snd (login_with env m user cred c)) = transport c \<or>
    validate_credentials (e_features env) m user cred = Ok () \<and> state c = Authentication \<and>
    ehlo_advertises_auth (capabilities c) (mechanism_name m)) \<and>
   (transport (snd (login env user cred c)) = transport c \<or>
    (\<exists>m. select_auth_mechanism (e_features env) (capabilities c) = Some m \<and>
       m \<in> {ScramSha256, Plain, Login} \<and> validate_credentials (e_features env) m user cred = Ok () \<and>
       state c = Authentication \<and> ehlo_advertises_auth (capabilities c) (mechanism_name m) \<and>
       login env user cred c = login_with env m user cred c))"
proof (rule conjI)
  show "transport (snd (login env user cred c)) = transport c \<or>
    (\<exists>m. select_auth_mechanism (e_features env) (capabilities c) = Some m \<and>
       m \<in> {ScramSha256, Plain, Login} \<and> validate_credentials (e_features env) m user cred = Ok () \<and>
       state c = Authentication \<and> ehlo_advertises_auth (capabilities c) (mechanism_name m) \<and>
       login env user cred c = login_with env m user cred c)"
  proof (cases "select_auth_mechanism (e_features env) (capabilities c)")
    case None
    then show ?thesis
      by (cases "validate_plain_username user"; cases "validate_plain_password cred")
         (auto simp: login_def assert_state_in_def abort_with_def mark_closed_def on_event_def)
  next
    case (Some m)
    then have "m \<in> {ScramSha256, Plain, Login}"
      by (auto simp: select_auth_mechanism_def split: if_splits)
    then show ?thesis
      using login_with_connection [of env m user cred c] Some by (auto simp: login_def)
  qed
qed (rule login_with_connection)

text \<open>
  C4: a SCRAM exchange succeeds only after the server has proved that it knows the credentials.
  The bytes it sent contain a 334 reply whose text decodes to a server-first message for the
  client's own nonce, and then a 334 or 235 reply whose text decodes to a server-final message with
  the signature computed from the password, that nonce and that server-first message.
\<close>

theorem scram_login_verified:
  assumes "mock_ready (transport c)" and "rx_ok c" and "state c \<noteq> Closed"
  shows "case run_auth_scram_sha256 (mock_env f k ent um) user password c of
     (Ok _, d) \<Rightarrow> \<exists>nonce r1 s1 raw sf r2 s2 final.
        generate_client_nonce ent = Ok nonce \<and>
        stream_reply (enhanced_status_enabled c) [] None (unread mock_bytes c) = Ok (r1, s1) \<and>
        r_code r1 = 334 \<and> carries r1 raw \<and> parse_server_first raw nonce = Ok sf \<and>
        stream_reply (enhanced_status_enabled c) [] None s1 = Ok (r2, s2) \<and>
        r_code r2 \<in> {334, 235} \<and> carries r2 final \<and>
        verify_server_final final (expected_server_signature
          (compute_client_final k user password nonce sf raw)) = Ok ()
   | (Err e, d) \<Rightarrow> True"
proof (cases "generate_client_nonce ent")
  case (Inl e)
  then show ?thesis by (simp add: run_auth_scram_sha256_def mock_env_def)
next
  case (Inr nonce)
  let ?env = "mock_env f k ent um"
  let ?sig = "\<lambda>sf raw. expected_server_signature (compute_client_final k user password nonce sf raw)"
  let ?next = "stream_reply (enhanced_status_enabled c) [] None"
  define P where "P r1 s1 \<longleftrightarrow> (\<exists>raw sf r2 s2 final. carries r1 raw \<and>
      parse_server_first raw nonce = Ok sf \<and> ?next s1 = Ok (r2, s2) \<and> r_code r2 \<in> {334, 235} \<and>
      carries r2 final \<and> verify_server_final final (?sig sf raw) = Ok ())" for r1 s1
  have answer: "holds (scram_answer ?env user password nonce r1 d) (\<lambda>_ _. P r1 s1) (\<lambda>_ _. True)"
    if at: "hears c s1 w d" for r1 s1 w d
  proof -
    have "holds (and_then (write_all ?env b d) (\<lambda>_ c. and_then (read_reply ?env c)
          (\<lambda>r c. scram_finish ?env (?sig sf raw) r c)))
        (\<lambda>_ _. \<exists>r2 s2 final. ?next s1 = Ok (r2, s2) \<and> r_code r2 \<in> {334, 235} \<and>
           carries r2 final \<and> verify_server_final final (?sig sf raw) = Ok ()) (\<lambda>_ _. True)"
      for b sf raw
      by (rule mock_talk.talk_write [OF at], rule mock_talk.talk_read [OF _ assms(3)], assumption)
         (auto intro: holds_weaken [OF scram_finish_carries])
    note step = holds_weaken [OF this]
    have crypto: "e_crypto ?env = k" by (simp add: mock_env_def)
    show ?thesis
      unfolding scram_answer_def crypto P_def
      by (auto simp: abort_with_def from_utf8_def Let_def intro!: step dest: carriesI
            split: sum.splits)
  qed
  have "e_entropy ?env = ent" by (simp add: mock_env_def)
  with Inr have nonce: "generate_client_nonce (e_entropy ?env) = Ok nonce" by simp
  have "holds (run_auth_scram_sha256 ?env user password c)
     (\<lambda>_ _. \<exists>r1 s1. ?next (unread mock_bytes c) = Ok (r1, s1) \<and> r_code r1 = 334 \<and> P r1 s1)
     (\<lambda>_ _. True)"
    unfolding run_auth_scram_sha256_def nonce sum.case
    by (rule mock_talk.talk_write [OF follows_start [OF assms(1,2)]],
        rule mock_talk.talk_read [OF _ assms(3)], assumption, rule holds_if)
       (auto simp: abort_with_def intro: holds_weaken [OF answer])
  then show ?thesis
    unfolding P_def using Inr by (fastforce simp: holds_def split: prod.splits sum.splits)
qed

theorem scram_login_verified_witness:
  "\<exists>nonce r1 s1 raw sf r2 s2 final.
     generate_client_nonce (Some scram_bytes) = Ok nonce \<and>
     stream_reply False [] None (unread mock_bytes scram_client) = Ok (r1, s1) \<and>
     r_code r1 = 334 \<and> carries r1 raw \<and> parse_server_first raw nonce = Ok sf \<and>
     stream_reply False [] None s1 = Ok (r2, s2) \<and> r_code r2 \<in> {334, 235} \<and> carries r2 final \<and>
     verify_server_final final (expected_server_signature
       (compute_client_final toy_crypto (lit ''u'') (lit ''pw'') nonce sf raw)) = Ok ()"
proof -
  have st: "state scram_client \<noteq> Closed" by (simp add: scram_client_facts)
  have "holds (run_auth_scram_sha256 scram_env (lit ''u'') (lit ''pw'') scram_client)
     (\<lambda>_. hears scram_client [] (m_written (transport scram_client) @
        scram_sent (lit ''u'') (base64_encode scram_bytes) (scram_answer_of (lit ''u'') (lit ''pw''))))
     (\<lambda>_ _. False)"
    by (rule scram_completes [OF toy_crypto_ok scram_first_parsed scram_server_ok scram_answer_of_def
        scram_first_ok scram_client_facts(1,2) st]) (simp add: scram_client_facts(6))
  then obtain u d where
    "run_auth_scram_sha256 scram_env (lit ''u'') (lit ''pw'') scram_client = (Ok u, d)"
    by (auto simp: holds_def split: prod.splits sum.splits)
  then show ?thesis
    using scram_login_verified [OF scram_client_facts(1,2) st,
        where f = default_features and k = toy_crypto and ent = "Some scram_bytes" and um = 0
          and user = "lit ''u''" and password = "lit ''pw''"]
    by (simp add: scram_client_facts(5))
qed

text \<open>
  C29: a SCRAM login with an RFC 5802 server that knows the password succeeds: if the server sends
  a server-first message the client accepts, then the server-final message of its own check of the
  client's answer, and then 235, the session is ready for mail, the client has sent exactly its
  three lines, and what the server says next is left for the next command.
\<close>

theorem scram_login_completes:
  assumes "crypto_ok k" and "parse_server_first raw (base64_encode bytes) = Ok sf"
    and "server_check k (enrol k password (sf_salt sf) (sf_iterations sf))
       (drop 3 (build_client_first user (base64_encode bytes))) raw
       (cf_message (compute_client_final k user password (base64_encode bytes) sf raw)) = Some final"
    and "valid_utf8 raw" and "length raw \<le> 744"
    and "mock_ready (transport c)" and "rx_ok c" and "state c = Authentication"
    and "unread mock_bytes c = scram_script raw final @ rest"
    and "validate_credentials f ScramSha256 user password = Ok ()"
    and "ehlo_advertises_auth (capabilities c) (mechanism_name ScramSha256)"
  shows "\<exists>d. login_with (mock_env f k (Some bytes) um) ScramSha256 user password c = (Ok (), d) \<and>
     state d = MailFrom \<and> audit d = audit c @ [AuthCompleted (lit ''SCRAM-SHA-256'')] \<and>
     unread mock_bytes d = rest \<and>
     m_written (transport d) = m_written (transport c) @ lit ''AUTH SCRAM-SHA-256 '' @
       base64_encode (build_client_first user (base64_encode bytes)) @ CRLF @
       base64_encode (cf_message
         (compute_client_final k user password (base64_encode bytes) sf raw)) @ CRLF @ CRLF"
proof -
  let ?env = "mock_env f k (Some bytes) um"
  let ?cf = "compute_client_final k user password (base64_encode bytes) sf raw"
  have st: "state c \<noteq> Closed" using assms(8) by simp
  obtain e where e: "run_auth_scram_sha256 ?env user password c = (Ok (), e)"
    and at: "hears c rest (m_written (transport c) @ scram_sent user (base64_encode bytes) ?cf) e"
    using scram_completes [OF assms(1-3) refl assms(4-7) st assms(9), of f um]
    by (auto simp: holds_def split: prod.splits sum.splits)
  have "login_with ?env ScramSha256 user password c =
      (Ok (), on_event (AuthCompleted (mechanism_name ScramSha256)) (e\<lparr>state := MailFrom\<rparr>))"
    using e at assms(8,10,11)
    by (simp add: login_with_def assert_state_in_def run_mechanism_def mock_env_def transition_def
          can_transition_to_def emit_def follows_def quiet_def)
  then show ?thesis
    using at by (simp add: follows_def quiet_def on_event_def unread_def scram_sent_def)
qed

theorem scram_login_completes_witness:
  "\<exists>d. login_with scram_env ScramSha256 (lit ''u'') (lit ''pw'') scram_client = (Ok (), d) \<and>
     state d = MailFrom"
proof -
  have "validate_credentials default_features ScramSha256 (lit ''u'') (lit ''pw'') = Ok ()"
    by code_simp
  moreover have "ehlo_advertises_auth (capabilities scram_client) (mechanism_name ScramSha256)"
    unfolding scram_client_def by (simp add: client_new_def) code_simp
  ultimately show ?thesis
    using scram_login_completes [OF toy_crypto_ok scram_first_parsed
        scram_server_ok [unfolded scram_answer_of_def] scram_first_ok scram_client_facts(1-3),
        where rest = "[]" and user = "lit ''u''" and password = "lit ''pw''"]
    by (fastforce simp: scram_client_facts(6) scram_answer_of_def)
qed

text \<open>
  C40: \<open>OAUTHBEARER\<close> has no protection of this kind: no check of the login looks at the user, and the
  response does not escape it.  A user string that goes on with a comma and pairs of its own is
  accepted and sent; a server that reads the response strictly as RFC 7628 prescribes, to its last
  byte, gets another identity, and the pairs of the string in front of the token.
\<close>

theorem oauthbearer_user_injects_fields:
  assumes "user \<noteq> []" and "set user \<inter> {0, 44, 61} = {}"
    and "list_all (\<lambda>(k, v). kv_key k \<and> kv_value v) ps"
    and "oauthbearer f" and "validate_oauth2_token token = Ok ()"
    and "state c = Authentication" and "ehlo_advertises_auth (capabilities c) (mechanism_name OAuthBearer)"
    and "mock_ready (transport c)" and "rx_ok c"
    and "unread mock_bytes c = render_reply 235 [l] @ rest" and "line_ok l"
  shows "\<exists>d response payload.
     login_oauthbearer (mock_env f k ent um) (injecting_user user ps) token c = (Ok (), d) \<and>
     m_written (transport d) =
       m_written (transport c) @ lit ''AUTH OAUTHBEARER '' @ response @ CRLF \<and>
     base64_decode response = Ok payload \<and>
     read_oauthbearer payload =
       Some (user, ps @ [(lit ''x'', [44]), (lit ''auth'', lit ''Bearer '' @ token)])"
proof -
  let ?u = "injecting_user user ps"
  have at: "hears c (render_reply 235 [l] @ rest) (m_written (transport c)) c"
    using follows_start [OF assms(8,9)] assms(10) by simp
  have "oauthbearer (e_features (mock_env f k ent um))" using assms(4) by (simp add: mock_env_def)
  from mock_talk.login_oauthbearer_completes [OF at assms(6) _ _ _ this assms(5,7), of ?u] assms(11)
  obtain d where "login_oauthbearer (mock_env f k ent um) ?u token c = (Ok (), d)"
    and "m_written (transport d) = m_written (transport c) @
       lit ''AUTH OAUTHBEARER '' @ build_oauthbearer_initial_response ?u token @ CRLF"
    by (auto simp: MAX_REPLY_LINES_def holds_def follows_def split: prod.splits sum.splits)
  then show ?thesis
    using oauthbearer_injected_read [OF assms(1-3,5)]
    by (simp add: build_oauthbearer_initial_response_def base64_decode_encode)
qed

text \<open>A server that accepts such a login.\<close>

definition bearer_client :: "mock client" where
  "bearer_client =
     (client_new (mock_new [render_reply 235 [lit ''ok'']]) (lit ''c'') default_policy [])
     \<lparr>state := Authentication, capabilities := [lit ''AUTH OAUTHBEARER'']\<rparr>"

theorem oauthbearer_user_injects_fields_witness:
  "\<exists>d response payload.
     login_oauthbearer (mock_env default_features toy_crypto None 0)
       (injecting_user (lit ''eve'') [(lit ''auth'', lit ''Bearer stolen'')]) (lit ''mine'') bearer_client =
         (Ok (), d) \<and>
     m_written (transport d) = lit ''AUTH OAUTHBEARER '' @ response @ CRLF \<and>
     base64_decode response = Ok payload \<and>
     read_oauthbearer payload = Some (lit ''eve'', [(lit ''auth'', lit ''Bearer stolen''),
       (lit ''x'', [44]), (lit ''auth'', lit ''Bearer mine'')])"
proof -
  have ok: "line_ok (lit ''ok'')"
    by (simp add: line_ok_def lit_def MAX_REPLY_LINE_LEN_def valid_utf8_ascii is_ascii_def)
  have adv: "ehlo_advertises_auth [lit ''AUTH OAUTHBEARER''] (mechanism_name OAuthBearer)" by code_simp
  have token: "validate_oauth2_token (lit ''mine'') = Ok ()" by code_simp
  have ps: "list_all (\<lambda>(k, v). kv_key k \<and> kv_value v) [(lit ''auth'', lit ''Bearer stolen'')]"
    by code_simp
  have c: "state bearer_client = Authentication" "capabilities bearer_client = [lit ''AUTH OAUTHBEARER'']"
    "mock_ready (transport bearer_client)" "rx_ok bearer_client"
    "unread mock_bytes bearer_client = render_reply 235 [lit ''ok''] @ []"
    "m_written (transport bearer_client) = []"
    by (simp_all add: bearer_client_def client_new_def mock_new_def mock_build_def mock_ready_def
        rx_ok_def RX_BUF_COMPACT_THRESHOLD_def unread_def mock_bytes_def)
  have "lit ''eve'' \<noteq> []" "set (lit ''eve'') \<inter> {0, 44, 61} = {}" "oauthbearer default_features"
    by (simp_all add: lit_def default_features_def)
  from oauthbearer_user_injects_fields [OF this(1,2) ps this(3) token c(1) _ c(3-5) ok,
      of toy_crypto None 0] show ?thesis
    using adv c(2,6) by (simp add: lit_def)
qed

end
