(* ===== verification/Client_Send.thy ===== *)
theory Client_Send
  imports Client_Auth Command DotStuff Outcome Message_Body
begin

text \<open>
  Sending mail, from \<open>wasm-smtp/src/client/send.rs\<close>: the envelope, sequential and pipelined, the
  four ways to send a message, how each of them can end, what is on the wire, and the equivalence
  of the streaming with the one-shot path.
\<close>

subsection \<open>The checks before a transaction\<close>

fun validate_all :: "(str \<Rightarrow> 'e + unit) \<Rightarrow> str list \<Rightarrow> 'e + unit" where
  "validate_all v [] = Ok ()"
| "validate_all v (a # as) = both (v a) (validate_all v as)"

definition validate_envelope ::
    "(str \<Rightarrow> invalid_input_error + unit) \<Rightarrow> str \<Rightarrow> str list \<Rightarrow> invalid_input_error + unit" where
  "validate_envelope v sender to =
     both (v sender)
       (if to = [] then Err (InvalidInputError (lit ''at least one recipient is required''))
        else validate_all v to)"

definition check_policy :: "send_policy \<Rightarrow> str \<Rightarrow> str list \<Rightarrow> nat \<Rightarrow> policy_error + unit" where
  "check_policy p sender to n =
     both (check_sender p sender) (both (check_recipients p to) (check_message_size p n))"

subsection \<open>The envelope\<close>

definition read_rcpt_reply :: "'t env \<Rightarrow> 't client \<Rightarrow> (smtp_error + unit) \<times> 't client" where
  "read_rcpt_reply env c =
     and_then (read_reply env c) (\<lambda>r c.
       if reply_class r = 2 then emit (RecipientAccepted (r_code r)) c
       else and_then (emit (RecipientRejected (r_code r)) c) (\<lambda>_ c.
         abort_with (unexpected_code OpRcptTo 2 r) c))"

text \<open>The loop of the pipelined path: one reply per recipient.\<close>

primrec read_rcpt_replies ::
    "'t env \<Rightarrow> str list \<Rightarrow> 't client \<Rightarrow> (smtp_error + unit) \<times> 't client" where
  "read_rcpt_replies env [] c = (Ok (), c)"
| "read_rcpt_replies env (addr # to) c =
     and_then (read_rcpt_reply env c) (\<lambda>_ c. read_rcpt_replies env to c)"

text \<open>The loop of the sequential path: one command and its reply per recipient.\<close>

primrec rcpt_exchange ::
    "'t env \<Rightarrow> str list \<Rightarrow> 't client \<Rightarrow> (smtp_error + unit) \<times> 't client" where
  "rcpt_exchange env [] c = (Ok (), c)"
| "rcpt_exchange env (addr # to) c =
     and_then (write_all env (format_rcpt_to addr) c) (\<lambda>_ c.
     and_then (read_rcpt_reply env c) (\<lambda>_ c. rcpt_exchange env to c))"

definition read_mail_reply :: "'t env \<Rightarrow> 't client \<Rightarrow> (smtp_error + unit) \<times> 't client" where
  "read_mail_reply env c =
     and_then (expect_class env 2 OpMailFrom c) (\<lambda>r c. emit (MailFromAccepted (r_code r)) c)"

definition envelope_bytes :: "byte list \<Rightarrow> str list \<Rightarrow> byte list" where
  "envelope_bytes mail_from_line to =
     mail_from_line @ concat (map format_rcpt_to to) @ format_command (lit ''DATA'')"

definition run_envelope ::
    "'t env \<Rightarrow> byte list \<Rightarrow> str list \<Rightarrow> 't client \<Rightarrow> (smtp_error + unit) \<times> 't client" where
  "run_envelope env mail_from_line to c =
     and_then (transition MailFrom c) (\<lambda>_ c.
     if pipelining (e_features env) \<and> ehlo_advertises_pipelining (capabilities c) then
       and_then (transition RcptTo c) (\<lambda>_ c.
       and_then (transition Data c) (\<lambda>_ c.
       and_then (write_all env (envelope_bytes mail_from_line to) c) (\<lambda>_ c.
       and_then (flush env c) (\<lambda>_ c.
       and_then (read_mail_reply env c) (\<lambda>_ c.
       and_then (read_rcpt_replies env to c) (\<lambda>_ c.
       and_then (expect_code env 354 OpData c) (\<lambda>_ c. (Ok (), c))))))))
     else
       and_then (write_all env mail_from_line c) (\<lambda>_ c.
       and_then (read_mail_reply env c) (\<lambda>_ c.
       and_then (transition RcptTo c) (\<lambda>_ c.
       and_then (rcpt_exchange env to c) (\<lambda>_ c.
       and_then (transition Data c) (\<lambda>_ c.
       and_then (write_all env (format_command (lit ''DATA'')) c) (\<lambda>_ c.
       and_then (expect_code env 354 OpData c) (\<lambda>_ c. (Ok (), c)))))))))"

subsection \<open>The four ways to send\<close>

text \<open>What all of them do after the last byte of the payload.\<close>

definition finish_data :: "'t env \<Rightarrow> 't client \<Rightarrow> (smtp_error + send_outcome) \<times> 't client" where
  "finish_data env c =
     and_then (expect_class env 2 OpData c) (\<lambda>final_reply c.
     let outcome = send_outcome_new (r_code final_reply) (joined_text final_reply)
     in and_then (emit (MessageAccepted (so_code outcome)) c) (\<lambda>_ c.
        and_then (transition MailFrom c) (\<lambda>_ c. (Ok outcome, c))))"

definition send_mail ::
    "'t env \<Rightarrow> str \<Rightarrow> str list \<Rightarrow> str \<Rightarrow> 't client \<Rightarrow> (smtp_error + send_outcome) \<times> 't client" where
  "send_mail env sender to body c =
     and_then (check (map_err InvalidInput (validate_envelope validate_address sender to)) c) (\<lambda>_ c.
     and_then (assert_state_in [Authentication, MailFrom] c) (\<lambda>_ c.
     and_then (check (map_err Policy (check_policy (policy c) sender to (length body))) c) (\<lambda>_ c.
     and_then (run_envelope env (format_mail_from sender) to c) (\<lambda>_ c.
     and_then (write_all env (dot_stuff_and_terminate body) c) (\<lambda>_ c.
     finish_data env c)))))"

text \<open>\<open>serialized\<close> is what \<open>MessageBuilder::write_to_string\<close> of \<open>mail-builder\<close> returns.\<close>

definition send_message ::
    "'t env \<Rightarrow> str \<Rightarrow> str list \<Rightarrow> std_error + str \<Rightarrow> 't client \<Rightarrow>
     (smtp_error + send_outcome) \<times> 't client" where
  "send_message env sender to serialized c =
     and_then (check (map_err (\<lambda>e. Io (with_source (lit ''failed to serialize message'') e)) serialized) c)
       (\<lambda>body c. send_mail env sender to body c)"

definition send_mail_bytes ::
    "'t env \<Rightarrow> str \<Rightarrow> str list \<Rightarrow> byte list \<Rightarrow> 't client \<Rightarrow>
     (smtp_error + send_outcome) \<times> 't client" where
  "send_mail_bytes env sender to body c =
     and_then (check (map_err InvalidInput (validate_envelope validate_address sender to)) c) (\<lambda>_ c.
     and_then (assert_state_in [Authentication, MailFrom] c) (\<lambda>_ c.
     and_then (check (map_err Policy (check_policy (policy c) sender to (length body))) c) (\<lambda>_ c.
     and_then (run_envelope env (format_mail_from sender) to c) (\<lambda>_ c.
     and_then (write_all env (dot_stuff_and_terminate body) c) (\<lambda>_ c.
     finish_data env c)))))"

definition send_mail_smtputf8 ::
    "'t env \<Rightarrow> str \<Rightarrow> str list \<Rightarrow> str \<Rightarrow> 't client \<Rightarrow> (smtp_error + send_outcome) \<times> 't client" where
  "send_mail_smtputf8 env sender to body c =
     and_then (check (map_err InvalidInput (validate_envelope validate_address_utf8 sender to)) c) (\<lambda>_ c.
     and_then (assert_state_in [Authentication, MailFrom] c) (\<lambda>_ c.
     if \<not> ehlo_advertises_smtputf8 (capabilities c) then
       abort_with (Protocol (ExtensionUnavailable (lit ''SMTPUTF8''))) c
     else
       and_then (check (map_err Policy (check_policy (policy c) sender to (length body))) c) (\<lambda>_ c.
       and_then (run_envelope env (format_mail_from_smtputf8 sender) to c) (\<lambda>_ c.
       and_then (write_all env (dot_stuff_and_terminate body) c) (\<lambda>_ c.
       finish_data env c)))))"

text \<open>
  The loop of \<open>send_mail_stream\<close>: \<open>rc\<close> is the body's \<open>read_chunk\<close>, which the caller supplies, and
  may go on forever; a loop that never ends is \<open>None\<close>.  The body is part of the result, since the
  caller gets it back.
\<close>

definition STREAM_CHUNK :: nat where "STREAM_CHUNK = 8192"

partial_function (option) stream_loop ::
    "('b \<Rightarrow> nat \<Rightarrow> (io_error + byte list) \<times> 'b) \<Rightarrow> 't env \<Rightarrow> stuffer \<Rightarrow> 'b \<Rightarrow> 't client \<Rightarrow>
     (((smtp_error + stuffer) \<times> 't client) \<times> 'b) option" where
  [code]: "stream_loop rc env st b c =
     (case rc b STREAM_CHUNK of
        (Err e, b') \<Rightarrow> Some (abort_with (Io e) c, b')
      | (Ok chunk, b') \<Rightarrow>
          if chunk = [] then Some ((Ok st, c), b')
          else (case write_all env (fst (process_chunk st chunk)) c of
                  (Err e, c') \<Rightarrow> Some ((Err e, c'), b')
                | (Ok u, c') \<Rightarrow> stream_loop rc env (snd (process_chunk st chunk)) b' c'))"

text \<open>What comes before the loop, and after it.\<close>

definition begin_stream ::
    "'t env \<Rightarrow> str \<Rightarrow> str list \<Rightarrow> 't client \<Rightarrow> (smtp_error + unit) \<times> 't client" where
  "begin_stream env sender to c =
     and_then (check (map_err InvalidInput (validate_envelope validate_address sender to)) c) (\<lambda>_ c.
     and_then (assert_state_in [Authentication, MailFrom] c) (\<lambda>_ c.
     and_then (check (map_err Policy (check_policy (policy c) sender to (e_usize_max env))) c) (\<lambda>_ c.
     run_envelope env (format_mail_from sender) to c)))"

definition end_stream ::
    "'t env \<Rightarrow> stuffer \<Rightarrow> 't client \<Rightarrow> (smtp_error + send_outcome) \<times> 't client" where
  "end_stream env st c =
     and_then (write_all env (stuffer_finish st) c) (\<lambda>_ c. finish_data env c)"

definition send_mail_stream ::
    "('b \<Rightarrow> nat \<Rightarrow> (io_error + byte list) \<times> 'b) \<Rightarrow> 't env \<Rightarrow> str \<Rightarrow> str list \<Rightarrow> 'b \<Rightarrow> 't client \<Rightarrow>
     (((smtp_error + send_outcome) \<times> 't client) \<times> 'b) option" where
  "send_mail_stream rc env sender to body c =
     (case begin_stream env sender to c of
        (Err e, c') \<Rightarrow> Some ((Err e, c'), body)
      | (Ok u, c') \<Rightarrow>
          map_option (apfst (\<lambda>p. and_then p (end_stream env)))
            (stream_loop rc env stuffer_new body c'))"

subsection \<open>What every operation respects\<close>

context speaking_relation
begin

lemma R_read_rcpt_reply: "R c (snd (read_rcpt_reply env c))"
  unfolding read_rcpt_reply_def by (intro rel_intros)

lemma R_read_rcpt_replies: "R c (snd (read_rcpt_replies env to c))"
  by (induction to arbitrary: c) (simp_all add: refl R_then R_read_rcpt_reply)

lemma R_rcpt_exchange: "R c (snd (rcpt_exchange env to c))"
  by (induction to arbitrary: c) (simp_all add: refl R_then R_write_all R_read_rcpt_reply)

lemma R_run_envelope: "R c (snd (run_envelope env m to c))"
  unfolding run_envelope_def read_mail_reply_def
  by (intro rel_intros R_read_rcpt_replies R_rcpt_exchange)

lemma R_finish_data: "R c (snd (finish_data env c))"
  unfolding finish_data_def Let_def by (intro rel_intros)

lemma R_send_mail: "R c (snd (send_mail env s to b c))"
  unfolding send_mail_def by (intro rel_intros R_run_envelope R_finish_data)

lemma R_send_mail_bytes: "R c (snd (send_mail_bytes env s to b c))"
  unfolding send_mail_bytes_def by (intro rel_intros R_run_envelope R_finish_data)

lemma R_send_mail_smtputf8: "R c (snd (send_mail_smtputf8 env s to b c))"
  unfolding send_mail_smtputf8_def by (intro rel_intros R_run_envelope R_finish_data)

lemma R_send_message: "R c (snd (send_message env s to m c))"
  unfolding send_message_def by (intro R_then R_check R_send_mail)

end

subsection \<open>How a transaction ends\<close>

text \<open>
  \<open>after c es st d\<close>: since \<open>c\<close> the sink has been told \<open>es\<close>, none of them an abort, the state has
  become \<open>st\<close>, and nothing else but connection and buffer has changed.
\<close>

definition after :: "'t client \<Rightarrow> audit_event list \<Rightarrow> session_state \<Rightarrow> 't client \<Rightarrow> bool" where
  "after c es st d \<longleftrightarrow> SessionAborted \<notin> set es \<and> st \<noteq> Closed \<and>
     quiet (c\<lparr>audit := audit c @ es, state := st\<rparr>) d"

lemma after_start: "state c = st \<Longrightarrow> st \<noteq> Closed \<Longrightarrow> after c [] st c"
  by (simp add: after_def quiet_def)

lemma after_facts:
  "after c es st d \<Longrightarrow> state d = st" "after c es st d \<Longrightarrow> audit d = audit c @ es"
  "after c es st d \<Longrightarrow> capabilities d = capabilities c"
  by (simp_all add: after_def quiet_def)

lemma after_failed: "after c es st d \<Longrightarrow> failed d e d' \<Longrightarrow> failed c e d'"
  by (rule failed_mono [of d e d' c es]) (simp_all add: after_def quiet_def)

lemma after_quiet: "after c es st d \<Longrightarrow> quiet d d' \<Longrightarrow> after c es st d'"
  by (auto simp: after_def intro: quiet_trans)

lemma after_step:
  assumes "after c es st d" and "state d \<noteq> Closed \<Longrightarrow> holds p (\<lambda>a d'. quiet d d' \<and> P a) (failed d)"
    and "\<And>a d'. after c es st d' \<Longrightarrow> P a \<Longrightarrow> holds (k a d') Q (failed c)"
  shows "holds (and_then p k) Q (failed c)"
proof (rule holds_and_then)
  have "state d \<noteq> Closed" using assms(1) by (auto simp: after_def quiet_def)
  then show "holds p (\<lambda>a d'. after c es st d' \<and> P a) (failed c)"
    by (rule holds_weaken [OF assms(2)]) (auto intro: after_quiet after_failed assms(1))
qed (use assms(3) in blast)

lemma after_write:
  "after c es st d \<Longrightarrow> (\<And>d. after c es st d \<Longrightarrow> holds (k () d) Q (failed c)) \<Longrightarrow>
   holds (and_then (write_all env b d) k) Q (failed c)"
  by (erule after_step [where P = "\<lambda>_. True"]) (simp_all add: write_all_spec)

lemma after_flush:
  "after c es st d \<Longrightarrow> (\<And>d. after c es st d \<Longrightarrow> holds (k () d) Q (failed c)) \<Longrightarrow>
   holds (and_then (flush env d) k) Q (failed c)"
  by (erule after_step [where P = "\<lambda>_. True"]) (simp_all add: flush_spec)

lemma after_read:
  "after c es st d \<Longrightarrow> (\<And>r d. after c es st d \<Longrightarrow> holds (k r d) Q (failed c)) \<Longrightarrow>
   holds (and_then (read_reply env d) k) Q (failed c)"
  by (erule after_step [where P = "\<lambda>_. True"]) (simp_all add: read_reply_spec)

lemma after_expect_code:
  "after c es st d \<Longrightarrow> (\<And>r d. after c es st d \<Longrightarrow> r_code r = n \<Longrightarrow> holds (k r d) Q (failed c)) \<Longrightarrow>
   holds (and_then (expect_code env n during d) k) Q (failed c)"
  by (erule after_step [where P = "\<lambda>r. r_code r = n"]) (simp_all add: expect_code_spec)

lemma after_expect_class:
  "after c es st d \<Longrightarrow> (\<And>r d. after c es st d \<Longrightarrow> reply_class r = n \<Longrightarrow> holds (k r d) Q (failed c)) \<Longrightarrow>
   holds (and_then (expect_class env n during d) k) Q (failed c)"
  by (erule after_step [where P = "\<lambda>r. reply_class r = n"]) (simp_all add: expect_class_spec)

lemma after_transition:
  "after c es st d \<Longrightarrow> can_transition_to st n \<Longrightarrow> n \<noteq> Closed \<Longrightarrow>
   (\<And>d. after c es n d \<Longrightarrow> holds (k () d) Q (failed c)) \<Longrightarrow>
   holds (and_then (transition n d) k) Q (failed c)"
  by (simp add: transition_def after_def quiet_def)

lemma after_event:
  "after c es st d \<Longrightarrow> e \<noteq> SessionAborted \<Longrightarrow> after c (es @ [e]) st (on_event e d)"
  by (auto simp: after_def quiet_def on_event_def)

lemma after_emit:
  "after c es st d \<Longrightarrow> e \<noteq> SessionAborted \<Longrightarrow>
   (\<And>d. after c (es @ [e]) st d \<Longrightarrow> holds (k () d) Q (failed c)) \<Longrightarrow>
   holds (and_then (emit e d) k) Q (failed c)"
  by (simp add: emit_def after_event)

lemma after_abort: "after c es st d \<Longrightarrow> fatal e \<Longrightarrow> holds (abort_with e d) Q (failed c)"
proof -
  assume a: "after c es st d" and "fatal e"
  then have "state d \<noteq> Closed" by (auto simp: after_def quiet_def)
  from failed_abort [OF this \<open>fatal e\<close>] after_failed [OF a]
  show "holds (abort_with e d) Q (failed c)" by (simp add: abort_with_def)
qed

lemmas after_steps =
  after_write after_flush after_read after_expect_code after_expect_class after_transition
  after_emit after_abort

text \<open>Codes of class 2.\<close>

definition is_2xx :: "u16 \<Rightarrow> bool" where
  "is_2xx code = (200 \<le> code \<and> code < 300)"

lemma unat_div_u16: "unat (x div 100 :: u16) = unat x div 100"
  by (simp add: unat_div_distrib)

lemma byte_is_2: "(if q \<le> 255 then of_nat q else (0 :: byte)) = 2 \<longleftrightarrow> q = 2"
proof (cases "q \<le> 255")
  case True
  then have "unat (of_nat q :: byte) = q" by (simp add: unat_of_nat)
  then show ?thesis using True by (auto simp: word_unat_eq_iff)
qed auto

lemma hundreds: "n div 100 = 2 \<longleftrightarrow> 200 \<le> n \<and> n < (300 :: nat)"
proof -
  have "n = 100 * (n div 100) + n mod 100" and "n mod 100 < 100" by simp_all
  then show ?thesis by linarith
qed

lemma class_2_iff: "reply_class r = 2 \<longleftrightarrow> is_2xx (r_code r)"
proof -
  have "reply_class r = 2 \<longleftrightarrow> unat (r_code r) div 100 = 2"
    unfolding reply_class_def unat_div_u16 Let_def by (rule byte_is_2)
  also have "\<dots> \<longleftrightarrow> 200 \<le> unat (r_code r) \<and> unat (r_code r) < 300" by (rule hundreds)
  also have "\<dots> \<longleftrightarrow> is_2xx (r_code r)" by (simp add: is_2xx_def word_le_nat_alt word_less_nat_alt)
  finally show ?thesis .
qed

lemma read_rcpt_reply_spec:
  assumes "after c es st d"
    and "\<And>code d. is_2xx code \<Longrightarrow> after c (es @ [RecipientAccepted code]) st d \<Longrightarrow>
           holds (k () d) Q (failed c)"
  shows "holds (and_then (read_rcpt_reply env d) k) Q (failed c)"
proof (rule holds_and_then)
  show "holds (read_rcpt_reply env d)
      (\<lambda>_ d. \<exists>code. is_2xx code \<and> after c (es @ [RecipientAccepted code]) st d) (failed c)"
    unfolding read_rcpt_reply_def
  proof (rule after_read [OF assms(1)], rule holds_if)
    fix r d assume "after c es st d" and "reply_class r = 2"
    then show "holds (emit (RecipientAccepted (r_code r)) d)
        (\<lambda>_ d. \<exists>code. is_2xx code \<and> after c (es @ [RecipientAccepted code]) st d) (failed c)"
      using after_event [of c es st d "RecipientAccepted (r_code r)"]
      by (auto simp: emit_def class_2_iff)
  next
    fix r d assume "after c es st d"
    then show "holds (and_then (emit (RecipientRejected (r_code r)) d) (\<lambda>_ c.
         abort_with (unexpected_code OpRcptTo 2 r) c))
        (\<lambda>_ d. \<exists>code. is_2xx code \<and> after c (es @ [RecipientAccepted code]) st d) (failed c)"
      by (rule after_emit) (auto intro: after_abort)
  qed
qed (use assms(2) in auto)

definition all_accepted :: "str list \<Rightarrow> u16 list \<Rightarrow> bool" where
  "all_accepted to codes \<longleftrightarrow> length codes = length to \<and> list_all is_2xx codes"

lemma accepted_Cons:
  assumes "is_2xx code" and "all_accepted to rs"
    and "after c (es @ RecipientAccepted code # map RecipientAccepted rs) st d"
  shows "\<exists>rs. all_accepted (a # to) rs \<and> after c (es @ map RecipientAccepted rs) st d"
  using assms by (intro exI [of _ "code # rs"]) (simp add: all_accepted_def)

lemma rcpt_replies_spec:
  "after c es st d \<Longrightarrow> holds (read_rcpt_replies env to d)
     (\<lambda>_ d. \<exists>rs. all_accepted to rs \<and> after c (es @ map RecipientAccepted rs) st d) (failed c)"
proof (induction to arbitrary: es d)
  case Nil
  then show ?case by (simp add: all_accepted_def)
next
  case (Cons a to)
  show ?case
    unfolding read_rcpt_replies.simps
  proof (rule read_rcpt_reply_spec [OF Cons(2)])
    fix code d assume code: "is_2xx code" and "after c (es @ [RecipientAccepted code]) st d"
    from Cons(1) [OF this(2)] show "holds (read_rcpt_replies env to d)
       (\<lambda>_ d. \<exists>rs. all_accepted (a # to) rs \<and> after c (es @ map RecipientAccepted rs) st d) (failed c)"
      by (rule holds_weaken) (auto intro: accepted_Cons [OF code])
  qed
qed

lemma rcpt_exchange_spec:
  "after c es st d \<Longrightarrow> holds (rcpt_exchange env to d)
     (\<lambda>_ d. \<exists>rs. all_accepted to rs \<and> after c (es @ map RecipientAccepted rs) st d) (failed c)"
proof (induction to arbitrary: es d)
  case Nil
  then show ?case by (simp add: all_accepted_def)
next
  case (Cons a to)
  show ?case
    unfolding rcpt_exchange.simps
  proof (rule after_write [OF Cons(2)], erule read_rcpt_reply_spec)
    fix code d assume code: "is_2xx code" and "after c (es @ [RecipientAccepted code]) st d"
    from Cons(1) [OF this(2)] show "holds (rcpt_exchange env to d)
       (\<lambda>_ d. \<exists>rs. all_accepted (a # to) rs \<and> after c (es @ map RecipientAccepted rs) st d) (failed c)"
      by (rule holds_weaken) (auto intro: accepted_Cons [OF code])
  qed
qed

lemma read_mail_reply_spec:
  assumes "after c es st d"
    and "\<And>code d. is_2xx code \<Longrightarrow> after c (es @ [MailFromAccepted code]) st d \<Longrightarrow>
           holds (k () d) Q (failed c)"
  shows "holds (and_then (read_mail_reply env d) k) Q (failed c)"
proof (rule holds_and_then)
  show "holds (read_mail_reply env d)
      (\<lambda>_ d. \<exists>code. is_2xx code \<and> after c (es @ [MailFromAccepted code]) st d) (failed c)"
    unfolding read_mail_reply_def
  proof (rule after_expect_class [OF assms(1)])
    fix r d assume "after c es st d" and "reply_class r = 2"
    then show "holds (emit (MailFromAccepted (r_code r)) d)
        (\<lambda>_ d. \<exists>code. is_2xx code \<and> after c (es @ [MailFromAccepted code]) st d) (failed c)"
      using after_event [of c es st d "MailFromAccepted (r_code r)"]
      by (auto simp: emit_def class_2_iff)
  qed
qed (use assms(2) in auto)

definition enveloped :: "'t client \<Rightarrow> str list \<Rightarrow> 't client \<Rightarrow> bool" where
  "enveloped c to d \<longleftrightarrow> (\<exists>code rs. is_2xx code \<and> all_accepted to rs \<and>
     after c (MailFromAccepted code # map RecipientAccepted rs) Data d)"

lemma run_envelope_spec:
  assumes "state c \<in> {Authentication, MailFrom}"
  shows "holds (run_envelope env m to c) (\<lambda>_. enveloped c to) (failed c)"
proof -
  have start: "after c [] (state c) c" using assms by (intro after_start) auto
  have move: "can_transition_to (state c) MailFrom" using assms by (auto simp: can_transition_to_def)
  have moves: "can_transition_to MailFrom RcptTo" "can_transition_to RcptTo Data"
    by (simp_all add: can_transition_to_def)
  have last: "holds (and_then (expect_code env 354 OpData d) (\<lambda>_ c. (Ok (), c)))
      (\<lambda>_. enveloped c to) (failed c)"
    if "is_2xx code" "all_accepted to rs"
      "after c (MailFromAccepted code # map RecipientAccepted rs) Data d" for code rs d
    by (rule after_expect_code [OF that(3)]) (use that(1,2) in \<open>auto simp: enveloped_def\<close>)
  show ?thesis
    unfolding run_envelope_def
  proof (rule after_transition [OF start move], simp, rule holds_if)
    fix d assume d: "after c [] MailFrom d"
    show "holds (and_then (transition RcptTo d) (\<lambda>_ c.
       and_then (transition Data c) (\<lambda>_ c.
       and_then (write_all env (envelope_bytes m to) c) (\<lambda>_ c.
       and_then (flush env c) (\<lambda>_ c.
       and_then (read_mail_reply env c) (\<lambda>_ c.
       and_then (read_rcpt_replies env to c) (\<lambda>_ c.
       and_then (expect_code env 354 OpData c) (\<lambda>_ c. (Ok (), c))))))))) (\<lambda>_. enveloped c to) (failed c)"
      by (rule after_transition [OF d moves(1)], simp, erule after_transition [OF _ moves(2)], simp,
          erule after_write, erule after_flush, erule read_mail_reply_spec,
          rule holds_and_then, erule rcpt_replies_spec) (auto intro: last)
    show "holds (and_then (write_all env m d) (\<lambda>_ c.
       and_then (read_mail_reply env c) (\<lambda>_ c.
       and_then (transition RcptTo c) (\<lambda>_ c.
       and_then (rcpt_exchange env to c) (\<lambda>_ c.
       and_then (transition Data c) (\<lambda>_ c.
       and_then (write_all env (format_command (lit ''DATA'')) c) (\<lambda>_ c.
       and_then (expect_code env 354 OpData c) (\<lambda>_ c. (Ok (), c)))))))))
       (\<lambda>_. enveloped c to) (failed c)"
      by (rule after_write [OF d], erule read_mail_reply_spec, erule after_transition [OF _ moves(1)],
          simp, rule holds_and_then, erule rcpt_exchange_spec)
         (auto intro!: last after_write after_transition [OF _ moves(2)])
  qed
qed

definition delivered :: "'t client \<Rightarrow> str list \<Rightarrow> send_outcome \<Rightarrow> 't client \<Rightarrow> bool" where
  "delivered c to r d \<longleftrightarrow> state c \<in> {Authentication, MailFrom} \<and> is_2xx (so_code r) \<and>
     (\<exists>code rs. is_2xx code \<and> all_accepted to rs \<and>
        after c (MailFromAccepted code # map RecipientAccepted rs @ [MessageAccepted (so_code r)])
          MailFrom d)"

lemma deliveredI:
  "state c \<in> {Authentication, MailFrom} \<Longrightarrow> is_2xx (so_code r) \<Longrightarrow> is_2xx code \<Longrightarrow> all_accepted to rs \<Longrightarrow>
   after c (MailFromAccepted code # map RecipientAccepted rs @ [MessageAccepted (so_code r)]) MailFrom d \<Longrightarrow>
   delivered c to r d"
  by (auto simp: delivered_def)

lemma finish_data_spec:
  assumes "state c \<in> {Authentication, MailFrom}" and "enveloped c to d"
  shows "holds (finish_data env d) (delivered c to) (failed c)"
proof -
  obtain code rs where a: "is_2xx code" "all_accepted to rs"
    "after c (MailFromAccepted code # map RecipientAccepted rs) Data d"
    using assms(2) by (auto simp: enveloped_def)
  have "can_transition_to Data MailFrom" by (simp add: can_transition_to_def)
  then show ?thesis
    unfolding finish_data_def Let_def
    using assms(1) a(1,2)
    by (intro after_expect_class [OF a(3)] after_emit after_transition)
       (auto simp: send_outcome_new_def class_2_iff intro!: deliveredI [OF assms(1) _ a(1,2)])
qed

lemma payload_spec:
  assumes "state c \<in> {Authentication, MailFrom}" and "enveloped c to d"
  shows "holds (and_then (write_all env b d) (\<lambda>_ c. finish_data env c)) (delivered c to) (failed c)"
proof -
  obtain es where d: "after c es Data d" and env: "\<And>d'. after c es Data d' \<Longrightarrow> enveloped c to d'"
    using assms(2) by (auto simp: enveloped_def)
  show ?thesis by (rule after_write [OF d]) (intro finish_data_spec assms(1) env)
qed

lemma transaction_spec:
  assumes "state c \<in> {Authentication, MailFrom}"
  shows "holds (and_then (run_envelope env m to c) (\<lambda>_ c.
       and_then (write_all env b c) (\<lambda>_ c. finish_data env c)))
     (delivered c to) (failed_or_unchanged c)"
  by (rule holds_weaken, rule holds_and_then [OF run_envelope_spec [OF assms] payload_spec [OF assms]])
     (auto simp: failed_or_unchanged_def)

lemma holds_check_policy:
  "holds (k () c) Q (failed_or_unchanged c) \<Longrightarrow>
   holds (and_then (check (map_err Policy r) c) k) Q (failed_or_unchanged c)"
  by (cases r) (simp_all add: failed_or_unchanged_def)

lemma send_mail_spec: "holds (send_mail env s to b c) (delivered c to) (failed_or_unchanged c)"
  unfolding send_mail_def
  by (intro holds_check_input holds_assert_state holds_check_policy transaction_spec) auto

lemma send_mail_bytes_spec:
  "holds (send_mail_bytes env s to b c) (delivered c to) (failed_or_unchanged c)"
  unfolding send_mail_bytes_def
  by (intro holds_check_input holds_assert_state holds_check_policy transaction_spec) auto

lemma send_mail_smtputf8_spec:
  "holds (send_mail_smtputf8 env s to b c) (delivered c to) (failed_or_unchanged c)"
  unfolding send_mail_smtputf8_def
  by (intro holds_check_input holds_assert_state holds_if abort_unchanged_spec holds_check_policy
        transaction_spec) auto

subsection \<open>The streaming path\<close>

lemma stream_loop_quiet:
  assumes "stream_loop rc env st b c = Some y" and "state c \<noteq> Closed"
  shows "holds (fst y) (\<lambda>_. quiet c) (failed c)"
proof (rule mp [OF stream_loop.raw_induct
      [where P = "\<lambda>rc env st b c y. state c \<noteq> Closed \<longrightarrow> holds (fst y) (\<lambda>_. quiet c) (failed c)",
       OF _ assms(1)] assms(2)], rule impI)
  fix loop :: "('b \<Rightarrow> nat \<Rightarrow> (io_error + byte list) \<times> 'b) \<Rightarrow> 't env \<Rightarrow> stuffer \<Rightarrow> 'b \<Rightarrow> 't client \<Rightarrow>
     (((smtp_error + stuffer) \<times> 't client) \<times> 'b) option"
    and rc env st b c y
  assume "\<And>rc env st b c y. loop rc env st b c = Some y \<Longrightarrow>
      state c \<noteq> Closed \<longrightarrow> holds (fst y) (\<lambda>_. quiet c) (failed c)"
    and "(case rc b STREAM_CHUNK of
        (Err e, b') \<Rightarrow> Some (abort_with (Io e) c, b')
      | (Ok chunk, b') \<Rightarrow>
          if chunk = [] then Some ((Ok st, c), b')
          else (case write_all env (fst (process_chunk st chunk)) c of
                  (Err e, c') \<Rightarrow> Some ((Err e, c'), b')
                | (Ok u, c') \<Rightarrow> loop rc env (snd (process_chunk st chunk)) b' c')) = Some y"
    and "state c \<noteq> Closed"
  note 1 = this
  obtain r b' where rd: "rc b STREAM_CHUNK = (r, b')" by fastforce
  show "holds (fst y) (\<lambda>_. quiet c) (failed c)"
  proof (cases r)
    case (Inl e)
    with 1 rd show ?thesis by (auto simp: abort_spec)
  next
    case chunk: (Inr chunk)
    obtain w c' where wr: "write_all env (fst (process_chunk st chunk)) c = (w, c')" by fastforce
    have spec: "holds (w, c') (\<lambda>_. quiet c) (failed c)"
      using write_all_spec [OF 1(3), of env "fst (process_chunk st chunk)"] by (simp add: wr)
    show ?thesis
    proof (cases "chunk = [] \<or> (\<exists>e. w = Inl e)")
      case True
      with 1(2) rd chunk wr spec show ?thesis by (auto split: if_splits)
    next
      case False
      then obtain u where w: "w = Inr u" and ne: "chunk \<noteq> []" by (cases w) auto
      then have q: "quiet c c'" using spec by simp
      have "loop rc env (snd (process_chunk st chunk)) b' c' = Some y"
        using 1(2) rd chunk wr w ne by simp
      from 1(1) [OF this] q 1(3) have "holds (fst y) (\<lambda>_. quiet c') (failed c')"
        by (simp add: quiet_def)
      then show ?thesis by (rule holds_weaken) (auto intro: quiet_trans [OF q] failed_quiet q)
    qed
  qed
qed

context speaking_relation
begin

lemma R_begin_stream: "R c (snd (begin_stream env s to c))"
  unfolding begin_stream_def by (intro rel_intros R_run_envelope)

lemma R_end_stream: "R c (snd (end_stream env st c))"
  unfolding end_stream_def by (intro rel_intros R_finish_data)

lemma R_stream_loop:
  assumes "stream_loop rc env st b c = Some y"
  shows "R c (snd (fst y))"
proof -
  have "env' = env \<longrightarrow> R c (snd (fst y))" if "stream_loop rc env' st b c = Some y" for env'
  proof (rule stream_loop.raw_induct
      [where P = "\<lambda>rc env' st b c y. env' = env \<longrightarrow> R c (snd (fst y))", OF _ that], rule impI)
    fix loop :: "('b \<Rightarrow> nat \<Rightarrow> (io_error + byte list) \<times> 'b) \<Rightarrow> 't env \<Rightarrow> stuffer \<Rightarrow> 'b \<Rightarrow> 't client \<Rightarrow>
       (((smtp_error + stuffer) \<times> 't client) \<times> 'b) option"
      and rc st b c y and env' :: "'t env"
    assume rec: "\<And>rc env' st b c y. loop rc env' st b c = Some y \<Longrightarrow>
        env' = env \<longrightarrow> R c (snd (fst y))"
      and body: "(case rc b STREAM_CHUNK of
        (Err e, b') \<Rightarrow> Some (abort_with (Io e) c, b')
      | (Ok chunk, b') \<Rightarrow>
          if chunk = [] then Some ((Ok st, c), b')
          else (case write_all env' (fst (process_chunk st chunk)) c of
                  (Err e, c') \<Rightarrow> Some ((Err e, c'), b')
                | (Ok u, c') \<Rightarrow> loop rc env' (snd (process_chunk st chunk)) b' c')) = Some y"
      and env: "env' = env"
    show "R c (snd (fst y))"
      using body env R_write_all [of c "fst (process_chunk st _)"]
      by (auto simp: R_abort refl split: prod.splits sum.splits if_splits
            dest!: rec [rule_format]) (metis snd_conv trans)+
  qed
  then show ?thesis using assms by blast
qed

lemma R_send_mail_stream:
  assumes "send_mail_stream rc env s to b c = Some y"
  shows "R c (snd (fst y))"
proof -
  obtain r d where d: "begin_stream env s to c = (r, d)" by fastforce
  then have "R c d" using R_begin_stream [of c s to] by simp
  show ?thesis
  proof (cases r)
    case (Inl e)
    then show ?thesis using assms d \<open>R c d\<close> by (auto simp: send_mail_stream_def)
  next
    case (Inr u)
    have "map_option (apfst (\<lambda>p. and_then p (end_stream env)))
        (stream_loop rc env stuffer_new b d) = Some y"
      using assms by (simp only: send_mail_stream_def d Inr prod.case sum.case)
    then obtain z where z: "stream_loop rc env stuffer_new b d = Some z"
      and "y = apfst (\<lambda>p. and_then p (end_stream env)) z"
      by (auto simp only: map_option_eq_Some)
    then have "fst y = and_then (fst z) (end_stream env)" by (cases z) simp
    then show ?thesis
      using trans [OF \<open>R c d\<close> R_then [OF R_stream_loop [OF z] R_end_stream]] by simp
  qed
qed

end

lemma send_mail_stream_spec:
  assumes "send_mail_stream rc env s to body c = Some y"
  shows "holds (fst y) (delivered c to) (failed_or_unchanged c)"
proof -
  have spec: "holds (begin_stream env s to c)
      (\<lambda>_ d. state c \<in> {Authentication, MailFrom} \<and> enveloped c to d) (failed_or_unchanged c)"
    unfolding begin_stream_def
    by (intro holds_check_input holds_assert_state holds_check_policy)
       (rule holds_weaken [OF run_envelope_spec], auto simp: failed_or_unchanged_def)
  obtain r d where b: "begin_stream env s to c = (r, d)" by fastforce
  show ?thesis
  proof (cases r)
    case (Inl e)
    with assms b spec show ?thesis by (auto simp: send_mail_stream_def)
  next
    case (Inr u)
    have "map_option (apfst (\<lambda>p. and_then p (end_stream env)))
        (stream_loop rc env stuffer_new body d) = Some y"
      using assms by (simp only: send_mail_stream_def b Inr prod.case sum.case)
    then obtain z where z: "stream_loop rc env stuffer_new body d = Some z"
      and "y = apfst (\<lambda>p. and_then p (end_stream env)) z"
      by (auto simp only: map_option_eq_Some)
    then have y: "y = (and_then (fst z) (end_stream env), snd z)" by (cases z) simp
    have st: "state c \<in> {Authentication, MailFrom}" and e: "enveloped c to d"
      using spec b Inr by simp_all
    then obtain code rs where c: "is_2xx code" "all_accepted to rs"
      and a: "after c (MailFromAccepted code # map RecipientAccepted rs) Data d"
      by (auto simp: enveloped_def)
    then have "state d \<noteq> Closed" by (auto dest: after_facts)
    from stream_loop_quiet [OF z this]
    have "holds (fst z) (\<lambda>_ d. enveloped c to d) (failed c)"
      by (rule holds_weaken)
         (use c after_quiet [OF a] in \<open>auto simp: enveloped_def intro: after_failed [OF a]\<close>)
    then have "holds (and_then (fst z) (end_stream env)) (delivered c to) (failed c)"
      unfolding end_stream_def by (rule holds_and_then) (rule payload_spec [OF st])
    then show ?thesis
      unfolding y fst_conv by (rule holds_weaken) (simp_all add: failed_or_unchanged_def)
  qed
qed

text \<open>On a connection that records what is written.\<close>

definition sent :: "byte list \<Rightarrow> mock client \<Rightarrow> mock client" where
  "sent b c = c\<lparr>transport := (transport c)\<lparr>m_written := m_written (transport c) @ b\<rparr>\<rparr>"

lemma mock_write: "write_all (mock_env f k ent um) b c = (Ok (), sent b c)"
  by (simp add: write_all_def mock_env_def mock_write_all_def sent_def)

lemma and_then_assoc: "and_then (and_then p k) h = and_then p (\<lambda>a s. and_then (k a s) h)"
  by (simp add: and_then_def split: prod.splits sum.splits)

lemma mock_usize: "e_usize_max (mock_env f k ent um) = um"
  by (simp add: mock_env_def)

lemma sent_sent [simp]: "sent b (sent a c) = sent (a @ b) c"
  by (simp add: sent_def)

lemma sent_Nil [simp]: "sent [] c = c"
  by (simp add: sent_def)

context streaming_body
begin

text \<open>The loop ends: every chunk takes something off the content.\<close>

lemma stream_loop_ends: "\<exists>y. stream_loop read_chunk env st b c = Some y"
proof (induction "length (content b)" arbitrary: st b c rule: less_induct)
  case less
  obtain chunk b' where rd: "read_chunk b STREAM_CHUNK = (Ok chunk, b')" using read_total by blast
  obtain w c' where wr: "write_all env (fst (process_chunk st chunk)) c = (w, c')" by fastforce
  show ?case
  proof (cases "chunk = []")
    case True
    then show ?thesis using rd by (subst stream_loop.simps) simp
  next
    case False
    from less [OF read_progress [OF rd False]] show ?thesis
      using rd wr False by (subst stream_loop.simps) (cases w, auto)
  qed
qed

lemma stream_loop_mock:
  "\<exists>chunks out st' b'. concat chunks = content b \<and>
     stream_loop read_chunk (mock_env f k ent um) st b c = Some ((Ok st', sent out c), b') \<and>
     out @ stuffer_finish st' = stream_chunks process_chunk stuffer_finish st chunks"
proof (induction "length (content b)" arbitrary: st b c rule: less_induct)
  case less
  obtain chunk b' where rd: "read_chunk b STREAM_CHUNK = (Ok chunk, b')" using read_total by blast
  show ?case
  proof (cases "chunk = []")
    case True
    then have "content b = []" using read_eof [of b STREAM_CHUNK b'] rd by (simp add: STREAM_CHUNK_def)
    then show ?thesis
      using rd True by (intro exI [of _ "[]"]) (subst stream_loop.simps, simp)
  next
    case False
    let ?o = "fst (process_chunk st chunk)" and ?s = "snd (process_chunk st chunk)"
    obtain chunks out st' b'' where ih: "concat chunks = content b'"
      "stream_loop read_chunk (mock_env f k ent um) ?s b' (sent ?o c) =
         Some ((Ok st', sent out (sent ?o c)), b'')"
      "out @ stuffer_finish st' = stream_chunks process_chunk stuffer_finish ?s chunks"
      using less [OF read_progress [OF rd False]] by metis
    have "concat (chunk # chunks) = content b" using read_content [OF rd] ih(1) by simp
    moreover have "stream_loop read_chunk (mock_env f k ent um) st b c =
        Some ((Ok st', sent (?o @ out) c), b'')"
      using rd False ih(2) by (subst stream_loop.simps) (simp add: mock_write)
    moreover have "(?o @ out) @ stuffer_finish st' =
        stream_chunks process_chunk stuffer_finish st (chunk # chunks)"
      using ih(3) by (simp add: split_def Let_def)
    ultimately show ?thesis by blast
  qed
qed

lemma send_mail_stream_ends: "\<exists>y. send_mail_stream read_chunk env s to b c = Some y"
proof -
  obtain r d where "begin_stream env s to c = (r, d)" by fastforce
  moreover obtain y where "stream_loop read_chunk env stuffer_new b d = Some y"
    using stream_loop_ends by blast
  ultimately show ?thesis by (cases r) (simp_all add: send_mail_stream_def)
qed

lemma send_mail_stream_mock:
  assumes "check_message_size (policy c) um = check_message_size (policy c) (length (content b))"
  shows "\<exists>b'. send_mail_stream read_chunk (mock_env f k ent um) s to b c =
     Some (send_mail_bytes (mock_env f k ent um) s to (content b) c, b')"
proof -
  let ?env = "mock_env f k ent um"
  have split: "send_mail_bytes ?env s to (content b) c = and_then (begin_stream ?env s to c)
      (\<lambda>_ c. finish_data ?env (sent (dot_stuff_and_terminate (content b)) c))"
    using assms
    by (cases "validate_envelope validate_address s to";
        cases "state c \<in> set [Authentication, MailFrom]")
       (simp_all add: send_mail_bytes_def begin_stream_def assert_state_in_def check_policy_def
          and_then_assoc mock_write mock_usize)
  obtain r d where b: "begin_stream ?env s to c = (r, d)" by fastforce
  show ?thesis
  proof (cases r)
    case (Inl e)
    then show ?thesis using b by (simp add: send_mail_stream_def split)
  next
    case (Inr u)
    obtain chunks out st' b' where l: "concat chunks = content b"
      "stream_loop read_chunk ?env stuffer_new b d = Some ((Ok st', sent out d), b')"
      "out @ stuffer_finish st' = stream_chunks process_chunk stuffer_finish stuffer_new chunks"
      using stream_loop_mock by blast
    then have "out @ stuffer_finish st' = dot_stuff_and_terminate (content b)"
      by (simp add: stuffer_one_shot)
    then show ?thesis
      using b Inr l(2) by (simp add: send_mail_stream_def split end_stream_def mock_write)
  qed
qed

end

end
