(* ===== verification/Client_Wire.thy ===== *)
theory Client_Wire
  imports Client_Send
begin

text \<open>
  What a transaction puts on the wire, read by a server: command lines up to \<open>DATA\<close>, then the
  message; the transactions an accepting server brings to an end; and the properties of sending.
\<close>

subsection \<open>The server's view\<close>

lemma find_crlf_less: "find_crlf s = Some k \<Longrightarrow> k + 2 \<le> length s"
  using find_crlf_Some by blast

text \<open>Command lines, without their CRLF, up to and without \<open>DATA\<close>.\<close>

function read_commands :: "byte list \<Rightarrow> (byte list list \<times> byte list) option" where
  "read_commands s =
     (case find_crlf s of
        None \<Rightarrow> None
      | Some k \<Rightarrow>
          if take k s = lit ''DATA'' then Some ([], drop (k + 2) s)
          else map_option (apfst (Cons (take k s))) (read_commands (drop (k + 2) s)))"
  by pat_completeness auto
termination by (relation "measure length") (auto dest: find_crlf_less)

declare read_commands.simps [simp del]

definition server_view :: "byte list \<Rightarrow> (byte list list \<times> byte list \<times> byte list) option" where
  "server_view s =
     (case read_commands s of
        None \<Rightarrow> None
      | Some (cmds, rest) \<Rightarrow> map_option (\<lambda>(msg, more). (cmds, msg, more)) (receive RxStart rest))"

lemma read_commands_DATA: "read_commands (format_command (lit ''DATA'') @ rest) = Some ([], rest)"
proof -
  have "find_crlf (lit ''DATA'' @ CR # LF # rest) = Some (length (lit ''DATA''))"
    by (rule find_crlf_end) (simp add: lit_def)
  then show ?thesis by (subst read_commands.simps) (simp add: format_command_def)
qed

lemma read_commands_line:
  assumes "CR \<notin> set l" and "l \<noteq> lit ''DATA''"
  shows "read_commands (l @ CRLF @ rest) = map_option (apfst (Cons l)) (read_commands rest)"
  using assms find_crlf_end [OF assms(1), of rest] by (subst read_commands.simps) simp

lemma read_commands_lines:
  assumes "list_all (\<lambda>l. CR \<notin> set l \<and> l \<noteq> lit ''DATA'') ls"
  shows "read_commands (concat (map (\<lambda>l. l @ CRLF) ls) @ rest) =
     map_option (apfst ((@) ls)) (read_commands rest)"
  using assms
proof (induction ls)
  case Nil
  show ?case by (cases "read_commands rest") auto
next
  case (Cons l ls)
  then show ?case
    using read_commands_line [of l] by (cases "read_commands rest") (auto simp: apfst_def map_prod_def)
qed

text \<open>The lines of a transaction.\<close>

definition mail_line :: "str \<Rightarrow> str" where
  "mail_line a = lit ''MAIL FROM:<'' @ a @ lit ''>''"

definition rcpt_line :: "str \<Rightarrow> str" where
  "rcpt_line a = lit ''RCPT TO:<'' @ a @ lit ''>''"

lemma envelope_lines:
  "envelope_bytes (m @ CRLF) to =
     concat (map (\<lambda>l. l @ CRLF) (m # map rcpt_line to)) @ format_command (lit ''DATA'')"
proof -
  have "concat (map format_rcpt_to to) = concat (map (\<lambda>l. l @ CRLF) (map rcpt_line to))"
    by (induction to) (simp_all add: format_rcpt_to_def rcpt_line_def lit_def)
  then show ?thesis by (simp add: envelope_bytes_def)
qed

lemma server_view_transaction:
  assumes "CR \<notin> set m" and "m \<noteq> lit ''DATA''" and "list_all (\<lambda>a. CR \<notin> set a) to"
  shows "server_view (envelope_bytes (m @ CRLF) to @ dot_stuff_and_terminate body @ extra) =
     Some (m # map rcpt_line to, crlf_terminated body, extra)"
proof -
  have "list_all (\<lambda>l. CR \<notin> set l \<and> l \<noteq> lit ''DATA'') (m # map rcpt_line to)"
    using assms by (auto simp: list_all_iff rcpt_line_def lit_def)
  from read_commands_lines [OF this, of "format_command (lit ''DATA'') @ dot_stuff_and_terminate body @ extra"]
  have "read_commands (envelope_bytes (m @ CRLF) to @ dot_stuff_and_terminate body @ extra) =
      Some (m # map rcpt_line to, dot_stuff_and_terminate body @ extra)"
    by (simp add: envelope_lines read_commands_DATA)
  then show ?thesis using receive_payload [of body extra] by (simp add: server_view_def)
qed

lemma both_Ok [simp]: "both a b = Ok () \<longleftrightarrow> a = Ok () \<and> b = Ok ()"
  by (cases a) (simp_all add: both_def)

lemma validate_all_Ok: "validate_all v to = Ok () \<longleftrightarrow> list_all (\<lambda>a. v a = Ok ()) to"
  by (induction to) simp_all

lemma validate_envelope_Ok:
  "validate_envelope v s to = Ok () \<longleftrightarrow> v s = Ok () \<and> to \<noteq> [] \<and> list_all (\<lambda>a. v a = Ok ()) to"
  by (simp add: validate_envelope_def validate_all_Ok)

lemma server_view_mail:
  assumes "validate_envelope validate_address s to = Ok ()"
  shows "server_view (envelope_bytes (format_mail_from s) to @ dot_stuff_and_terminate b @ extra) =
     Some (mail_line s # map rcpt_line to, crlf_terminated b, extra)"
proof -
  have "CR \<notin> set (mail_line s)" "list_all (\<lambda>a. CR \<notin> set a) to"
    using assms by (auto simp: validate_envelope_Ok validate_address_Ok list_all_iff mail_line_def lit_def)
  from server_view_transaction [OF this(1) _ this(2)] show ?thesis
    by (simp add: format_mail_from_def mail_line_def lit_def)
qed

subsection \<open>What is written\<close>

context client_recorder
begin

lemma wrote_write:
  assumes "written (transport c) = w"
    and "\<And>d. written (transport d) = w @ b \<Longrightarrow> holds (k () d) Q (\<lambda>_ _. True)"
  shows "holds (and_then (write_all env b c) k) Q (\<lambda>_ _. True)"
  using assms write_written
  by (auto simp: write_all_def abort_with_def split: prod.splits sum.splits)

lemma wrote_flush:
  assumes "written (transport c) = w"
    and "\<And>d. written (transport d) = w \<Longrightarrow> holds (k () d) Q (\<lambda>_ _. True)"
  shows "holds (and_then (flush env c) k) Q (\<lambda>_ _. True)"
  using assms flush_written
  by (auto simp: flush_def abort_with_def split: prod.splits sum.splits)

lemma wrote_hear:
  assumes "same_written written c (snd p)" and "written (transport c) = w"
    and "\<And>a d. written (transport d) = w \<Longrightarrow> holds (k a d) Q (\<lambda>_ _. True)"
  shows "holds (and_then p k) Q (\<lambda>_ _. True)"
  using assms by (cases p; cases "fst p") (auto simp: same_written_def)

lemma hear_rcpt_reply: "same_written written c (snd (read_rcpt_reply env c))"
  unfolding read_rcpt_reply_def
  by (intro hearing.R_then hearing.R_read_reply hearing.R_if hearing.R_emit hearing.R_abort)

lemma hear_rcpt_replies: "same_written written c (snd (read_rcpt_replies env to c))"
proof (induction to arbitrary: c)
  case (Cons a to)
  then show ?case by (simp add: hearing.R_then hear_rcpt_reply)
qed (simp add: hearing.refl)

lemma hear_mail_reply: "same_written written c (snd (read_mail_reply env c))"
  unfolding read_mail_reply_def by (intro hearing.R_then hearing.R_expect_class hearing.R_emit)

lemma rcpt_exchange_wrote:
  "written (transport c) = w \<Longrightarrow> holds (rcpt_exchange env to c)
     (\<lambda>_ d. written (transport d) = w @ concat (map format_rcpt_to to)) (\<lambda>_ _. True)"
proof (induction to arbitrary: c w)
  case (Cons a to)
  show ?case
    unfolding rcpt_exchange.simps
    by (rule wrote_write [OF Cons(2)], rule wrote_hear [OF hear_rcpt_reply], assumption,
        rule holds_weaken [OF Cons(1)], assumption) auto
qed simp

lemmas wrote_steps =
  wrote_write wrote_flush wrote_hear [OF hearing.R_transition] wrote_hear [OF hear_mail_reply]
  wrote_hear [OF hear_rcpt_replies] wrote_hear [OF hearing.R_expect_code]
  wrote_hear [OF hearing.R_expect_class] wrote_hear [OF hearing.R_emit]

lemma run_envelope_wrote:
  "holds (run_envelope env m to c)
     (\<lambda>_ d. written (transport d) = written (transport c) @ envelope_bytes m to) (\<lambda>_ _. True)"
proof -
  let ?w = "written (transport c)" and ?data = "format_command (lit ''DATA'')"
  let ?Q = "\<lambda>(_ :: unit) d. written (transport d) = ?w @ envelope_bytes m to"
  have last: "holds (and_then (transition Data d) (\<lambda>_ c.
       and_then (write_all env ?data c) (\<lambda>_ c.
       and_then (expect_code env 354 OpData c) (\<lambda>_ c. (Ok (), c))))) ?Q (\<lambda>_ _. True)"
    if "written (transport d) = (?w @ m) @ concat (map format_rcpt_to to)" for d
    by (rule wrote_hear [OF hearing.R_transition that], rule wrote_write, assumption,
        rule wrote_hear [OF hearing.R_expect_code], assumption)
       (simp add: envelope_bytes_def)
  show ?thesis
    unfolding run_envelope_def
  proof (rule wrote_hear [OF hearing.R_transition refl], rule holds_if)
    fix d :: "'t client" assume d: "written (transport d) = ?w"
    show "holds (and_then (transition RcptTo d) (\<lambda>_ c.
       and_then (transition Data c) (\<lambda>_ c.
       and_then (write_all env (envelope_bytes m to) c) (\<lambda>_ c.
       and_then (flush env c) (\<lambda>_ c.
       and_then (read_mail_reply env c) (\<lambda>_ c.
       and_then (read_rcpt_replies env to c) (\<lambda>_ c.
       and_then (expect_code env 354 OpData c) (\<lambda>_ c. (Ok (), c))))))))) ?Q (\<lambda>_ _. True)"
      by (rule wrote_hear [OF hearing.R_transition d], rule wrote_hear [OF hearing.R_transition],
          assumption, rule wrote_write, assumption, rule wrote_flush, assumption,
          rule wrote_hear [OF hear_mail_reply], assumption,
          rule wrote_hear [OF hear_rcpt_replies], assumption,
          rule wrote_hear [OF hearing.R_expect_code], assumption) simp
    show "holds (and_then (write_all env m d) (\<lambda>_ c.
       and_then (read_mail_reply env c) (\<lambda>_ c.
       and_then (transition RcptTo c) (\<lambda>_ c.
       and_then (rcpt_exchange env to c) (\<lambda>_ c.
       and_then (transition Data c) (\<lambda>_ c.
       and_then (write_all env ?data c) (\<lambda>_ c.
       and_then (expect_code env 354 OpData c) (\<lambda>_ c. (Ok (), c))))))))) ?Q (\<lambda>_ _. True)"
      by (rule wrote_write [OF d], rule wrote_hear [OF hear_mail_reply], assumption,
          rule wrote_hear [OF hearing.R_transition], assumption,
          rule holds_and_then [OF rcpt_exchange_wrote], assumption) (rule last)
  qed
qed

lemma hear_finish: "same_written written c (snd (finish_data env c))"
  unfolding finish_data_def Let_def
  by (intro hearing.R_then hearing.R_expect_class hearing.R_emit hearing.R_transition hearing.R_done)

lemma transaction_wrote:
  "holds (and_then (run_envelope env m to c) (\<lambda>_ c.
       and_then (write_all env b c) (\<lambda>_ c. finish_data env c)))
     (\<lambda>_ d. written (transport d) = written (transport c) @ envelope_bytes m to @ b) (\<lambda>_ _. True)"
proof (rule holds_and_then [OF run_envelope_wrote])
  fix d :: "'t client"
  assume d: "written (transport d) = written (transport c) @ envelope_bytes m to"
  have "holds (finish_data env e) (\<lambda>_ d. written (transport d) =
      (written (transport c) @ envelope_bytes m to) @ b) (\<lambda>_ _. True)"
    if "written (transport e) = (written (transport c) @ envelope_bytes m to) @ b" for e
    using hear_finish [of e] that
    by (auto simp: same_written_def holds_def split: prod.splits sum.splits)
  then show "holds (and_then (write_all env b d) (\<lambda>_ c. finish_data env c))
     (\<lambda>_ d. written (transport d) = written (transport c) @ envelope_bytes m to @ b) (\<lambda>_ _. True)"
    by (intro wrote_write [OF d]) simp
qed

lemma send_mail_wrote:
  "holds (send_mail env s to b c) (\<lambda>_ d. written (transport d) = written (transport c) @
     envelope_bytes (format_mail_from s) to @ dot_stuff_and_terminate b) (\<lambda>_ _. True)"
  using transaction_wrote [of "format_mail_from s" to c "dot_stuff_and_terminate b"]
  by (cases "validate_envelope validate_address s to"; cases "check_policy (policy c) s to (length b)")
     (simp_all add: send_mail_def assert_state_in_def)

end

subsection \<open>A server that accepts\<close>

text \<open>A reply as its code and lines; the replies of a server in order.\<close>

type_synonym reply_text = "nat \<times> str list"

definition sayable :: "reply_text \<Rightarrow> bool" where
  "sayable r \<longleftrightarrow> fst r < 1000 \<and> snd r \<noteq> [] \<and> list_all line_ok (snd r) \<and>
     length (snd r) \<le> MAX_REPLY_LINES"

definition accepts :: "reply_text \<Rightarrow> bool" where
  "accepts r \<longleftrightarrow> sayable r \<and> 200 \<le> fst r \<and> fst r < 300"

definition say :: "reply_text \<Rightarrow> byte list" where
  "say r = render_reply (fst r) (snd r)"

definition code_of_text :: "reply_text \<Rightarrow> u16" where
  "code_of_text r = of_nat (fst r)"

definition heard :: "bool \<Rightarrow> reply_text \<Rightarrow> reply" where
  "heard enh r = finish_reply enh (code_of_text r) (snd r)"

lemma stream_say: "sayable r \<Longrightarrow> stream_reply enh [] None (say r @ rest) = Ok (heard enh r, rest)"
  by (simp add: sayable_def say_def heard_def code_of_text_def stream_reply_rendered)

lemma heard_code [simp]: "r_code (heard enh r) = code_of_text r"
  by (simp add: heard_def)

lemma heard_accepts: "accepts r \<Longrightarrow> reply_class (heard enh r) = 2"
  by (simp add: class_2_iff is_2xx_def accepts_def code_of_text_def word_le_nat_alt
        word_less_nat_alt unat_of_nat)

lemma accepts_sayable: "accepts r \<Longrightarrow> sayable r"
  by (simp add: accepts_def)

definition told :: "audit_event list \<Rightarrow> 't client \<Rightarrow> 't client" where
  "told es c = c\<lparr>audit := audit c @ es\<rparr>"

lemma told_told [simp]: "told fs (told es c) = told (es @ fs) c"
  and told_Nil [simp]: "told [] c = c"
  and on_event_told: "on_event e c = told [e] c"
  and told_facts [simp]: "state (told es c) = state c" "audit (told es c) = audit c @ es"
    "enhanced_status_enabled (told es c) = enhanced_status_enabled c"
    "capabilities (told es c) = capabilities c"
    "(told es c)\<lparr>state := s\<rparr> = told es (c\<lparr>state := s\<rparr>)"
  by (simp_all add: told_def on_event_def)

abbreviation never :: "smtp_error \<Rightarrow> 't client \<Rightarrow> bool" where
  "never \<equiv> \<lambda>_ _. False"

text \<open>A transaction: replies to MAIL, to each RCPT, to DATA and to the message.\<close>

record transaction =
  to_mail :: reply_text
  to_rcpts :: "reply_text list"
  to_data :: reply_text
  to_message :: reply_text

definition accepting :: "str list \<Rightarrow> transaction \<Rightarrow> bool" where
  "accepting to t \<longleftrightarrow> accepts (to_mail t) \<and> list_all accepts (to_rcpts t) \<and>
     length (to_rcpts t) = length to \<and> sayable (to_data t) \<and> fst (to_data t) = 354 \<and>
     accepts (to_message t)"

definition server_says :: "transaction \<Rightarrow> byte list" where
  "server_says t = say (to_mail t) @ concat (map say (to_rcpts t)) @ say (to_data t) @ say (to_message t)"

definition events_of :: "transaction \<Rightarrow> audit_event list" where
  "events_of t = MailFromAccepted (code_of_text (to_mail t)) #
     map (RecipientAccepted \<circ> code_of_text) (to_rcpts t)"

context client_talk
begin

lemma talk_rcpt_reply:
  assumes "at c0 (say r @ s) w c" and "accepts r" and "state c0 \<noteq> Closed"
    and "\<And>d. at (told [RecipientAccepted (code_of_text r)] c0) s w d \<Longrightarrow> holds (k () d) Q never"
  shows "holds (and_then (read_rcpt_reply env c) k) Q never"
proof (rule holds_and_then)
  have r: "stream_reply (enhanced_status_enabled c0) [] None (say r @ s) =
      Ok (heard (enhanced_status_enabled c0) r, s)"
    by (rule stream_say [OF accepts_sayable [OF assms(2)]])
  have "holds (and_then (emit (RecipientAccepted (code_of_text r)) d) (\<lambda>_ d. (Ok (), d)))
      (\<lambda>_. at (told [RecipientAccepted (code_of_text r)] c0) s w) never" if "at c0 s w d" for d
    by (rule talk_emit [OF that]) (simp add: on_event_told)
  then have "holds (emit (RecipientAccepted (code_of_text r)) d)
      (\<lambda>_. at (told [RecipientAccepted (code_of_text r)] c0) s w) never" if "at c0 s w d" for d
    using that by (simp add: emit_def)
  then show "holds (read_rcpt_reply env c)
      (\<lambda>_. at (told [RecipientAccepted (code_of_text r)] c0) s w) never"
    unfolding read_rcpt_reply_def
    by (intro talk_read_ok [OF assms(1,3) r]) (simp add: heard_accepts [OF assms(2)])
qed (use assms(4) in auto)

lemma talk_rcpt_replies:
  "at c0 (concat (map say rs) @ s) w c \<Longrightarrow> list_all accepts rs \<Longrightarrow> length rs = length to \<Longrightarrow>
   state c0 \<noteq> Closed \<Longrightarrow>
   holds (read_rcpt_replies env to c)
     (\<lambda>_. at (told (map (RecipientAccepted \<circ> code_of_text) rs) c0) s w) never"
proof (induction to arbitrary: rs c0 c)
  case (Cons a to)
  then obtain r rs' where rs: "rs = r # rs'" by (cases rs) auto
  have at: "at c0 (say r @ concat (map say rs') @ s) w c" using Cons(2) rs by simp
  show ?case
    unfolding read_rcpt_replies.simps
    by (rule talk_rcpt_reply [OF at], use Cons rs in simp, use Cons in simp)
       (rule holds_weaken [OF Cons(1)], assumption, use Cons rs in \<open>auto simp: comp_def\<close>)
qed simp

lemma talk_rcpt_exchange:
  "at c0 (concat (map say rs) @ s) w c \<Longrightarrow> list_all accepts rs \<Longrightarrow> length rs = length to \<Longrightarrow>
   state c0 \<noteq> Closed \<Longrightarrow>
   holds (rcpt_exchange env to c)
     (\<lambda>_. at (told (map (RecipientAccepted \<circ> code_of_text) rs) c0) s
        (w @ concat (map format_rcpt_to to))) never"
proof (induction to arbitrary: rs c0 c w)
  case (Cons a to)
  then obtain r rs' where rs: "rs = r # rs'" by (cases rs) auto
  have at: "at c0 (say r @ concat (map say rs') @ s) w c" using Cons(2) rs by simp
  show ?case
    unfolding rcpt_exchange.simps
    by (rule talk_write [OF at], rule talk_rcpt_reply, assumption,
        use Cons rs in simp, use Cons in simp)
       (rule holds_weaken [OF Cons(1)], assumption, use Cons rs in \<open>auto simp: comp_def\<close>)
qed simp

lemma talk_mail_reply:
  assumes "at c0 (say r @ s) w c" and "accepts r" and "state c0 \<noteq> Closed"
    and "\<And>d. at (told [MailFromAccepted (code_of_text r)] c0) s w d \<Longrightarrow> holds (k () d) Q never"
  shows "holds (and_then (read_mail_reply env c) k) Q never"
proof (rule holds_and_then)
  have r: "stream_reply (enhanced_status_enabled c0) [] None (say r @ s) =
      Ok (heard (enhanced_status_enabled c0) r, s)"
    by (rule stream_say [OF accepts_sayable [OF assms(2)]])
  have "holds (and_then (emit (MailFromAccepted (code_of_text r)) d) (\<lambda>_ d. (Ok (), d)))
      (\<lambda>_. at (told [MailFromAccepted (code_of_text r)] c0) s w) never" if "at c0 s w d" for d
    by (rule talk_emit [OF that]) (simp add: on_event_told)
  then have "holds (emit (MailFromAccepted (code_of_text r)) d)
      (\<lambda>_. at (told [MailFromAccepted (code_of_text r)] c0) s w) never" if "at c0 s w d" for d
    using that by (simp add: emit_def)
  then show "holds (read_mail_reply env c)
      (\<lambda>_. at (told [MailFromAccepted (code_of_text r)] c0) s w) never"
    unfolding read_mail_reply_def
    by (intro talk_expect_class [OF assms(1,3) r heard_accepts [OF assms(2)]]) simp
qed (use assms(4) in auto)

lemma talk_data_reply:
  assumes "at c0 (say r @ s) w c" and "sayable r" and "fst r = 354" and "state c0 \<noteq> Closed"
  shows "holds (and_then (expect_code env 354 OpData c) (\<lambda>_ c. (Ok (), c)))
     (\<lambda>_. at c0 s w) never"
  by (rule talk_expect_code [OF assms(1,4) stream_say [OF assms(2)]])
     (simp_all add: code_of_text_def assms(3))

lemma envelope_completes:
  assumes "at c0 (server_says t @ s) w c" and "accepting to t"
    and "state c0 \<in> {Authentication, MailFrom}"
  shows "holds (run_envelope env m to c)
     (\<lambda>_. at (told (events_of t) (c0\<lparr>state := Data\<rparr>)) (say (to_message t) @ s)
        (w @ envelope_bytes m to)) never"
proof -
  let ?s1 = "concat (map say (to_rcpts t)) @ say (to_data t) @ say (to_message t) @ s"
  let ?s2 = "say (to_data t) @ say (to_message t) @ s" and ?s3 = "say (to_message t) @ s"
  let ?m = "MailFromAccepted (code_of_text (to_mail t))"
  have t: "accepts (to_mail t)" "list_all accepts (to_rcpts t)" "length (to_rcpts t) = length to"
    "sayable (to_data t)" "fst (to_data t) = 354"
    using assms(2) by (simp_all add: accepting_def)
  have moves: "can_transition_to (state c0) MailFrom" "can_transition_to MailFrom RcptTo"
    "can_transition_to RcptTo Data"
    using assms(3) by (auto simp: can_transition_to_def)
  have at: "at c0 (say (to_mail t) @ ?s1) w c" using assms(1) by (simp add: server_says_def)
  show ?thesis
    unfolding run_envelope_def
  proof (rule talk_transition [OF at moves(1)], rule holds_if)
    fix d assume d: "at (c0\<lparr>state := MailFrom\<rparr>) (say (to_mail t) @ ?s1) w d"
    show "holds (and_then (transition RcptTo d) (\<lambda>_ c.
       and_then (transition Data c) (\<lambda>_ c.
       and_then (write_all env (envelope_bytes m to) c) (\<lambda>_ c.
       and_then (flush env c) (\<lambda>_ c.
       and_then (read_mail_reply env c) (\<lambda>_ c.
       and_then (read_rcpt_replies env to c) (\<lambda>_ c.
       and_then (expect_code env 354 OpData c) (\<lambda>_ c. (Ok (), c)))))))))
       (\<lambda>_. at (told (events_of t) (c0\<lparr>state := Data\<rparr>)) ?s3 (w @ envelope_bytes m to)) never"
      by (rule talk_transition [OF d], simp add: moves,
          rule talk_transition, assumption, simp add: moves,
          rule talk_write, assumption, rule talk_flush, assumption,
          rule talk_mail_reply, assumption, rule t, simp,
          rule holds_and_then, rule talk_rcpt_replies, assumption, rule t, rule t, simp,
          rule holds_weaken, rule talk_data_reply, assumption, rule t, rule t)
         (simp_all add: events_of_def)
    show "holds (and_then (write_all env m d) (\<lambda>_ c.
       and_then (read_mail_reply env c) (\<lambda>_ c.
       and_then (transition RcptTo c) (\<lambda>_ c.
       and_then (rcpt_exchange env to c) (\<lambda>_ c.
       and_then (transition Data c) (\<lambda>_ c.
       and_then (write_all env (format_command (lit ''DATA'')) c) (\<lambda>_ c.
       and_then (expect_code env 354 OpData c) (\<lambda>_ c. (Ok (), c)))))))))
       (\<lambda>_. at (told (events_of t) (c0\<lparr>state := Data\<rparr>)) ?s3 (w @ envelope_bytes m to)) never"
      by (rule talk_write [OF d],
          rule talk_mail_reply, assumption, rule t, simp,
          rule talk_transition, assumption, simp add: moves,
          rule holds_and_then, rule talk_rcpt_exchange, assumption, rule t, rule t, simp,
          rule talk_transition, assumption, simp add: moves,
          rule talk_write, assumption,
          rule holds_weaken, rule talk_data_reply, assumption, rule t, rule t)
         (simp_all add: events_of_def envelope_bytes_def)
  qed
qed

lemma finish_completes:
  assumes "at c0 (say r @ s) w c" and "accepts r" and "state c0 = Data"
  shows "holds (finish_data env c)
     (\<lambda>o' d. o' = send_outcome_new (code_of_text r) (join [LF] (snd r)) \<and>
        at (told [MessageAccepted (code_of_text r)] (c0\<lparr>state := MailFrom\<rparr>)) s w d) never"
proof -
  have joined: "joined_text (heard enh r) = join [LF] (snd r)" for enh
    by (simp add: joined_text_def heard_def)
  have code: "so_code (send_outcome_new n x) = n" for n x by (simp add: send_outcome_new_def)
  have move: "can_transition_to Data MailFrom" by (simp add: can_transition_to_def)
  show ?thesis
    unfolding finish_data_def Let_def
    by (rule talk_expect_class [OF assms(1) _ stream_say [OF accepts_sayable [OF assms(2)]]],
        use assms(3) in simp, rule heard_accepts [OF assms(2)],
        rule talk_emit, assumption, rule talk_transition, assumption)
       (simp_all add: joined code on_event_told assms(3) move)
qed

lemma transaction_completes:
  assumes "at c (server_says t @ s) w c" and "accepting to t"
    and "state c \<in> {Authentication, MailFrom}"
  shows "holds (and_then (run_envelope env m to c) (\<lambda>_ c.
       and_then (write_all env b c) (\<lambda>_ c. finish_data env c)))
     (\<lambda>o' d. o' = send_outcome_new (code_of_text (to_message t)) (join [LF] (snd (to_message t))) \<and>
        at (told (events_of t @ [MessageAccepted (code_of_text (to_message t))])
          (c\<lparr>state := MailFrom\<rparr>)) s (w @ envelope_bytes m to @ b) d) never"
proof (rule holds_and_then [OF envelope_completes [OF assms]])
  fix d assume d: "at (told (events_of t) (c\<lparr>state := Data\<rparr>)) (say (to_message t) @ s)
      (w @ envelope_bytes m to) d"
  have "accepts (to_message t)" using assms(2) by (simp add: accepting_def)
  then show "holds (and_then (write_all env b d)
       (\<lambda>_ c. finish_data env c))
     (\<lambda>o' d. o' = send_outcome_new (code_of_text (to_message t)) (join [LF] (snd (to_message t))) \<and>
        at (told (events_of t @ [MessageAccepted (code_of_text (to_message t))])
          (c\<lparr>state := MailFrom\<rparr>)) s (w @ envelope_bytes m to @ b) d) never"
    by (intro talk_write [OF d] holds_weaken [OF finish_completes])
       (assumption | simp)+
qed

lemma send_mail_talk:
  assumes at: "at c (server_says t @ s) w c" and "accepting to t"
    and "validate_envelope validate_address sender to = Ok ()"
    and "state c \<in> {Authentication, MailFrom}"
    and "check_policy (policy c) sender to (length b) = Ok ()"
  shows "holds (send_mail env sender to b c)
     (\<lambda>o' d. o' = send_outcome_new (code_of_text (to_message t)) (join [LF] (snd (to_message t))) \<and>
        at (told (events_of t @ [MessageAccepted (code_of_text (to_message t))])
          (c\<lparr>state := MailFrom\<rparr>)) s
          (w @ envelope_bytes (format_mail_from sender) to @ dot_stuff_and_terminate b) d) never"
proof -
  have "assert_state_in [Authentication, MailFrom] c = (Ok (), c)"
    using assms(4) by (auto simp: assert_state_in_def)
  then have "send_mail env sender to b c =
      and_then (run_envelope env (format_mail_from sender) to c) (\<lambda>_ c.
       and_then (write_all env (dot_stuff_and_terminate b) c) (\<lambda>_ c. finish_data env c))"
    using assms(3,5) by (simp add: send_mail_def)
  then show ?thesis by (simp add: transaction_completes [OF at assms(2,4)])
qed

end

subsection \<open>Nothing is sent before the checks\<close>

lemma untouched_input:
  "(r = Ok () \<Longrightarrow> transport (snd (k () c)) = transport c \<or> P) \<Longrightarrow>
   transport (snd (and_then (check (map_err h r) c) k)) = transport c \<or> P"
  by (cases r) simp_all

lemma untouched_state:
  "(state c \<in> set ss \<Longrightarrow> transport (snd (k () c)) = transport c \<or> P) \<Longrightarrow>
   transport (snd (and_then (assert_state_in ss c) k)) = transport c \<or> P"
  by (auto simp: assert_state_in_def)

lemma untouched_refused:
  "r \<noteq> Ok () \<Longrightarrow> transport (snd (and_then (map_err h r, c) k)) = transport c"
  by (cases r) simp_all

lemma untouched_abort: "transport (snd (abort_with e c)) = transport c"
  by (simp add: abort_with_def mark_closed_def on_event_def)

lemma send_mail_valid:
  "send_mail env s to b c = (Ok r, d) \<Longrightarrow> validate_envelope validate_address s to = Ok ()"
  by (cases "validate_envelope validate_address s to") (auto simp: send_mail_def)

lemma send_mail_untouched:
  "transport (snd (send_mail env s to b c)) = transport c \<or>
     validate_envelope validate_address s to = Ok () \<and> state c \<in> {Authentication, MailFrom} \<and>
     check_policy (policy c) s to (length b) = Ok ()"
  unfolding send_mail_def
  by (intro untouched_input untouched_state) (auto simp: untouched_refused)

lemma send_mail_bytes_untouched:
  "transport (snd (send_mail_bytes env s to b c)) = transport c \<or>
     validate_envelope validate_address s to = Ok () \<and> state c \<in> {Authentication, MailFrom} \<and>
     check_policy (policy c) s to (length b) = Ok ()"
  unfolding send_mail_bytes_def
  by (intro untouched_input untouched_state) (auto simp: untouched_refused)

lemma begin_stream_untouched:
  "transport (snd (begin_stream env s to c)) = transport c \<or>
     validate_envelope validate_address s to = Ok () \<and> state c \<in> {Authentication, MailFrom} \<and>
     check_policy (policy c) s to (e_usize_max env) = Ok ()"
  unfolding begin_stream_def
  by (intro untouched_input untouched_state) (auto simp: untouched_refused)

text \<open>A stream whose preparation fails is not read.\<close>

lemma begin_stream_checked:
  assumes "begin_stream env s to c = (Ok u, d)"
  shows "validate_envelope validate_address s to = Ok () \<and> state c \<in> {Authentication, MailFrom} \<and>
     check_policy (policy c) s to (e_usize_max env) = Ok ()"
  using assms
  by (cases "validate_envelope validate_address s to";
      cases "check_policy (policy c) s to (e_usize_max env)")
     (auto simp: begin_stream_def assert_state_in_def split: if_splits)

lemma send_mail_stream_untouched:
  "(\<exists>e d. send_mail_stream rc env s to body c = Some ((Err e, d), body) \<and>
      transport d = transport c) \<or>
     validate_envelope validate_address s to = Ok () \<and> state c \<in> {Authentication, MailFrom} \<and>
     check_policy (policy c) s to (e_usize_max env) = Ok ()"
proof (cases "begin_stream env s to c")
  case (Pair r d)
  show ?thesis
  proof (cases r)
    case (Inl e)
    then show ?thesis
      using begin_stream_untouched [of env s to c] by (auto simp: send_mail_stream_def Pair)
  next
    case (Inr u)
    then show ?thesis using begin_stream_checked [OF Pair [unfolded Inr]] by blast
  qed
qed

subsection \<open>Properties\<close>


text \<open>
  C2: what a successful \<open>send_mail\<close> has put on the wire, as a server reads it: the bytes written are
  the command lines MAIL with the sender, RCPT with each recipient in order and DATA, nothing
  else whatever the addresses contain, and then a message that a receiver decodes to the body,
  with a final CRLF if it had none, and nothing after it.  The same for byte bodies.
\<close>

theorem send_mail_on_wire:
  "(case send_mail (mock_env f k ent um) s to b c of
      (Ok r, d) \<Rightarrow> \<exists>bytes. m_written (transport d) = m_written (transport c) @ bytes \<and>
        server_view bytes = Some (mail_line s # map rcpt_line to, crlf_terminated b, [])
    | (Err e, d) \<Rightarrow> True) \<and>
   (case send_mail_bytes (mock_env f k ent um) s to b c of
      (Ok r, d) \<Rightarrow> \<exists>bytes. m_written (transport d) = m_written (transport c) @ bytes \<and>
        server_view bytes = Some (mail_line s # map rcpt_line to, crlf_terminated b, [])
    | (Err e, d) \<Rightarrow> True)"
proof -
  let ?env = "mock_env f k ent um"
  have sent: "holds (send_mail ?env s to b c) (\<lambda>_ d. m_written (transport d) = m_written (transport c) @
      envelope_bytes (format_mail_from s) to @ dot_stuff_and_terminate b) (\<lambda>_ _. True)"
    by (rule mock_wrote.send_mail_wrote)
  have view: "server_view (envelope_bytes (format_mail_from s) to @ dot_stuff_and_terminate b) =
      Some (mail_line s # map rcpt_line to, crlf_terminated b, [])"
    if "send_mail ?env s to b c = (Ok r, d)" for r d
    using server_view_mail [OF send_mail_valid [OF that], of b "[]"] by simp
  have "send_mail_bytes ?env s to b c = send_mail ?env s to b c"
    by (simp add: send_mail_def send_mail_bytes_def)
  then show ?thesis using sent view by (fastforce simp: holds_def split: prod.splits sum.splits)
qed

text \<open>
  C20: nothing is sent, and nothing read, before the checks have passed, by any of the five ways to
  send a message, and of the streaming one also by its part before the body: unless the addresses are valid and there is a recipient, the state allows it, the
  policy has agreed (and, for SMTPUTF8, the server has advertised it), the connection is not used.
  A message that is built on the way must also have been serialized, and a streamed body is not
  read either.
\<close>

theorem checks_before_wire:
  "(transport (snd (send_mail env s to b c)) = transport c \<or>
      validate_envelope validate_address s to = Ok () \<and> state c \<in> {Authentication, MailFrom} \<and>
      check_policy (policy c) s to (length b) = Ok ()) \<and>
   (transport (snd (send_mail_bytes env s to b c)) = transport c \<or>
      validate_envelope validate_address s to = Ok () \<and> state c \<in> {Authentication, MailFrom} \<and>
      check_policy (policy c) s to (length b) = Ok ()) \<and>
   (transport (snd (send_message env s to serialized c)) = transport c \<or>
      validate_envelope validate_address s to = Ok () \<and> state c \<in> {Authentication, MailFrom} \<and>
      (\<exists>text. serialized = Ok text \<and> check_policy (policy c) s to (length text) = Ok ())) \<and>
   (transport (snd (send_mail_smtputf8 env s to b c)) = transport c \<or>
      validate_envelope validate_address_utf8 s to = Ok () \<and>
      state c \<in> {Authentication, MailFrom} \<and> ehlo_advertises_smtputf8 (capabilities c) \<and>
      check_policy (policy c) s to (length b) = Ok ()) \<and>
   (transport (snd (begin_stream env s to c)) = transport c \<or>
      validate_envelope validate_address s to = Ok () \<and> state c \<in> {Authentication, MailFrom} \<and>
      check_policy (policy c) s to (e_usize_max env) = Ok ()) \<and>
   ((\<exists>e d. send_mail_stream rc env s to body c = Some ((Err e, d), body) \<and>
        transport d = transport c) \<or>
      validate_envelope validate_address s to = Ok () \<and> state c \<in> {Authentication, MailFrom} \<and>
      check_policy (policy c) s to (e_usize_max env) = Ok ())"
proof (intro conjI)
  show "transport (snd (send_mail_smtputf8 env s to b c)) = transport c \<or>
      validate_envelope validate_address_utf8 s to = Ok () \<and>
      state c \<in> {Authentication, MailFrom} \<and> ehlo_advertises_smtputf8 (capabilities c) \<and>
      check_policy (policy c) s to (length b) = Ok ()"
    unfolding send_mail_smtputf8_def
    by (intro untouched_input untouched_state) (auto simp: untouched_abort untouched_refused)
  show "transport (snd (send_message env s to serialized c)) = transport c \<or>
      validate_envelope validate_address s to = Ok () \<and> state c \<in> {Authentication, MailFrom} \<and>
      (\<exists>text. serialized = Ok text \<and> check_policy (policy c) s to (length text) = Ok ())"
    using send_mail_untouched [of env s to _ c] by (cases serialized) (auto simp: send_message_def)
qed (rule send_mail_untouched send_mail_bytes_untouched begin_stream_untouched send_mail_stream_untouched)+

text \<open>
  C28: a server that accepts gets the message: if the checks pass and the server answers MAIL, each
  RCPT and the message with well-formed replies of class 2, and DATA with 354, then \<open>send_mail\<close>
  succeeds, with the code and text of the last reply, whether or not it pipelines; what it has
  written is the same in both cases, the sink knows every acceptance, and what the server says
  next is left unread.
\<close>

theorem send_mail_completes:
  assumes "validate_envelope validate_address s to = Ok ()"
    and "state c \<in> {Authentication, MailFrom}"
    and "check_policy (policy c) s to (length b) = Ok ()"
    and "mock_ready (transport c)" and "rx_ok c"
    and "unread mock_bytes c = server_says t @ rest" and "accepting to t"
  shows "\<exists>d. send_mail (mock_env f k ent um) s to b c =
       (Ok (send_outcome_new (code_of_text (to_message t)) (join [LF] (snd (to_message t)))), d) \<and>
     state d = MailFrom \<and> unread mock_bytes d = rest \<and>
     audit d = audit c @ events_of t @ [MessageAccepted (code_of_text (to_message t))] \<and>
     m_written (transport d) = m_written (transport c) @
       envelope_bytes (format_mail_from s) to @ dot_stuff_and_terminate b"
proof -
  have at: "hears c (server_says t @ rest) (m_written (transport c)) c"
    using follows_start [OF assms(4,5)] assms(6) by simp
  show ?thesis
    using mock_talk.send_mail_talk [OF at assms(7,1-3), of f k ent um]
    by (auto simp: holds_def follows_def quiet_def told_def split: prod.splits sum.splits)
qed

text \<open>A transaction with two recipients on a server that pipelines.\<close>

definition sample_transaction :: transaction where
  "sample_transaction =
     \<lparr>to_mail = (250, [lit ''ok'']), to_rcpts = [(250, [lit ''ok'']), (251, [lit ''will forward''])],
      to_data = (354, [lit ''go'']), to_message = (250, [lit ''queued'', lit ''as 1''])\<rparr>"

definition sample_client :: "mock client" where
  "sample_client =
     (client_new (mock_new [server_says sample_transaction]) (lit ''c'') default_policy [])
     \<lparr>state := Authentication, capabilities := [lit ''PIPELINING'']\<rparr>"

lemma sample_lines: "list_all line_ok
   [lit ''ok'', lit ''will forward'', lit ''go'', lit ''queued'', lit ''as 1'']"
  by (simp add: line_ok_def valid_utf8_ascii is_ascii_def lit_def MAX_REPLY_LINE_LEN_def)

lemma sample_accepting: "accepting [a, b] sample_transaction"
  using sample_lines
  by (simp add: accepting_def accepts_def sayable_def sample_transaction_def MAX_REPLY_LINES_def)

lemma sample_client_facts:
  "mock_ready (transport sample_client)" "rx_ok sample_client" "state sample_client = Authentication"
  "policy sample_client = default_policy" "m_written (transport sample_client) = []"
  "unread mock_bytes sample_client = server_says sample_transaction @ []"
  by (simp_all add: sample_client_def client_new_def mock_new_def mock_build_def mock_ready_def
        rx_ok_def RX_BUF_COMPACT_THRESHOLD_def unread_def mock_bytes_def server_says_def
        sample_transaction_def say_def code_digits_def)

lemma sample_addresses:
  "validate_envelope validate_address (lit ''a@b'') [lit ''c@d'', lit ''e@f''] = Ok ()"
  by code_simp

theorem send_mail_completes_witness:
  "\<exists>d. send_mail (mock_env default_features toy_crypto None 0) (lit ''a@b'')
       [lit ''c@d'', lit ''e@f''] (lit ''.hi'') sample_client =
         (Ok (send_outcome_new 250 (lit ''queued'' @ [LF] @ lit ''as 1'')), d) \<and>
     state d = MailFrom \<and> unread mock_bytes d = []"
proof -
  have "check_policy (policy sample_client) (lit ''a@b'') [lit ''c@d'', lit ''e@f'']
      (length (lit ''.hi'')) = Ok ()"
    by (simp add: check_policy_def sample_client_facts default_policy_def)
  from send_mail_completes [OF sample_addresses _ this sample_client_facts(1,2,6) sample_accepting]
  show ?thesis
    by (fastforce simp: sample_client_facts(3) sample_transaction_def code_of_text_def)
qed

text \<open>
  C18: streaming is only a way to store less: for any body behind the \<open>MessageBody\<close> contract of
  \<open>SliceBody\<close> and \<open>StrBody\<close>, \<open>send_mail_stream\<close> ends, and if the policy does not tell the body's
  size from \<open>usize::MAX\<close> it does exactly what \<open>send_mail_bytes\<close> does with the whole body: the same
  result, the same bytes written, the same client.
\<close>

theorem stream_equals_bytes:
  assumes "check_message_size (policy c) um = check_message_size (policy c) (length data)"
  shows "(\<exists>b. send_mail_stream slice_read_chunk (mock_env f k ent um) s to (slice_body_new data) c =
       Some (send_mail_bytes (mock_env f k ent um) s to data c, b)) \<and>
     (\<exists>b. send_mail_stream str_read_chunk (mock_env f k ent um) s to (str_body_new data) c =
       Some (send_mail_bytes (mock_env f k ent um) s to data c, b))"
  using slice_source.send_mail_stream_mock [of c um "slice_body_new data" f k ent s to]
    str_source.send_mail_stream_mock [of c um "str_body_new data" f k ent s to] assms
  by simp

theorem stream_equals_bytes_witness:
  "\<exists>b. send_mail_stream slice_read_chunk (mock_env default_features toy_crypto None 18446744073709551615)
       (lit ''a@b'') [lit ''c@d'', lit ''e@f''] (slice_body_new (lit ''.hi'')) sample_client =
     Some (send_mail_bytes (mock_env default_features toy_crypto None 18446744073709551615)
       (lit ''a@b'') [lit ''c@d'', lit ''e@f''] (lit ''.hi'') sample_client, b)"
proof -
  have "check_message_size (policy sample_client) 18446744073709551615 =
      check_message_size (policy sample_client) (length (lit ''.hi''))"
    by (simp add: sample_client_facts default_policy_def)
  from stream_equals_bytes [OF this] show ?thesis by blast
qed

text \<open>
  A \<open>BoundedPolicy\<close> with any size limit below \<open>usize::MAX\<close> refuses every streamed message,
  whatever its size, before anything is sent: the size the policy is asked about is always
  \<open>usize::MAX\<close>.
\<close>

theorem size_limit_refuses_streams:
  assumes "policy c = bounded_send_policy p" and "bp_max_message_bytes p = Some m"
    and "m < e_usize_max env"
  shows "\<exists>e. send_mail_stream rc env s to body c = Some ((Err e, c), body)"
  using assms
  by (cases "validate_envelope validate_address s to")
     (auto simp: send_mail_stream_def begin_stream_def assert_state_in_def check_policy_def
        bounded_send_policy_def bounded_check_message_size_def both_def split: sum.splits)

theorem size_limit_refuses_streams_witness:
  "\<exists>e. send_mail_stream slice_read_chunk (mock_env default_features toy_crypto None 4294967295)
       (lit ''a@b'') [lit ''c@d''] (slice_body_new [])
       (sample_client\<lparr>policy := bounded_send_policy (max_message_bytes 10 bounded_policy_new)\<rparr>) =
     Some ((Err e, sample_client
       \<lparr>policy := bounded_send_policy (max_message_bytes 10 bounded_policy_new)\<rparr>), slice_body_new [])"
  by (rule size_limit_refuses_streams [where p = "max_message_bytes 10 bounded_policy_new" and m = 10])
     (simp_all add: max_message_bytes_def mock_usize)

end
