(* ===== verification/Client_Session.thy ===== *)
theory Client_Session
  imports Client_Wire
begin

text \<open>
  The life of a session: connecting, STARTTLS and QUIT, from \<open>wasm-smtp/src/client/mod.rs\<close> and
  \<open>client/starttls.rs\<close>, and the sessions that the public methods can reach.
\<close>

subsection \<open>Connecting\<close>

text \<open>The audit sink of the options is what it has been told so far.\<close>

record client_options =
  o_policy :: send_policy
  o_audit :: "audit_event list"

definition options_new :: client_options where
  "options_new = \<lparr>o_policy = default_policy, o_audit = []\<rparr>"

definition with_policy :: "send_policy \<Rightarrow> client_options \<Rightarrow> client_options" where
  "with_policy p o' = o'\<lparr>o_policy := p\<rparr>"

definition with_audit :: "audit_event list \<Rightarrow> client_options \<Rightarrow> client_options" where
  "with_audit a o' = o'\<lparr>o_audit := a\<rparr>"

text \<open>
  The client is part of the outcome on failure too: the caller does not get it, but its sink and
  its connection have seen what happened.
\<close>

definition connect_with ::
    "'t env \<Rightarrow> 't \<Rightarrow> str \<Rightarrow> client_options \<Rightarrow> (smtp_error + unit) \<times> 't client" where
  "connect_with env t dm options =
     (let client = client_new t dm (o_policy options) (o_audit options)
      in and_then (check (map_err InvalidInput (validate_ehlo_domain dm)) client) (\<lambda>_ c.
         and_then (emit Connected c) (\<lambda>_ c.
         and_then (read_greeting env c) (\<lambda>_ c.
         and_then (send_ehlo env dm c) (\<lambda>_ c. (Ok (), c))))))"

definition connect :: "'t env \<Rightarrow> 't \<Rightarrow> str \<Rightarrow> (smtp_error + unit) \<times> 't client" where
  "connect env t dm = connect_with env t dm options_new"

subsection \<open>STARTTLS\<close>

text \<open>The plaintext half: up to the server's go-ahead.\<close>

definition request_tls :: "'t env \<Rightarrow> 't client \<Rightarrow> (smtp_error + unit) \<times> 't client" where
  "request_tls env c =
     and_then (assert_state_in [Authentication] c) (\<lambda>_ c.
     if \<not> ehlo_advertises_starttls (capabilities c) then
       abort_with (Protocol (ExtensionUnavailable (lit ''STARTTLS''))) c
     else
       and_then (transition StartTls c) (\<lambda>_ c.
       and_then (write_all env (format_command (lit ''STARTTLS'')) c) (\<lambda>_ c.
       and_then (expect_code env 220 OpStartTls c) (\<lambda>_ c.
       let residue = length (rx_buf c) - rx_pos c
       in if 0 < residue then abort_with (Protocol (StartTlsBufferResidue residue)) c
          else (Ok (), c)))))"

definition upgrade :: "'t env \<Rightarrow> 't client \<Rightarrow> (smtp_error + unit) \<times> 't client" where
  "upgrade env c =
     (case t_upgrade_to_tls (e_ops env) (transport c) of
        (Ok u, t) \<Rightarrow> (Ok (), c\<lparr>transport := t\<rparr>)
      | (Err e, t) \<Rightarrow> abort_with (Io e) (c\<lparr>transport := t\<rparr>))"

definition starttls :: "'t env \<Rightarrow> 't client \<Rightarrow> (smtp_error + unit) \<times> 't client" where
  "starttls env c =
     and_then (request_tls env c) (\<lambda>_ c.
     and_then (upgrade env (c\<lparr>capabilities := []\<rparr>)) (\<lambda>_ c.
     and_then (emit TlsUpgraded c) (\<lambda>_ c.
     and_then (transition Ehlo c) (\<lambda>_ c.
     and_then (send_ehlo env (ehlo_domain c) c) (\<lambda>_ c. (Ok (), c))))))"

definition connect_starttls :: "'t env \<Rightarrow> 't \<Rightarrow> str \<Rightarrow> (smtp_error + unit) \<times> 't client" where
  "connect_starttls env t dm =
     and_then (connect env t dm) (\<lambda>_ c. and_then (starttls env c) (\<lambda>_ c. (Ok (), c)))"

subsection \<open>QUIT\<close>

definition quit_exchange :: "'t env \<Rightarrow> 't client \<Rightarrow> (smtp_error + unit) \<times> 't client" where
  "quit_exchange env c =
     and_then (transition Quit c) (\<lambda>_ c.
     and_then (write_all env (format_command (lit ''QUIT'')) c) (\<lambda>_ c.
     and_then (expect_code env 221 OpQuit c) (\<lambda>_ c. (Ok (), c))))"

definition quit :: "'t env \<Rightarrow> 't client \<Rightarrow> (smtp_error + unit) \<times> 't client" where
  "quit env c =
     (if state c = Closed then (Ok (), c)
      else
        let (send_result, c) = quit_exchange env c;
            (close_result, t) = t_close (e_ops env) (transport c);
            c = c\<lparr>transport := t, state := Closed\<rparr>;
            c = on_event (if \<not> isl send_result \<and> \<not> isl close_result
                          then QuitCompleted else SessionAborted) c
        in and_then (check send_result c) (\<lambda>_ c.
           and_then (check (map_err Io close_result) c) (\<lambda>_ c. (Ok (), c))))"

subsection \<open>What every operation respects\<close>

context speaking_relation
begin

lemma R_connect:
  "R (client_new t dm (o_policy options) (o_audit options)) (snd (connect_with env t dm options))"
  unfolding connect_with_def Let_def by (intro rel_intros)

lemma R_request_tls: "R c (snd (request_tls env c))"
  unfolding request_tls_def Let_def by (intro rel_intros)

lemma R_quit_exchange: "R c (snd (quit_exchange env c))"
  unfolding quit_exchange_def by (intro rel_intros)

end

context client_relation
begin

lemma R_upgrade: "R c (snd (upgrade env c))"
  by (auto simp: upgrade_def intro: upgrading R_abort_after split: prod.splits sum.splits)

lemma R_starttls: "R c (snd (starttls env c))"
proof -
  have "R c (snd (upgrade env (c\<lparr>capabilities := []\<rparr>)))" for c
    by (rule trans [OF forgetting R_upgrade])
  then show ?thesis
    unfolding starttls_def by (intro rel_intros R_request_tls)
qed

lemma R_quit: "R c (snd (quit env c))"
proof -
  obtain r d where d: "quit_exchange env c = (r, d)" by fastforce
  obtain q t where t: "t_close (e_ops env) (transport d) = (q, t)" by fastforce
  have "R c d" using R_quit_exchange [of c] d by simp
  moreover have "R d (d\<lparr>transport := t\<rparr>)" by (rule releasing [OF t])
  moreover have "R (d\<lparr>transport := t\<rparr>) ((d\<lparr>transport := t\<rparr>)\<lparr>state := Closed\<rparr>)" by (rule moving) simp
  ultimately have "R c (on_event e ((d\<lparr>transport := t\<rparr>)\<lparr>state := Closed\<rparr>))" for e
    using trans event by blast
  then show ?thesis
    by (cases r; cases q) (auto simp: quit_def d t refl Let_def)
qed

end

subsection \<open>How they end\<close>

lemma after_ehlo:
  assumes "after c es Ehlo d"
    and "\<And>d'. state d' = Authentication \<Longrightarrow> audit d' = audit c @ es @ [EhloCompleted] \<Longrightarrow>
           holds (k () d') Q (failed c)"
  shows "holds (and_then (send_ehlo env dm d) k) Q (failed c)"
proof (rule holds_and_then)
  have "holds (send_ehlo env dm d)
      (\<lambda>_ d'. state d' = Authentication \<and> audit d' = audit d @ [EhloCompleted]) (failed d)"
    by (rule send_ehlo_spec [OF after_facts(1) [OF assms(1)]])
  then show "holds (send_ehlo env dm d)
      (\<lambda>_ d'. state d' = Authentication \<and> audit d' = audit c @ es @ [EhloCompleted]) (failed c)"
    by (rule holds_weaken) (auto simp: after_facts(2) [OF assms(1)] intro: after_failed [OF assms(1)])
qed (use assms(2) in auto)

lemma connect_with_spec:
  "holds (connect_with env t dm options)
     (\<lambda>_ d. state d = Authentication \<and> validate_ehlo_domain dm = Ok () \<and>
        (\<exists>code. audit d = o_audit options @ [Connected, GreetingReceived code, EhloCompleted]))
     (failed_or_unchanged (client_new t dm (o_policy options) (o_audit options)))"
proof -
  let ?c = "client_new t dm (o_policy options) (o_audit options)"
  let ?d = "on_event Connected ?c"
  have st: "state ?d = Greeting" "audit ?d = audit ?c @ [Connected]" "audit ?c = o_audit options"
    by (simp_all add: client_new_def on_event_def)
  have run: "holds (and_then (read_greeting env ?d) (\<lambda>_ c.
         and_then (send_ehlo env dm c) (\<lambda>_ c. (Ok (), c))))
     (\<lambda>_ d. state d = Authentication \<and>
        (\<exists>code. audit d = o_audit options @ [Connected, GreetingReceived code, EhloCompleted]))
     (failed ?c)"
  proof (rule holds_and_then)
    show "holds (read_greeting env ?d) (\<lambda>_ e. state e = Ehlo \<and>
        (\<exists>code. audit e = audit ?c @ [Connected, GreetingReceived code])) (failed ?c)"
      by (rule holds_weaken [OF read_greeting_spec [OF st(1)]])
         (auto simp: st intro: failed_mono [of _ _ _ ?c "[Connected]"])
  next
    fix e :: "'a client"
    assume "state e = Ehlo \<and> (\<exists>code. audit e = audit ?c @ [Connected, GreetingReceived code])"
    then obtain code where e: "state e = Ehlo" "audit e = audit ?c @ [Connected, GreetingReceived code]"
      by blast
    have "holds (send_ehlo env dm e) (\<lambda>_ d. state d = Authentication \<and>
        audit d = audit e @ [EhloCompleted]) (failed e)"
      by (rule send_ehlo_spec [OF e(1)])
    then have "holds (send_ehlo env dm e) (\<lambda>_ d. state d = Authentication \<and>
        audit d = audit e @ [EhloCompleted]) (failed ?c)"
      by (rule holds_weaken) (auto intro: failed_mono [OF _ e(2)])
    then show "holds (and_then (send_ehlo env dm e) (\<lambda>_ c. (Ok (), c)))
     (\<lambda>_ d. state d = Authentication \<and>
        (\<exists>code. audit d = o_audit options @ [Connected, GreetingReceived code, EhloCompleted]))
     (failed ?c)"
      by (rule holds_and_then) (auto simp: e st)
  qed
  show ?thesis
  proof (cases "validate_ehlo_domain dm")
    case (Inl e)
    then show ?thesis by (simp add: connect_with_def failed_or_unchanged_def Let_def)
  next
    case (Inr u)
    then show ?thesis
      using holds_weaken [OF run] by (simp add: connect_with_def Let_def emit_def failed_or_unchanged_def)
  qed
qed

text \<open>Where \<open>request_tls\<close> leaves the client for the upgrade.\<close>

definition tls_ready :: "'t client \<Rightarrow> 't client \<Rightarrow> bool" where
  "tls_ready c d \<longleftrightarrow> after c [] StartTls d \<and> length (rx_buf d) \<le> rx_pos d \<and>
     state c = Authentication \<and> ehlo_advertises_starttls (capabilities c)"

lemma request_tls_spec: "holds (request_tls env c) (\<lambda>_. tls_ready c) (failed_or_unchanged c)"
  unfolding request_tls_def Let_def
proof (rule holds_assert_state, rule holds_if)
  assume "state c \<in> set [Authentication]"
  then show "holds (abort_with (Protocol (ExtensionUnavailable (lit ''STARTTLS''))) c)
      (\<lambda>_. tls_ready c) (failed_or_unchanged c)"
    by (intro abort_unchanged_spec) auto
next
  assume st: "state c \<in> set [Authentication]"
    and adv: "\<not> \<not> ehlo_advertises_starttls (capabilities c)"
  have start: "after c [] Authentication c" using st by (intro after_start) auto
  have move: "can_transition_to Authentication StartTls" by (simp add: can_transition_to_def)
  have "holds (and_then (transition StartTls c) (\<lambda>_ c.
       and_then (write_all env (format_command (lit ''STARTTLS'')) c) (\<lambda>_ c.
       and_then (expect_code env 220 OpStartTls c) (\<lambda>_ c.
       if 0 < length (rx_buf c) - rx_pos c then
         abort_with (Protocol (StartTlsBufferResidue (length (rx_buf c) - rx_pos c))) c
       else (Ok (), c))))) (\<lambda>_. tls_ready c) (failed c)"
    by (rule after_transition [OF start move], simp, erule after_write, erule after_expect_code,
        rule holds_if, erule after_abort) (use st adv in \<open>auto simp: tls_ready_def\<close>)
  then show "holds (and_then (transition StartTls c) (\<lambda>_ c.
       and_then (write_all env (format_command (lit ''STARTTLS'')) c) (\<lambda>_ c.
       and_then (expect_code env 220 OpStartTls c) (\<lambda>_ c.
       if 0 < length (rx_buf c) - rx_pos c then
         abort_with (Protocol (StartTlsBufferResidue (length (rx_buf c) - rx_pos c))) c
       else (Ok (), c))))) (\<lambda>_. tls_ready c) (failed_or_unchanged c)"
    by (rule holds_weaken) (simp_all add: failed_or_unchanged_def)
qed

text \<open>The client right after the upgrade of \<open>e\<close> to the connection \<open>t\<close>.\<close>

definition upgraded :: "'t client \<Rightarrow> 't \<Rightarrow> 't client" where
  "upgraded e t = (on_event TlsUpgraded (e\<lparr>capabilities := [], transport := t\<rparr>))\<lparr>state := Ehlo\<rparr>"

lemma starttls_spec:
  "holds (starttls env c)
     (\<lambda>_ d. state d = Authentication \<and> audit d = audit c @ [TlsUpgraded, EhloCompleted] \<and>
        (\<exists>e t. tls_ready c e \<and> request_tls env c = (Ok (), e) \<and>
           t_upgrade_to_tls (e_ops env) (transport e) = (Ok (), t) \<and>
           send_ehlo env (ehlo_domain c) (upgraded e t) = (Ok (), d)))
     (failed_or_unchanged c)"
proof (cases "request_tls env c")
  case (Pair r e)
  show ?thesis
  proof (cases r)
    case (Inl x)
    then show ?thesis using request_tls_spec [of env c] Pair by (simp add: starttls_def)
  next
    case (Inr u)
    then have e: "tls_ready c e" using request_tls_spec [of env c] Pair by simp
    then have after: "after c [] StartTls e" and dm: "ehlo_domain e = ehlo_domain c"
      by (simp_all add: tls_ready_def after_def quiet_def)
    then have st: "state e = StartTls" "audit e = audit c" by (simp_all add: after_facts)
    obtain q t where up: "t_upgrade_to_tls (e_ops env) (transport e) = (q, t)" by fastforce
    show ?thesis
    proof (cases q)
      case (Inl x)
      have "failed c (Io x) (mark_closed (e\<lparr>capabilities := [], transport := t\<rparr>))"
        using st by (auto simp: failed_def mark_closed_def on_event_def)
      then show ?thesis
        using Inl Inr up
        by (simp add: starttls_def Pair upgrade_def abort_with_def failed_or_unchanged_def)
    next
      case ok: (Inr v)
      have eq: "starttls env c = and_then (send_ehlo env (ehlo_domain c) (upgraded e t)) (\<lambda>_ c. (Ok (), c))"
        using ok Inr up st dm
        by (simp add: starttls_def Pair upgrade_def emit_def transition_def can_transition_to_def
              on_event_def upgraded_def)
      have f: "failed (upgraded e t) x d \<Longrightarrow> failed c x d" for x d
        by (erule failed_mono [where es = "[TlsUpgraded]"]) (simp_all add: upgraded_def on_event_def st)
      have "holds (send_ehlo env (ehlo_domain c) (upgraded e t))
          (\<lambda>_ d. state d = Authentication \<and> audit d = audit (upgraded e t) @ [EhloCompleted])
          (failed (upgraded e t))"
        by (rule send_ehlo_spec) (simp add: upgraded_def)
      then show ?thesis
        using Inr ok up e Pair f
        by (cases "send_ehlo env (ehlo_domain c) (upgraded e t)";
            cases "fst (send_ehlo env (ehlo_domain c) (upgraded e t))")
           (auto simp: eq upgraded_def on_event_def st failed_or_unchanged_def)
    qed
  qed
qed

subsection \<open>On the mock\<close>

text \<open>Scripts without empty chunks, before and after the upgrade.\<close>

definition mock_fine :: "mock client \<Rightarrow> bool" where
  "mock_fine c \<longleftrightarrow> mock_ready (transport c) \<and>
     list_all (\<lambda>x. x \<noteq> []) (m_pending_post (transport c)) \<and> rx_ok c"

definition mock_keeps :: "mock client \<Rightarrow> mock client \<Rightarrow> bool" where
  "mock_keeps c d \<longleftrightarrow> (mock_fine c \<longrightarrow> mock_fine d)"

lemma mock_read_keeps:
  "mock_read t n = (r, t') \<Longrightarrow> 0 < n \<Longrightarrow> mock_ready t \<Longrightarrow>
   mock_ready t' \<and> m_pending_post t' = m_pending_post t"
  by (auto simp: mock_read_def mock_ready_def Let_def split: list.splits)

lemma mock_upgrade_keeps:
  "mock_upgrade_to_tls t = (r, t') \<Longrightarrow> mock_ready t \<Longrightarrow> list_all (\<lambda>x. x \<noteq> []) (m_pending_post t) \<Longrightarrow>
   mock_ready t' \<and> list_all (\<lambda>x. x \<noteq> []) (m_pending_post t')"
  by (auto simp: mock_upgrade_to_tls_def mock_ready_def Let_def split: upgrade_behavior.splits)

lemma mock_env_ops: "e_ops (mock_env f k ent um) = mock_ops"
  by (simp add: mock_env_def)

interpretation script: client_relation "mock_env f k ent um" mock_keeps for f k ent um
proof
  fix c :: "mock client" and bs t
  assume "t_read (e_ops (mock_env f k ent um)) (transport c) READ_CHUNK = (Ok bs, t)"
    and "length (rx_buf c) - rx_pos c \<le> RX_BUF_HARD_LIMIT"
  then show "mock_keeps c (c\<lparr>transport := t, rx_buf := rx_buf c @ bs\<rparr>)"
    using mock_client.buffer.reading [of f k ent um c bs t]
      mock_read_keeps [of "transport c" READ_CHUNK "Ok bs" t]
    by (auto simp: mock_keeps_def mock_fine_def rx_keeps_def mock_env_ops READ_CHUNK_def)
next
  fix c :: "mock client" and k'
  assume "find_crlf (drop (rx_pos c) (rx_buf c)) = Some k'"
  from mock_client.buffer.consuming [OF this]
  show "mock_keeps c (compact_rx (c\<lparr>rx_pos := rx_pos c + k' + 2\<rparr>))"
    by (auto simp: mock_keeps_def mock_fine_def rx_keeps_def compact_rx_def)
qed (auto simp: mock_keeps_def mock_fine_def rx_ok_def on_event_def store_capabilities_def
       mock_env_ops mock_write_all_def default_flush_def mock_close_def mock_ready_def
       dest!: mock_read_keeps mock_upgrade_keeps simp: READ_CHUNK_def)

text \<open>EHLO on a given stream.\<close>

definition ehlo_client :: "reply \<Rightarrow> 't client \<Rightarrow> 't client" where
  "ehlo_client r c =
     (on_event EhloCompleted (store_capabilities (drop 1 (r_lines r)) c))\<lparr>state := Authentication\<rparr>"

context client_recorder
begin

lemma quit_exchange_wrote:
  "holds (quit_exchange env c)
     (\<lambda>_ d. written (transport d) = written (transport c) @ format_command (lit ''QUIT'')) (\<lambda>_ _. True)"
  unfolding quit_exchange_def
  by (rule wrote_hear [OF hearing.R_transition refl], rule wrote_write, assumption,
      rule wrote_hear [OF hearing.R_expect_code], assumption) simp

end

context client_talk
begin

lemma ehlo_talk:
  assumes "at c0 s w d" and "state c0 = Ehlo"
  shows "holds (and_then (emit EhloCompleted (store_capabilities ls d)) (\<lambda>_ c. transition Authentication c))
     (\<lambda>_. at ((on_event EhloCompleted (store_capabilities ls c0))\<lparr>state := Authentication\<rparr>) s w) never"
  using assms
  by (auto simp: emit_def transition_def on_event_def store_capabilities_def follows_def quiet_def
        unread_def can_transition_to_def)

lemma send_ehlo_talk:
  assumes "at c0 s w c" and "state c0 = Ehlo"
  shows "holds (send_ehlo env dm c)
     (\<lambda>_ d. \<exists>r s'. stream_reply (enhanced_status_enabled c0) [] None s = Ok (r, s') \<and>
        reply_class r = 2 \<and>
        at (ehlo_client r c0) s' (w @ format_command_arg (lit ''EHLO'') dm) d) (\<lambda>_ _. True)"
proof -
  let ?w = "w @ format_command_arg (lit ''EHLO'') dm"
  have open_: "state c0 \<noteq> Closed" using assms(2) by simp
  show ?thesis
    unfolding send_ehlo_def
  proof (rule talk_write [OF assms(1)], rule talk_read [OF _ open_], assumption,
      rule holds_if)
    fix r s' e
    assume r: "stream_reply (enhanced_status_enabled c0) [] None s = Ok (r, s')" "at c0 s' ?w e"
      "\<not> reply_class r \<noteq> 2"
    from ehlo_talk [OF r(2) assms(2), of "drop 1 (r_lines r)"]
    show "holds (and_then (emit EhloCompleted (store_capabilities (drop 1 (r_lines r)) e))
        (\<lambda>_ c. transition Authentication c))
      (\<lambda>_ d. \<exists>r s'. stream_reply (enhanced_status_enabled c0) [] None s = Ok (r, s') \<and>
        reply_class r = 2 \<and> at (ehlo_client r c0) s' ?w d) (\<lambda>_ _. True)"
      by (rule holds_weaken) (use r in \<open>auto simp: ehlo_client_def\<close>)
  qed (simp_all add: abort_with_def)
qed

lemma send_ehlo_completes:
  assumes "at c0 (say r @ s) w c" and "state c0 = Ehlo" and "accepts r"
  shows "holds (send_ehlo env dm c)
     (\<lambda>_. at (ehlo_client (heard (enhanced_status_enabled c0) r) c0) s
        (w @ format_command_arg (lit ''EHLO'') dm)) never"
proof -
  have open_: "state c0 \<noteq> Closed" using assms(2) by simp
  show ?thesis
    unfolding send_ehlo_def
  proof (rule talk_write [OF assms(1)],
      rule talk_read_ok [OF _ open_ stream_say [OF accepts_sayable [OF assms(3)]]], assumption)
    fix d assume "at c0 s (w @ format_command_arg (lit ''EHLO'') dm) d"
    from ehlo_talk [OF this assms(2)]
    show "holds (if reply_class (heard (enhanced_status_enabled c0) r) \<noteq> 2
        then abort_with (unexpected_code OpEhlo 2 (heard (enhanced_status_enabled c0) r)) d
        else and_then (emit EhloCompleted (store_capabilities
            (drop 1 (r_lines (heard (enhanced_status_enabled c0) r))) d))
          (\<lambda>_ c. transition Authentication c))
      (\<lambda>_. at (ehlo_client (heard (enhanced_status_enabled c0) r) c0) s
        (w @ format_command_arg (lit ''EHLO'') dm)) never"
      by (simp add: heard_accepts [OF assms(3)] ehlo_client_def)
  qed
qed

lemma read_greeting_completes:
  assumes "at c0 (say r @ s) w c" and "state c0 = Greeting" and "accepts r"
  shows "holds (read_greeting env c)
     (\<lambda>_. at (told [GreetingReceived (code_of_text r)] (c0\<lparr>state := Ehlo\<rparr>)) s w) never"
proof -
  have open_: "state c0 \<noteq> Closed" using assms(2) by simp
  show ?thesis
    unfolding read_greeting_def
  proof (rule talk_read_ok [OF assms(1) open_ stream_say [OF accepts_sayable [OF assms(3)]]])
    fix d assume "at c0 s w d"
    then show "holds (if reply_class (heard (enhanced_status_enabled c0) r) \<noteq> 2
        then abort_with (unexpected_code OpGreeting 2 (heard (enhanced_status_enabled c0) r)) d
        else and_then (emit (GreetingReceived (r_code (heard (enhanced_status_enabled c0) r))) d)
          (\<lambda>_ c. transition Ehlo c))
      (\<lambda>_. at (told [GreetingReceived (code_of_text r)] (c0\<lparr>state := Ehlo\<rparr>)) s w) never"
      using assms(2)
      by (auto simp: heard_accepts [OF assms(3)] emit_def on_event_def transition_def told_def
            follows_def quiet_def unread_def can_transition_to_def)
  qed
qed

end

subsection \<open>Sessions\<close>

text \<open>
  The public methods as steps of a session.  \<open>rc\<close> is the \<open>read_chunk\<close> of the bodies the caller
  streams.  \<open>quit\<close> takes the client away and is not a step.
\<close>

inductive api_step ::
    "('b \<Rightarrow> nat \<Rightarrow> (io_error + byte list) \<times> 'b) \<Rightarrow> 't env \<Rightarrow> 't client \<Rightarrow> 't client \<Rightarrow> bool"
  for rc env where
  step_login: "api_step rc env c (snd (login env u p c))"
| step_login_with: "api_step rc env c (snd (login_with env m u p c))"
| step_starttls: "api_step rc env c (snd (starttls env c))"
| step_send_mail: "api_step rc env c (snd (send_mail env s to b c))"
| step_send_message: "api_step rc env c (snd (send_message env s to msg c))"
| step_send_mail_bytes: "api_step rc env c (snd (send_mail_bytes env s to b c))"
| step_send_mail_smtputf8: "api_step rc env c (snd (send_mail_smtputf8 env s to b c))"
| step_send_mail_stream:
    "send_mail_stream rc env s to body c = Some y \<Longrightarrow> api_step rc env c (snd (fst y))"

inductive_cases api_stepE: "api_step rc env c d"

inductive reachable ::
    "('b \<Rightarrow> nat \<Rightarrow> (io_error + byte list) \<times> 'b) \<Rightarrow> 't env \<Rightarrow> 't client \<Rightarrow> 't client \<Rightarrow> bool"
  for rc env c0 where
  reach_start: "reachable rc env c0 c0"
| reach_step: "reachable rc env c0 c \<Longrightarrow> api_step rc env c d \<Longrightarrow> reachable rc env c0 d"

context client_relation
begin

lemma R_api_step: "api_step rc env c d \<Longrightarrow> R c d"
  by (induction rule: api_step.induct)
     (simp_all add: R_login R_login_with R_starttls R_send_mail R_send_message R_send_mail_bytes
        R_send_mail_smtputf8 R_send_mail_stream)

lemma R_reachable: "reachable rc env c0 c \<Longrightarrow> R c0 c"
  by (induction rule: reachable.induct) (auto intro: refl trans R_api_step)

end

text \<open>How a step can end: a new open state, the same client, or closed.\<close>

definition step_ok :: "'t client \<Rightarrow> 't client \<Rightarrow> bool" where
  "step_ok c d \<longleftrightarrow> d = c \<or> state c \<in> {Authentication, MailFrom} \<and>
     (state d \<in> {Authentication, MailFrom} \<and>
        (\<exists>es. audit d = audit c @ es \<and> SessionAborted \<notin> set es) \<or>
      state d = Closed \<and> (\<exists>es. audit d = audit c @ es @ [SessionAborted] \<and> SessionAborted \<notin> set es))"

lemma failed_step:
  "failed_or_unchanged c e d \<Longrightarrow> state c \<in> {Authentication, MailFrom} \<or> d = c \<Longrightarrow> step_ok c d"
  by (auto simp: failed_or_unchanged_def failed_def step_ok_def)

text \<open>Outside the two open states a method has no effect.\<close>

lemma idle_check: "snd (k () c) = c \<Longrightarrow> snd (and_then (check (map_err h r) c) k) = c"
  by (cases r) simp_all

lemma idle_state: "state c \<notin> set ss \<Longrightarrow> snd (and_then (assert_state_in ss c) k) = c"
  by (simp add: assert_state_in_def)

lemma idle_ops:
  assumes "state c \<notin> {Authentication, MailFrom}"
  shows "snd (login_with env m u p c) = c" and "snd (login env u p c) = c"
    and "snd (starttls env c) = c" and "snd (send_mail env s to b c) = c"
    and "snd (send_mail_bytes env s to b c) = c" and "snd (send_mail_smtputf8 env s to b c) = c"
    and "snd (begin_stream env s to c) = c" and "snd (send_message env s to msg c) = c"
proof -
  have st: "state c \<notin> set [Authentication]" "state c \<notin> set [Authentication, MailFrom]"
    using assms by auto
  show lw: "snd (login_with env m u p c) = c" for m
    unfolding login_with_def by (intro idle_check idle_state st)
  have "snd (and_then (check (map_err InvalidInput (validate_plain_username u)) c) (\<lambda>_ c.
          and_then (check (map_err InvalidInput (validate_plain_password p)) c) (\<lambda>_ c.
          and_then (assert_state_in [Authentication] c) (\<lambda>_ c.
          abort_with (Auth UnsupportedMechanism) c)))) = c"
    by (intro idle_check idle_state st)
  then show "snd (login env u p c) = c"
    unfolding login_def using lw
    by (cases "select_auth_mechanism (e_features env) (capabilities c)") (simp_all only: option.case)
  have "snd (request_tls env c) = c" "\<exists>x. fst (request_tls env c) = Err x"
    using assms by (simp_all add: request_tls_def assert_state_in_def)
  then show "snd (starttls env c) = c"
    by (cases "request_tls env c") (auto simp: starttls_def)
  show mail: "snd (send_mail env s to b c) = c" for b
    unfolding send_mail_def by (intro idle_check idle_state st)
  show "snd (send_mail_bytes env s to b c) = c"
    unfolding send_mail_bytes_def by (intro idle_check idle_state st)
  show "snd (send_mail_smtputf8 env s to b c) = c"
    unfolding send_mail_smtputf8_def by (intro idle_check idle_state st)
  show "snd (begin_stream env s to c) = c"
    unfolding begin_stream_def by (intro idle_check idle_state st)
  show "snd (send_message env s to msg c) = c"
    by (cases msg) (simp_all add: send_message_def mail)
qed

lemma begin_stream_idle:
  assumes "state c \<notin> {Authentication, MailFrom}" and "send_mail_stream rc env s to body c = Some y"
  shows "snd (fst y) = c"
proof -
  have "\<exists>x. fst (begin_stream env s to c) = Err x"
    using assms(1) by (cases "validate_envelope validate_address s to")
      (simp_all add: begin_stream_def assert_state_in_def)
  then show ?thesis
    using assms(2) idle_ops(7) [OF assms(1), of env s to]
    by (cases "begin_stream env s to c") (auto simp: send_mail_stream_def)
qed

lemma step_ok_spec:
  assumes "holds p Q (failed_or_unchanged c)"
    and "state c \<notin> {Authentication, MailFrom} \<Longrightarrow> snd p = c"
    and "\<And>a d. Q a d \<Longrightarrow> state c \<in> {Authentication, MailFrom} \<Longrightarrow> step_ok c d"
  shows "step_ok c (snd p)"
proof (cases "state c \<in> {Authentication, MailFrom}")
  case True
  then show ?thesis
    using assms(1,3) failed_step [of c] by (cases p; cases "fst p") auto
next
  case False
  then show ?thesis using assms(2) by (simp add: step_ok_def)
qed

lemma delivered_step: "delivered c to r d \<Longrightarrow> step_ok c d"
  unfolding delivered_def step_ok_def by (auto simp: after_def quiet_def)

lemma logged_in_step: "logged_in env m u p c d \<Longrightarrow> step_ok c d"
  unfolding logged_in_def step_ok_def by auto

lemma login_spec: "holds (login env u p c) (\<lambda>_ d. step_ok c d) (failed_or_unchanged c)"
proof (cases "select_auth_mechanism (e_features env) (capabilities c)")
  case None
  show ?thesis
    unfolding login_def None option.case
    by (intro holds_check_input holds_assert_state abort_unchanged_spec) auto
next
  case (Some m)
  then show ?thesis
    unfolding login_def option.case
    by simp (rule holds_weaken [OF login_with_spec], auto intro: logged_in_step)
qed

lemma api_step_ok: "api_step rc env c d \<Longrightarrow> step_ok c d"
proof (induction rule: api_step.induct)
  case (step_login c u p)
  show ?case by (rule step_ok_spec [OF login_spec]) (auto intro: idle_ops)
next
  case (step_login_with c m u p)
  show ?case by (rule step_ok_spec [OF login_with_spec]) (auto intro: idle_ops logged_in_step)
next
  case (step_starttls c)
  show ?case
    by (rule step_ok_spec [OF starttls_spec], rule idle_ops) (auto simp: step_ok_def)
next
  case (step_send_mail c s to b)
  show ?case by (rule step_ok_spec [OF send_mail_spec]) (auto intro: idle_ops delivered_step)
next
  case (step_send_message c s to msg)
  have "step_ok c (snd (send_mail env s to b c))" for b
    by (rule step_ok_spec [OF send_mail_spec]) (auto intro: idle_ops delivered_step)
  then show ?case by (cases msg) (simp_all add: send_message_def step_ok_def)
next
  case (step_send_mail_bytes c s to b)
  show ?case by (rule step_ok_spec [OF send_mail_bytes_spec]) (auto intro: idle_ops delivered_step)
next
  case (step_send_mail_smtputf8 c s to b)
  show ?case
    by (rule step_ok_spec [OF send_mail_smtputf8_spec]) (auto intro: idle_ops delivered_step)
next
  case (step_send_mail_stream s to body c y)
  show ?case
    by (rule step_ok_spec [OF send_mail_stream_spec [OF step_send_mail_stream]],
        rule begin_stream_idle [OF _ step_send_mail_stream]) (auto intro: delivered_step)
qed

text \<open>What has been logged since the start of a session, and in which state it is.\<close>

definition session_inv :: "'t client \<Rightarrow> 't client \<Rightarrow> bool" where
  "session_inv c0 c \<longleftrightarrow>
     (state c \<in> {Authentication, MailFrom} \<and>
        (\<exists>es. audit c = audit c0 @ es \<and> SessionAborted \<notin> set es) \<or>
      state c = Closed \<and>
        (\<exists>es. audit c = audit c0 @ es @ [SessionAborted] \<and> SessionAborted \<notin> set es))"

lemma session_inv_step: "session_inv c0 c \<Longrightarrow> step_ok c d \<Longrightarrow> session_inv c0 d"
  unfolding session_inv_def step_ok_def
proof (elim disjE conjE exE, goal_cases)
  case (5 es fs)
  then show ?case by (intro disjI1 conjI exI [of _ "es @ fs"]) auto
next
  case (6 es fs)
  then show ?case by (intro disjI2 conjI exI [of _ "es @ fs"]) auto
qed auto

lemma reachable_inv:
  assumes "state c0 \<in> {Authentication, MailFrom}" and "reachable rc env c0 c"
  shows "session_inv c0 c"
  using assms(2)
proof induction
  case reach_start
  show ?case using assms(1) by (simp add: session_inv_def)
next
  case (reach_step c d)
  show ?case by (rule session_inv_step [OF reach_step.IH api_step_ok [OF reach_step.hyps(2)]])
qed

subsection \<open>QUIT and what is told of it\<close>

lemma quit_exchange_spec:
  assumes "state c \<in> {Authentication, MailFrom}"
  shows "holds (quit_exchange env c) (\<lambda>_ d. state d = Quit \<and> audit d = audit c) (aborted c)"
proof -
  let ?c = "c\<lparr>state := Quit\<rparr>"
  have move: "can_transition_to (state c) Quit" using assms by (auto simp: can_transition_to_def)
  have ab: "aborted ?c e d \<Longrightarrow> aborted c e d" for e d by (simp add: aborted_def)
  have "holds (and_then (write_all env (format_command (lit ''QUIT'')) ?c) (\<lambda>_ c.
     and_then (expect_code env 221 OpQuit c) (\<lambda>_ c. (Ok (), c))))
     (\<lambda>_ d. quiet ?c d) (aborted ?c)"
  proof (rule holds_and_then [OF write_all_aborts], simp)
    fix d assume q: "quiet ?c d"
    then have "state d \<noteq> Closed" by (simp add: quiet_def)
    then have "holds (expect_code env 221 OpQuit d) (\<lambda>_. quiet ?c) (aborted ?c)"
      by (rule holds_weaken [OF expect_code_aborts]) (auto intro: quiet_trans [OF q] aborted_quiet q)
    then show "holds (and_then (expect_code env 221 OpQuit d) (\<lambda>_ c. (Ok (), c)))
        (\<lambda>_ d. quiet ?c d) (aborted ?c)"
      by (rule holds_and_then) simp
  qed
  then show ?thesis
    unfolding quit_exchange_def transition_def
    using move by simp (erule holds_weaken, auto simp: quiet_def intro: ab)
qed

subsection \<open>Bytes after the go-ahead\<close>

text \<open>A script of one chunk is delivered at once, if at all.\<close>

definition drained :: "mock client \<Rightarrow> mock client \<Rightarrow> bool" where
  "drained c d \<longleftrightarrow> m_upgrades (transport d) = m_upgrades (transport c) \<and>
     (m_incoming (transport c) = [] \<longrightarrow> m_incoming (transport d) = []) \<and>
     (\<forall>x. m_incoming (transport c) = [x] \<and> length x \<le> READ_CHUNK \<longrightarrow>
        m_incoming (transport d) = [x] \<or> m_incoming (transport d) = [])"

interpretation one_chunk: reading_relation "mock_env f k ent um" drained for f k ent um
  by unfold_locales
     (auto simp: drained_def on_event_def compact_rx_def mock_env_ops mock_read_def Let_def
        split: list.splits if_splits)

lemma say_nonempty: "sayable r \<Longrightarrow> say r \<noteq> []"
proof -
  assume "sayable r"
  then obtain l ls where "snd r = l # ls" by (cases "snd r") (simp_all add: sayable_def)
  then show ?thesis by (cases ls) (simp_all add: say_def)
qed

lemma residue_detected:
  assumes c: "state c = Authentication" "ehlo_advertises_starttls (capabilities c)"
    "mock_ready (transport c)" "rx_ok c" "drop (rx_pos c) (rx_buf c) = []"
    and script: "m_incoming (transport c) = [say r @ extra]" "length (say r @ extra) \<le> READ_CHUNK"
    and r: "sayable r" "fst r = 220" and extra: "extra \<noteq> []"
  shows "\<exists>d. starttls (mock_env f k ent um) c =
      (Err (Protocol (StartTlsBufferResidue (length extra))), d) \<and>
     state d = Closed \<and> m_upgrades (transport d) = m_upgrades (transport c)"
proof -
  let ?env = "mock_env f k ent um"
  let ?c = "sent (format_command (lit ''STARTTLS'')) (c\<lparr>state := StartTls\<rparr>)"
  have in1: "m_incoming (transport ?c) = [say r @ extra]" using script(1) by (simp add: sent_def)
  have unread: "unread mock_bytes ?c = say r @ extra"
    using c(5) script(1) by (simp add: unread_def mock_bytes_def sent_def)
  have start: "hears ?c (say r @ extra) (m_written (transport ?c)) ?c"
    using follows_start [of ?c] unread c(3,4)
    by (simp add: sent_def mock_ready_def rx_ok_def)
  have open_: "state ?c \<noteq> Closed" by (simp add: sent_def)
  have "holds (and_then (expect_code ?env 220 OpStartTls ?c) (\<lambda>_ d. (Ok (), d)))
      (\<lambda>_. hears ?c extra (m_written (transport ?c))) never"
    by (rule mock_talk.talk_expect_code [OF start open_ stream_say [OF r(1)]])
       (simp_all add: code_of_text_def r(2))
  then obtain q d where d: "expect_code ?env 220 OpStartTls ?c = (Ok q, d)"
    and at: "hears ?c extra (m_written (transport ?c)) d"
    by (auto simp: and_then_def holds_def split: prod.splits sum.splits)
  have "drained ?c d" using one_chunk.R_expect_code [of ?c f k ent um 220 OpStartTls] d by simp
  then have cases: "m_incoming (transport d) = [say r @ extra] \<or> m_incoming (transport d) = []"
    and ups: "m_upgrades (transport d) = m_upgrades (transport c)"
    using in1 script(2) by (auto simp: drained_def sent_def)
  have rest: "drop (rx_pos d) (rx_buf d) @ concat (m_incoming (transport d)) = extra"
    using at by (simp add: follows_def unread_def mock_bytes_def)
  have "say r \<noteq> []" by (rule say_nonempty [OF r(1)])
  then have "length extra < length (say r @ extra)" by simp
  moreover have "length (concat (m_incoming (transport d))) \<le> length extra"
    using arg_cong [OF rest, of length] by simp
  ultimately have "m_incoming (transport d) = []" using cases by auto
  then have res: "length (rx_buf d) - rx_pos d = length extra"
    using rest length_drop [of "rx_pos d" "rx_buf d"] by simp
  then have lt: "rx_pos d < length (rx_buf d)" using extra by (cases extra) simp_all
  have st: "state d \<noteq> Closed" using at by (simp add: follows_def quiet_def sent_def)
  have "request_tls ?env c = abort_with (Protocol (StartTlsBufferResidue (length extra))) d"
    using c(1,2) d res lt
    by (simp add: request_tls_def mock_write assert_state_in_def transition_def can_transition_to_def)
  then show ?thesis using ups st
    by (simp add: starttls_def abort_with_def mark_closed_def on_event_def)
qed

lemma mock_reads_after:
  assumes "mock_fine c" and "tls_ready c e" and "request_tls (mock_env f k ent um) c = (Ok u, e)"
    and "mock_upgrade_to_tls (transport e) = (Ok v, t)"
  shows "hears (upgraded e t) (mock_bytes t) (m_written t) (upgraded e t)"
proof -
  have fine: "mock_fine e"
    using script.R_request_tls [of c f k ent um] assms(1,3) by (simp add: mock_keeps_def)
  then have "mock_ready t"
    using mock_upgrade_keeps [OF assms(4)] by (simp add: mock_fine_def)
  moreover have "rx_ok (upgraded e t)"
    using fine by (simp add: mock_fine_def rx_ok_def upgraded_def on_event_def)
  ultimately show ?thesis
    using follows_start [of "upgraded e t"] assms(2)
    by (simp add: tls_ready_def upgraded_def on_event_def unread_def)
qed

subsection \<open>The buffer and the setup over a session\<close>

context client_env
begin

lemma session_rx:
  assumes "connect_with env t dm options = (Ok u, c0)" and "reachable rc env c0 c"
  shows "rx_ok c"
proof -
  let ?start = "client_new t dm (o_policy options) (o_audit options)"
  have "rx_keeps ?start c0" using buffer.R_connect [of t dm options] assms(1) by simp
  moreover have "rx_keeps c0 c" by (rule buffer.R_reachable [OF assms(2)])
  moreover have "rx_ok ?start" by (simp add: rx_ok_def client_new_def RX_BUF_COMPACT_THRESHOLD_def)
  ultimately show ?thesis by (simp add: rx_keeps_def)
qed

end

lemma session_setup:
  assumes "connect_with env t dm options = (Ok u, c0)" and "reachable rc env c0 c"
  shows "policy c = o_policy options" and "ehlo_domain c = dm"
proof -
  have "same_setup (client_new t dm (o_policy options) (o_audit options)) c0"
    using frame.R_connect [of t dm options env] assms(1) by simp
  moreover have "same_setup c0 c" by (rule frame.R_reachable [OF assms(2)])
  ultimately show "policy c = o_policy options" and "ehlo_domain c = dm"
    by (simp_all add: same_setup_def client_new_def)
qed

subsection \<open>A server that offers TLS\<close>

context client_talk
begin

lemma connect_completes:
  assumes "ready t" and "incoming t = say g @ say r @ s" and "accepts g" and "accepts r"
    and "validate_ehlo_domain dm = Ok ()"
  shows "holds (connect env t dm)
     (\<lambda>_. at (ehlo_client (heard False r) (told [Connected, GreetingReceived (code_of_text g)]
          ((client_new t dm default_policy [])\<lparr>state := Ehlo\<rparr>))) s
        (written t @ format_command_arg (lit ''EHLO'') dm)) never"
proof -
  let ?c = "client_new t dm default_policy []"
  let ?e = "told [Connected, GreetingReceived (code_of_text g)] (?c\<lparr>state := Ehlo\<rparr>)"
  have at: "at ?c (say g @ say r @ s) (written t) ?c"
    using assms(1,2)
    by (simp add: follows_def client_new_def rx_ok_def RX_BUF_COMPACT_THRESHOLD_def unread_def)
  have c: "state ?c = Greeting" "enhanced_status_enabled ?c = False" by (simp_all add: client_new_def)
  show ?thesis
    unfolding connect_def connect_with_def options_new_def Let_def using assms(5)
  proof (simp, intro talk_emit [OF at])
    fix d assume "at (on_event Connected ?c) (say g @ say r @ s) (written t) d"
    then have "at (told [Connected] ?c) (say g @ say r @ s) (written t) d"
      by (simp add: on_event_told)
    note greet = read_greeting_completes [OF this _ assms(3)]
    show "holds (and_then (read_greeting env d) (\<lambda>_ c.
          and_then (send_ehlo env dm c) (\<lambda>_ c. (Ok (), c))))
        (\<lambda>_. at (ehlo_client (heard False r) ?e) s
          (written t @ format_command_arg (lit ''EHLO'') dm)) never"
    proof (rule holds_and_then [OF greet], simp add: c)
      fix e assume "at (told [GreetingReceived (code_of_text g)]
          ((told [Connected] ?c)\<lparr>state := Ehlo\<rparr>)) (say r @ s) (written t) e"
      then have "at ?e (say r @ s) (written t) e" by simp
      from send_ehlo_completes [OF this _ assms(4), of dm]
      show "holds (and_then (send_ehlo env dm e) (\<lambda>_ c. (Ok (), c)))
        (\<lambda>_. at (ehlo_client (heard False r) ?e) s
          (written t @ format_command_arg (lit ''EHLO'') dm)) never"
        by (intro holds_and_then) (simp_all add: c)
    qed
  qed
qed

lemma quit_exchange_completes:
  assumes "at c0 (say r @ s) w c" and "state c0 \<in> {Authentication, MailFrom}"
    and "sayable r" and "fst r = 221"
  shows "holds (quit_exchange env c)
     (\<lambda>_. at (c0\<lparr>state := Quit\<rparr>) s (w @ format_command (lit ''QUIT''))) never"
proof -
  have move: "can_transition_to (state c0) Quit" using assms(2) by (auto simp: can_transition_to_def)
  show ?thesis
    unfolding quit_exchange_def
    by (rule talk_transition [OF assms(1) move], rule talk_write, assumption,
        rule talk_expect_code [OF _ _ stream_say [OF assms(3)]], assumption)
       (simp_all add: code_of_text_def assms(4))
qed

lemma quit_talk:
  assumes at: "at c (say bye @ s) w c" and "state c \<in> {Authentication, MailFrom}"
    and bye: "sayable bye" "fst bye = 221"
  shows "\<exists>e :: 't client. ready (transport e) \<and> written (transport e) = w @ format_command (lit ''QUIT'') \<and>
     transport (snd (quit env c)) = snd (t_close (e_ops env) (transport e)) \<and>
     fst (quit env c) = map_err Io (fst (t_close (e_ops env) (transport e))) \<and>
     state (snd (quit env c)) = Closed \<and>
     audit (snd (quit env c)) = audit c @
       [if isl (fst (t_close (e_ops env) (transport e))) then SessionAborted else QuitCompleted]"
proof -
  obtain e where quit: "quit_exchange env c = (Ok (), e)"
    and e: "ready (transport e)" "written (transport e) = w @ format_command (lit ''QUIT'')"
      "audit e = audit c"
    using quit_exchange_completes [OF at assms(2) bye]
    by (auto simp: holds_def follows_def quiet_def split: prod.splits sum.splits)
  obtain cl t where "t_close (e_ops env) (transport e) = (cl, t)" by fastforce
  then show ?thesis
    using quit e assms(2)
    by (intro exI [of _ e], cases cl) (auto simp: quit_def Let_def on_event_def)
qed

text \<open>A login with PLAIN and one message, under the default policy.\<close>

lemma mail_talk:
  assumes at: "at c0 (render_reply 235 hello @ server_says tr @ s) w c" and c0: "state c0 = Authentication"
    and hello: "hello \<noteq> []" "list_all line_ok hello" "length hello \<le> MAX_REPLY_LINES"
    and tr: "accepting to tr"
    and valid: "validate_credentials (e_features env) Plain user pass = Ok ()"
      "validate_envelope validate_address sender to = Ok ()"
    and adv: "ehlo_advertises_auth (capabilities c0) (mechanism_name Plain)"
    and policy: "policy c0 = default_policy"
  obtains c1 c2 where "login_with env Plain user pass c = (Ok (), c1)"
    and "send_mail env sender to b c1 =
      (Ok (send_outcome_new (code_of_text (to_message tr)) (join [LF] (snd (to_message tr)))), c2)"
    and "at c2 s (w @ lit ''AUTH PLAIN '' @ build_auth_plain_initial_response user pass @ CRLF @
      envelope_bytes (format_mail_from sender) to @ dot_stuff_and_terminate b) c2"
    and "state c2 = MailFrom"
    and "audit c2 = audit c0 @ AuthCompleted (mechanism_name Plain) #
      events_of tr @ [MessageAccepted (code_of_text (to_message tr))]"
proof -
  let ?w = "w @ lit ''AUTH PLAIN '' @ build_auth_plain_initial_response user pass @ CRLF"
  obtain c1 where login: "login_with env Plain user pass c = (Ok (), c1)"
    and h1: "at (on_event (AuthCompleted (mechanism_name Plain)) (c0\<lparr>state := MailFrom\<rparr>))
      (server_says tr @ s) ?w c1"
    using login_plain_completes [OF at c0 hello valid(1) adv]
    by (auto simp: holds_def split: prod.splits sum.splits)
  then have self1: "at c1 (server_says tr @ s) ?w c1"
    and c1: "state c1 \<in> {Authentication, MailFrom}" "policy c1 = default_policy"
      "audit c1 = audit c0 @ [AuthCompleted (mechanism_name Plain)]"
    using policy by (auto simp: follows_def quiet_def on_event_def)
  have "check_policy (policy c1) sender to (length b) = Ok ()"
    by (simp add: c1(2) check_policy_def default_policy_def)
  from send_mail_talk [OF self1 tr valid(2) c1(1) this] show thesis
    using login c1(3) that
    by (auto simp: holds_def follows_def quiet_def told_def split: prod.splits sum.splits)
qed

end

text \<open>
  A connection that answers, and after the upgrade of it answers \<open>script\<close>.  \<open>carried\<close> is what counts
  as written then: nothing, where the upgrade gives a new stream, or everything so far.
\<close>

locale client_upgrade =
  plain: client_talk env incoming ready written +
  tls: client_talk env tls_incoming tls_ready tls_written
  for env :: "'t env" and incoming :: "'t \<Rightarrow> byte list" and ready :: "'t \<Rightarrow> bool"
    and written :: "'t \<Rightarrow> byte list" and tls_incoming :: "'t \<Rightarrow> byte list" and tls_ready :: "'t \<Rightarrow> bool"
    and tls_written :: "'t \<Rightarrow> byte list" +
  fixes carried :: "byte list \<Rightarrow> byte list" and script :: "byte list"
  assumes upgrade_answers: "ready t \<Longrightarrow> incoming t = [] \<Longrightarrow>
      \<exists>t'. t_upgrade_to_tls (e_ops env) t = (Ok (), t') \<and> tls_ready t' \<and> tls_incoming t' = script \<and>
        tls_written t' = carried (written t)"
begin

lemma request_completes:
  assumes at: "plain.at c0 (say go) w c" and c0: "state c0 = Authentication"
    "ehlo_advertises_starttls (capabilities c0)" and go: "sayable go" "fst go = 220"
  shows "\<exists>d. request_tls env c = (Ok (), d) \<and>
     plain.at (c0\<lparr>state := StartTls\<rparr>) [] (w @ format_command (lit ''STARTTLS'')) d"
proof -
  let ?c0 = "c0\<lparr>state := StartTls\<rparr>" and ?w = "w @ format_command (lit ''STARTTLS'')"
  have move: "can_transition_to (state c0) StartTls" using c0(1) by (simp add: can_transition_to_def)
  have "holds (and_then (transition StartTls c) (\<lambda>_ c.
      and_then (write_all env (format_command (lit ''STARTTLS'')) c) (\<lambda>_ c.
      and_then (expect_code env 220 OpStartTls c) (\<lambda>_ c. (Ok (), c))))) (\<lambda>_. plain.at ?c0 [] ?w) never"
  proof (rule plain.talk_transition [OF at move], rule plain.talk_write, assumption)
    fix d assume "plain.at ?c0 (say go) ?w d"
    then have "plain.at ?c0 (say go @ []) ?w d" by simp
    then show "holds (and_then (expect_code env 220 OpStartTls d) (\<lambda>_ c. (Ok (), c)))
        (\<lambda>_. plain.at ?c0 [] ?w) never"
      by (rule plain.talk_expect_code [OF _ _ stream_say [OF go(1)]])
         (simp_all add: code_of_text_def go(2))
  qed
  then obtain d where d: "and_then (transition StartTls c) (\<lambda>_ c.
      and_then (write_all env (format_command (lit ''STARTTLS'')) c) (\<lambda>_ c.
      and_then (expect_code env 220 OpStartTls c) (\<lambda>_ c. (Ok (), c)))) = (Ok (), d)"
    and hd: "plain.at ?c0 [] ?w d"
    by (auto simp: holds_def split: prod.splits sum.splits)
  have "length (rx_buf d) \<le> rx_pos d" using hd by (simp add: follows_def unread_def)
  moreover have "state c = Authentication" "ehlo_advertises_starttls (capabilities c)"
    using at c0 by (simp_all add: follows_def quiet_def)
  ultimately have "request_tls env c = (Ok (), d)"
    using d by (auto simp: request_tls_def assert_state_in_def and_then_def Let_def
        split: prod.splits sum.splits)
  then show ?thesis using hd by blast
qed

lemma starttls_completes:
  assumes at: "plain.at c0 (say go) w c" and c0: "state c0 = Authentication"
    "ehlo_advertises_starttls (capabilities c0)" and go: "sayable go" "fst go = 220"
    and post: "script = say r @ rest" "accepts r"
  shows "holds (starttls env c)
     (\<lambda>_. tls.at (ehlo_client (heard (enhanced_status_enabled c0) r) (upgraded c0 (transport c0))) rest
        (carried (w @ format_command (lit ''STARTTLS'')) @
         format_command_arg (lit ''EHLO'') (ehlo_domain c0))) never"
proof -
  let ?w = "w @ format_command (lit ''STARTTLS'')" and ?up = "upgraded c0 (transport c0)"
  obtain d where req: "request_tls env c = (Ok (), d)"
    and hd: "plain.at (c0\<lparr>state := StartTls\<rparr>) [] ?w d"
    using request_completes [OF at c0 go] by blast
  have d: "ready (transport d)" "incoming (transport d) = []" "written (transport d) = ?w"
    "ehlo_domain d = ehlo_domain c0" "state d = StartTls"
    using hd by (simp_all add: follows_def quiet_def unread_def)
  obtain t where up: "t_upgrade_to_tls (e_ops env) (transport d) = (Ok (), t)"
    and t: "tls_ready t" "tls_incoming t = script" "tls_written t = carried ?w"
    using upgrade_answers [OF d(1,2)] d(3) by auto
  have "tls.at ?up (say r @ rest) (carried ?w) (upgraded d t)"
    using hd t post(1) by (simp add: follows_def quiet_def upgraded_def on_event_def unread_def)
  from tls.send_ehlo_completes [OF this _ post(2), of "ehlo_domain c0"]
  have "holds (send_ehlo env (ehlo_domain c0) (upgraded d t))
      (\<lambda>_. tls.at (ehlo_client (heard (enhanced_status_enabled c0) r) ?up) rest
        (carried ?w @ format_command_arg (lit ''EHLO'') (ehlo_domain c0))) never"
    by (simp add: upgraded_def on_event_def)
  then show ?thesis
    using up d(4,5)
    by (simp add: starttls_def req upgrade_def emit_def on_event_def transition_def
        can_transition_to_def upgraded_def) (erule holds_and_then, simp)
qed

lemma connect_starttls_answers:
  assumes t: "ready t" "incoming t = say g @ say r @ say go" "written t = []"
    and post: "script = say r' @ rest"
    and ok: "accepts g" "accepts r" "sayable go" "fst go = 220" "accepts r'"
    and adv: "ehlo_advertises_starttls (drop 1 (snd r))" and dm: "validate_ehlo_domain dm = Ok ()"
  obtains c d where "connect env t dm = (Ok (), c)"
    and "starttls env c = (Ok (), d)" and "state d = Authentication"
    and "capabilities d = drop 1 (snd r')" and "policy d = default_policy"
    and "audit d = [Connected, GreetingReceived (code_of_text g), EhloCompleted, TlsUpgraded,
       EhloCompleted]"
    and "tls.at d rest (carried (format_command_arg (lit ''EHLO'') dm @
       format_command (lit ''STARTTLS'')) @ format_command_arg (lit ''EHLO'') dm) d"
proof -
  let ?e = "ehlo_client (heard False r) (told [Connected, GreetingReceived (code_of_text g)]
     ((client_new t dm default_policy [])\<lparr>state := Ehlo\<rparr>))"
  obtain c where c: "connect env t dm = (Ok (), c)"
    and at: "plain.at ?e (say go) (format_command_arg (lit ''EHLO'') dm) c"
    using plain.connect_completes [OF t(1,2) ok(1,2) dm]
    by (auto simp: holds_def t(3) split: prod.splits sum.splits)
  have e: "state ?e = Authentication" "capabilities ?e = drop 1 (snd r)" "ehlo_domain ?e = dm"
    "audit ?e = [Connected, GreetingReceived (code_of_text g), EhloCompleted]"
    "policy ?e = default_policy"
    by (simp_all add: ehlo_client_def on_event_def told_def store_capabilities_def client_new_def
        heard_def)
  obtain d where "starttls env c = (Ok (), d)"
    and "tls.at (ehlo_client (heard (enhanced_status_enabled ?e) r') (upgraded ?e (transport ?e))) rest
        (carried (format_command_arg (lit ''EHLO'') dm @ format_command (lit ''STARTTLS'')) @
         format_command_arg (lit ''EHLO'') dm) d"
    using starttls_completes [OF at e(1) _ ok(3,4) post ok(5)] adv e(2,3)
    by (auto simp: holds_def split: prod.splits sum.splits)
  then show thesis
    using that [OF c, of d] at e
    by (simp add: follows_def quiet_def ehlo_client_def on_event_def upgraded_def
        store_capabilities_def heard_def)
qed

end

text \<open>The mock upgrades to the chunks it holds back; what has been written to it stays.\<close>

definition upgrades_to :: "byte list list \<Rightarrow> mock \<Rightarrow> bool" where
  "upgrades_to post t \<longleftrightarrow> mock_ready t \<and> [] \<notin> set post \<and> m_pending_post t = post \<and>
     m_upgrade_behavior t = Succeed"

interpretation mock_upgrade: client_upgrade "mock_env f k ent um" mock_bytes "upgrades_to post" m_written
    mock_bytes mock_ready m_written "\<lambda>w. w" "concat post" for f k ent um post
proof
  fix t and n :: nat
  assume t: "upgrades_to post t" and "0 < n"
  then have "mock_ready t" by (simp add: upgrades_to_def)
  moreover have "upgrades_to post (snd (mock_read t n)) = upgrades_to post t"
    if "mock_ready (snd (mock_read t n))"
    using that \<open>mock_ready t\<close>
    by (auto simp: upgrades_to_def mock_read_def Let_def split: list.splits)
  ultimately show "\<exists>bs t'. t_read (e_ops (mock_env f k ent um)) t n = (Ok bs, t') \<and>
      upgrades_to post t' \<and> m_written t' = m_written t \<and>
      mock_bytes t = bs @ mock_bytes t' \<and> (bs = [] \<longleftrightarrow> mock_bytes t = [])"
    using mock_answers.read_answers [of t n] \<open>0 < n\<close> t by (auto simp: mock_env_ops)
next
  fix t assume t: "upgrades_to post t" and "mock_bytes t = []"
  then have "m_incoming t = []"
    by (cases "m_incoming t") (auto simp: upgrades_to_def mock_ready_def mock_bytes_def)
  then show "\<exists>t'. t_upgrade_to_tls (e_ops (mock_env f k ent um)) t = (Ok (), t') \<and> mock_ready t' \<and>
      mock_bytes t' = concat post \<and> m_written t' = m_written t"
    using t by (auto simp: upgrades_to_def mock_upgrade_to_tls_def Let_def mock_env_ops mock_ready_def
        mock_bytes_def list_all_iff)
qed (auto simp: upgrades_to_def mock_env_ops mock_write_all_def default_flush_def mock_ready_def
  mock_bytes_def)

lemma connect_starttls_hears:
  assumes t: "t = mock_with_starttls pre post Succeed" "[] \<notin> set pre" "[] \<notin> set post"
    and pre: "concat pre = say g @ say r @ say go" and post: "concat post = say r' @ rest"
    and ok: "accepts g" "accepts r" "sayable go" "fst go = 220" "accepts r'"
    and adv: "ehlo_advertises_starttls (drop 1 (snd r))" and dm: "validate_ehlo_domain dm = Ok ()"
  obtains c d where "connect (mock_env f k ent um) t dm = (Ok (), c)" and "mock_fine c"
    and "starttls (mock_env f k ent um) c = (Ok (), d)" and "state d = Authentication"
    and "capabilities d = drop 1 (snd r')" and "unread mock_bytes d = rest"
    and "m_written (transport d) = format_command_arg (lit ''EHLO'') dm @
       format_command (lit ''STARTTLS'') @ format_command_arg (lit ''EHLO'') dm"
    and "audit d = [Connected, GreetingReceived (code_of_text g), EhloCompleted, TlsUpgraded,
       EhloCompleted]"
    and "policy d = default_policy"
    and "hears d rest (format_command_arg (lit ''EHLO'') dm @
       format_command (lit ''STARTTLS'') @ format_command_arg (lit ''EHLO'') dm) d"
proof -
  let ?env = "mock_env f k ent um" and ?start = "client_new t dm default_policy []"
  have m: "upgrades_to post t" "mock_bytes t = say g @ say r @ say go" "m_written t = []"
    using t pre by (simp_all add: mock_with_starttls_def mock_build_def mock_ready_def
        mock_bytes_def list_all_iff upgrades_to_def) metis
  obtain c d where c: "connect ?env t dm = (Ok (), c)" and d: "starttls ?env c = (Ok (), d)"
    "state d = Authentication" "capabilities d = drop 1 (snd r')" "policy d = default_policy"
    "audit d = [Connected, GreetingReceived (code_of_text g), EhloCompleted, TlsUpgraded, EhloCompleted]"
    "hears d rest ((format_command_arg (lit ''EHLO'') dm @ format_command (lit ''STARTTLS'')) @
       format_command_arg (lit ''EHLO'') dm) d"
    by (rule mock_upgrade.connect_starttls_answers [OF m post ok adv dm, of f k ent um])
  have "mock_keeps ?start c"
    using script.R_connect [of t dm options_new f k ent um] c
    by (simp add: connect_def options_new_def)
  moreover have "mock_fine ?start"
    using m(1) by (simp add: mock_fine_def client_new_def rx_ok_def list_all_iff upgrades_to_def
        RX_BUF_COMPACT_THRESHOLD_def) metis
  ultimately have "mock_fine c" by (simp add: mock_keeps_def)
  then show thesis
    using that [OF c _ d(1-3)] d(4-6) by (simp add: follows_def)
qed

text \<open>A server that greets, answers EHLO with STARTTLS, and upgrades.\<close>

definition sample_pre :: "byte list" where
  "sample_pre = say (220, [lit ''mx'']) @ say (250, [lit ''mx'', lit ''STARTTLS'']) @ say (220, [lit ''go''])"

definition sample_post :: "byte list" where
  "sample_post = say (250, [lit ''mx'', lit ''AUTH PLAIN''])"

abbreviation plain_env :: "mock env" where
  "plain_env \<equiv> mock_env default_features toy_crypto None 18446744073709551615"

definition sample_mock :: mock where
  "sample_mock = mock_with_starttls [sample_pre] [sample_post] Succeed"

lemma sample_replies:
  "accepts (220, [lit ''mx''])" "accepts (250, [lit ''mx'', lit ''STARTTLS''])"
  "sayable (220, [lit ''go''])" "accepts (250, [lit ''mx'', lit ''AUTH PLAIN''])"
  by (simp_all add: accepts_def sayable_def line_ok_def valid_utf8_ascii is_ascii_def lit_def
        MAX_REPLY_LINE_LEN_def MAX_REPLY_LINES_def)

lemma sample_mock_facts:
  "mock_ready sample_mock" "mock_bytes sample_mock = sample_pre" "m_written sample_mock = []"
  "m_incoming sample_mock = [sample_pre]" "m_pending_post sample_mock = [sample_post]"
  "m_upgrade_behavior sample_mock = Succeed"
  using say_nonempty [OF accepts_sayable [OF sample_replies(1)]]
  by (simp_all add: sample_mock_def mock_with_starttls_def mock_build_def mock_ready_def
        mock_bytes_def sample_pre_def)

lemma sample_domain: "validate_ehlo_domain (lit ''c'') = Ok ()"
  by code_simp

lemma sample_connected:
  obtains c where "connect plain_env sample_mock (lit ''c'') = (Ok (), c)"
    and "hears (ehlo_client (heard False (250, [lit ''mx'', lit ''STARTTLS'']))
       (told [Connected, GreetingReceived 220]
          ((client_new sample_mock (lit ''c'') default_policy [])\<lparr>state := Ehlo\<rparr>)))
       (say (220, [lit ''go''])) (format_command_arg (lit ''EHLO'') (lit ''c'')) c"
proof -
  have "mock_bytes sample_mock = say (220, [lit ''mx'']) @ say (250, [lit ''mx'', lit ''STARTTLS'']) @
      say (220, [lit ''go''])"
    by (simp add: sample_mock_facts sample_pre_def)
  from mock_talk.connect_completes [OF sample_mock_facts(1) this sample_replies(1,2) sample_domain, of
      default_features toy_crypto None "18446744073709551615"]
  show thesis using that
    by (auto simp: holds_def code_of_text_def sample_mock_facts split: prod.splits sum.splits)
qed

lemma sample_script:
  "[] \<notin> set [sample_pre]" "[] \<notin> set [sample_post]"
  "concat [sample_pre] = say (220, [lit ''mx'']) @ say (250, [lit ''mx'', lit ''STARTTLS'']) @
     say (220, [lit ''go''])"
  "concat [sample_post] = say (250, [lit ''mx'', lit ''AUTH PLAIN'']) @ []"
  "fst (220 :: nat, [lit ''go'']) = 220"
  "ehlo_advertises_starttls (drop 1 (snd (250 :: nat, [lit ''mx'', lit ''STARTTLS''])))"
proof -
  show "ehlo_advertises_starttls (drop 1 (snd (250 :: nat, [lit ''mx'', lit ''STARTTLS''])))"
    by code_simp
qed (simp_all add: sample_pre_def sample_post_def say_def code_digits_def)

lemma sample_tls:
  obtains c d where "connect plain_env sample_mock (lit ''c'') = (Ok (), c)" and "mock_fine c"
    and "starttls plain_env c = (Ok (), d)"
  by (rule connect_starttls_hears [OF sample_mock_def sample_script(1-4) sample_replies(1-3)
        sample_script(5) sample_replies(4) sample_script(6) sample_domain,
        of default_features toy_crypto None 18446744073709551615]) (rule that)

text \<open>A server that is gone when QUIT is sent.\<close>

definition deserted_client :: "mock client" where
  "deserted_client = (client_new (mock_new []) (lit ''c'') default_policy [])\<lparr>state := MailFrom\<rparr>"

lemma nothing_to_read: "stream_reply enh [] None [] = Err (Protocol UnexpectedClose)"
  by (subst stream_reply.simps) (simp add: stream_line_def MAX_REPLY_LINES_def)

lemma deserted_quit: "\<exists>e d. quit_exchange plain_env deserted_client = (Err e, d)"
proof -
  let ?c = "deserted_client\<lparr>state := Quit\<rparr>"
  have at: "hears ?c [] (lit ''QUIT'' @ CRLF) (sent (lit ''QUIT'' @ CRLF) ?c)"
    by (simp add: deserted_client_def client_new_def sent_def follows_def quiet_def mock_ready_def
        mock_new_def mock_build_def unread_def mock_bytes_def)
  have "holds (expect_code plain_env 221 OpQuit (sent (lit ''QUIT'' @ CRLF) ?c))
      (\<lambda>_ _. False) (\<lambda>_ _. True)"
    unfolding expect_code_def
    by (rule mock_talk.talk_read [OF at]) (simp_all add: nothing_to_read)
  then show ?thesis
    by (auto simp: quit_exchange_def transition_def can_transition_to_def deserted_client_def
        client_new_def mock_write format_command_def holds_def split: prod.splits sum.splits)
qed

subsection \<open>Properties\<close>

text \<open>
  C1: a session from connecting on: after a successful \<open>connect_with\<close> and any sequence of public
  methods, each succeeding or failing, the client is ready for a call or closed; the receive
  buffer is within its bounds; the policy is the caller's; and the audit log is that of connecting
  and then events without an abort, followed by exactly one abort just if the session is closed.
\<close>

theorem session_invariant:
  assumes "transport_contract (e_ops env)"
    and "connect_with env t dm options = (Ok (), c0)" and "reachable rc env c0 c"
  shows "state c \<in> {Authentication, MailFrom, Closed} \<and> rx_ok c \<and> policy c = o_policy options \<and>
     ehlo_domain c = dm \<and>
     (\<exists>code es. SessionAborted \<notin> set es \<and>
        audit c = o_audit options @ [Connected, GreetingReceived code, EhloCompleted] @ es @
          (if state c = Closed then [SessionAborted] else []))"
proof -
  have "rx_ok c"
    using client_env.session_rx [OF _ assms(2,3)] assms(1) by (simp add: client_env_def)
  moreover obtain code where c0: "state c0 = Authentication"
    "audit c0 = o_audit options @ [Connected, GreetingReceived code, EhloCompleted]"
    using connect_with_spec [of env t dm options] assms(2) by auto
  then have "session_inv c0 c" by (intro reachable_inv [OF _ assms(3)]) simp
  then have "state c \<in> {Authentication, MailFrom, Closed} \<and> (\<exists>es. SessionAborted \<notin> set es \<and>
      audit c = audit c0 @ es @ (if state c = Closed then [SessionAborted] else []))"
    unfolding session_inv_def by auto
  ultimately show ?thesis using session_setup [OF assms(2,3)] c0(2) by auto
qed

theorem session_invariant_witness:
  "\<exists>c. connect plain_env sample_mock (lit ''c'') = (Ok (), c) \<and>
     rx_ok (snd (send_mail plain_env [] [] [] c)) \<and>
     policy (snd (send_mail plain_env [] [] [] c)) = default_policy"
proof -
  obtain c where c: "connect plain_env sample_mock (lit ''c'') = (Ok (), c)"
    using sample_connected by blast
  have "reachable slice_read_chunk plain_env c (snd (send_mail plain_env [] [] [] c))"
    by (rule reach_step [OF reach_start step_send_mail])
  moreover have "transport_contract (e_ops plain_env)"
    using mock_contract.transport_contract_axioms by (simp add: mock_env_ops)
  ultimately show ?thesis
    using session_invariant [OF _ c [unfolded connect_def]] c by (auto simp: options_new_def)
qed

text \<open>
  C21: a closed session stays closed and is left alone: every public method returns the client as it
  is, so nothing is sent, read or told to the sink, and \<open>quit\<close> succeeds without closing the
  connection again.
\<close>

theorem closed_session_inert:
  assumes "state c = Closed" and "api_step rc env c d"
  shows "d = c \<and> quit env c = (Ok (), c)"
  using api_step_ok [OF assms(2)] assms(1) by (simp add: step_ok_def quit_def)

theorem closed_session_inert_witness:
  "snd (login plain_env [] [] (mark_closed sample_client)) = mark_closed sample_client"
proof -
  have "state (mark_closed sample_client) = Closed"
    by (simp add: mark_closed_def on_event_def)
  from closed_session_inert [OF this step_login [of slice_read_chunk]] show ?thesis by blast
qed

text \<open>
  Connecting: on success the greeting and the EHLO reply have been accepted, the domain was
  valid, and the sink has been told just that; an invalid domain is refused before anything is
  read, sent or told; any other failure closes the session with one abort event.
\<close>

theorem connect_outcome:
  "holds (connect_with env t dm options)
     (\<lambda>_ d. state d = Authentication \<and> validate_ehlo_domain dm = Ok () \<and>
        (\<exists>code. audit d = o_audit options @ [Connected, GreetingReceived code, EhloCompleted]))
     (failed_or_unchanged (client_new t dm (o_policy options) (o_audit options)))"
  by (rule connect_with_spec)

text \<open>
  C3: after a successful STARTTLS the client knows only what came over TLS: the server had
  advertised it, the upgrade was made at a moment when the client had no byte from the plaintext
  connection left over, and its capabilities are the lines of the reply that the upgraded
  connection delivers first; nothing of what the server had said before remains.
\<close>

theorem starttls_forgets_plaintext:
  assumes "mock_fine c"
  shows "case starttls (mock_env f k ent um) c of
     (Ok _, d) \<Rightarrow> state c = Authentication \<and> ehlo_advertises_starttls (capabilities c) \<and>
       state d = Authentication \<and> audit d = audit c @ [TlsUpgraded, EhloCompleted] \<and>
       (\<exists>e t r rest. request_tls (mock_env f k ent um) c = (Ok (), e) \<and>
          length (rx_buf e) \<le> rx_pos e \<and> mock_upgrade_to_tls (transport e) = (Ok (), t) \<and>
          stream_reply (enhanced_status_enabled c) [] None (mock_bytes t) = Ok (r, rest) \<and>
          reply_class r = 2 \<and> capabilities d = drop 1 (r_lines r) \<and> unread mock_bytes d = rest)
   | (Err x, d) \<Rightarrow> failed_or_unchanged c x d"
proof (cases "starttls (mock_env f k ent um) c")
  case (Pair r d)
  let ?env = "mock_env f k ent um"
  show ?thesis
  proof (cases r)
    case (Inl x)
    then show ?thesis using starttls_spec [of ?env c] Pair by simp
  next
    case (Inr u)
    then obtain e t where d: "state d = Authentication" "audit d = audit c @ [TlsUpgraded, EhloCompleted]"
      and e: "tls_ready c e" "request_tls ?env c = (Ok (), e)"
      and t: "mock_upgrade_to_tls (transport e) = (Ok (), t)"
      and ehlo: "send_ehlo ?env (ehlo_domain c) (upgraded e t) = (Ok (), d)"
      using starttls_spec [of ?env c] Pair by (auto simp: mock_env_ops)
    have "hears (upgraded e t) (mock_bytes t) (m_written t) (upgraded e t)"
      by (rule mock_reads_after [OF assms e t])
    from mock_talk.send_ehlo_talk [OF this, of f k ent um "ehlo_domain c"] ehlo
    obtain q rest where q: "stream_reply (enhanced_status_enabled (upgraded e t)) [] None (mock_bytes t) =
        Ok (q, rest)" "reply_class q = 2"
      and at: "hears (ehlo_client q (upgraded e t)) rest
        (m_written t @ format_command_arg (lit ''EHLO'') (ehlo_domain c)) d"
      by (auto simp: upgraded_def)
    have enh: "enhanced_status_enabled (upgraded e t) = enhanced_status_enabled c"
      using e(1) by (simp add: tls_ready_def after_def quiet_def upgraded_def on_event_def)
    have "capabilities d = drop 1 (r_lines q)" "unread mock_bytes d = rest"
      using at by (simp_all add: follows_def quiet_def ehlo_client_def on_event_def
          store_capabilities_def)
    then show ?thesis
      using Pair Inr d e t q enh by (auto simp: tls_ready_def)
  qed
qed

theorem starttls_forgets_plaintext_witness:
  "\<exists>c d r. connect plain_env sample_mock (lit ''c'') = (Ok (), c) \<and>
     starttls plain_env c = (Ok (), d) \<and> capabilities d = drop 1 (r_lines r) \<and> reply_class r = 2"
proof -
  obtain c d where "connect plain_env sample_mock (lit ''c'') = (Ok (), c)" "mock_fine c"
    "starttls plain_env c = (Ok (), d)"
    by (rule sample_tls)
  then show ?thesis
    using starttls_forgets_plaintext [of c default_features toy_crypto None 18446744073709551615]
    by fastforce
qed

text \<open>
  A server that offers TLS gets it: if it greets, answers EHLO with STARTTLS among its
  extensions, gives the go-ahead and says nothing more before the upgrade, and answers the second
  EHLO, then \<open>connect_starttls\<close> succeeds, however its bytes are cut into reads; the capabilities
  are those of the second reply, and EHLO, STARTTLS and EHLO are all that has been written.
\<close>

theorem connect_starttls_completes:
  assumes "[] \<notin> set pre" and "[] \<notin> set post"
    and "concat pre = say g @ say r @ say go" and "concat post = say r' @ rest"
    and "accepts g" and "accepts r" and "sayable go" and "fst go = 220" and "accepts r'"
    and "ehlo_advertises_starttls (drop 1 (snd r))" and "validate_ehlo_domain dm = Ok ()"
  shows "\<exists>d. connect_starttls (mock_env f k ent um) (mock_with_starttls pre post Succeed) dm = (Ok (), d) \<and>
     state d = Authentication \<and> capabilities d = drop 1 (snd r') \<and> unread mock_bytes d = rest \<and>
     m_written (transport d) = format_command_arg (lit ''EHLO'') dm @
       format_command (lit ''STARTTLS'') @ format_command_arg (lit ''EHLO'') dm \<and>
     audit d = [Connected, GreetingReceived (code_of_text g), EhloCompleted, TlsUpgraded, EhloCompleted]"
  by (rule connect_starttls_hears [OF refl assms, of f k ent um]) (simp add: connect_starttls_def)

theorem connect_starttls_completes_witness:
  "\<exists>d. connect_starttls plain_env (mock_with_starttls [sample_pre] [sample_post] Succeed) (lit ''c'') =
     (Ok (), d) \<and> capabilities d = [lit ''AUTH PLAIN'']"
  using connect_starttls_completes [OF sample_script(1-4) sample_replies(1-3) sample_script(5)
      sample_replies(4) sample_script(6) sample_domain,
      of default_features toy_crypto None 18446744073709551615]
  by auto

text \<open>
  C5: the injection defence: if the server's 220 to STARTTLS is followed in the same read by any
  other byte, the upgrade is refused and not attempted, the session is closed, and the error says
  how many bytes there were.
\<close>

theorem starttls_refuses_injection:
  assumes "state c = Authentication" and "ehlo_advertises_starttls (capabilities c)"
    and "mock_ready (transport c)" and "rx_ok c" and "drop (rx_pos c) (rx_buf c) = []"
    and "m_incoming (transport c) = [say r @ extra]" and "length (say r @ extra) \<le> READ_CHUNK"
    and "sayable r" and "fst r = 220" and "extra \<noteq> []"
  shows "\<exists>d. starttls (mock_env f k ent um) c =
      (Err (Protocol (StartTlsBufferResidue (length extra))), d) \<and>
     state d = Closed \<and> m_upgrades (transport d) = m_upgrades (transport c)"
  by (rule residue_detected [OF assms])

definition injected_client :: "mock client" where
  "injected_client =
     (client_new (mock_new [say (220, [lit ''go'']) @ lit ''250 EHLO'' @ CRLF]) (lit ''c'')
        default_policy [])
     \<lparr>state := Authentication, capabilities := [lit ''STARTTLS'']\<rparr>"

theorem starttls_refuses_injection_witness:
  "\<exists>d. starttls plain_env injected_client =
     (Err (Protocol (StartTlsBufferResidue (length (lit ''250 EHLO'' @ CRLF)))), d) \<and>
     state d = Closed \<and> m_upgrades (transport d) = m_upgrades (transport injected_client)"
proof (rule starttls_refuses_injection [where r = "(220, [lit ''go''])"])
  show "ehlo_advertises_starttls (capabilities injected_client)"
    unfolding injected_client_def by simp code_simp
qed (simp_all add: injected_client_def client_new_def mock_new_def mock_build_def mock_ready_def
      rx_ok_def RX_BUF_COMPACT_THRESHOLD_def READ_CHUNK_def say_def code_digits_def sample_replies)

text \<open>
  C27: what \<open>quit\<close> does and reports: it sends QUIT, closes the connection whatever came of it, and
  returns the error of the exchange, or else that of closing.  The sink is told \<open>QuitCompleted\<close>
  just if both succeed; but if the exchange fails it is told of two aborts, one by the failure and
  one by \<open>quit\<close> itself.
\<close>

theorem quit_outcome:
  assumes "state c \<in> {Authentication, MailFrom}"
    and "quit_exchange env c = (r, d)" and "t_close (e_ops env) (transport d) = (cl, t)"
  shows "fst (quit env c) = (case r of Err e \<Rightarrow> Err e | Ok _ \<Rightarrow> map_err Io cl) \<and>
     state (snd (quit env c)) = Closed \<and> transport (snd (quit env c)) = t \<and>
     audit (snd (quit env c)) = audit c @ (case (r, cl) of
        (Ok _, Ok _) \<Rightarrow> [QuitCompleted] | (Ok _, Err _) \<Rightarrow> [SessionAborted]
      | (Err _, _) \<Rightarrow> [SessionAborted, SessionAborted])"
proof -
  have "holds (r, d) (\<lambda>_ d. state d = Quit \<and> audit d = audit c) (aborted c)"
    using quit_exchange_spec [OF assms(1), of env] by (simp add: assms(2))
  then show ?thesis
    using assms by (cases r; cases cl) (auto simp: quit_def Let_def aborted_def on_event_def)
qed

theorem quit_outcome_witness:
  "audit (snd (quit plain_env deserted_client)) = [SessionAborted, SessionAborted]"
proof -
  obtain e d where q: "quit_exchange plain_env deserted_client = (Err e, d)"
    using deserted_quit by blast
  obtain cl t where "t_close (e_ops plain_env) (transport d) = (cl, t)" by fastforce
  from quit_outcome [OF _ q this] show ?thesis
    by (simp add: deserted_client_def client_new_def)
qed

end
