(* ===== verification/Trust.thy ===== *)
theory Trust
  imports Utf8 Rust_Num
begin

text \<open>
  Trust anchors (\<open>wasm-smtp-component/src/trust.rs\<close>): the scanner that turns the PEM text of a
  \<open>custom\<close> choice into a root store, or rejects it as a whole.

  Decoding one PEM block (\<open>CertificateDer::from_pem_slice\<close>) and adding a certificate to a store
  (\<open>RootCertStore::add\<close>) are functions of other crates: parameters of the model, whose errors
  carry nothing because the code looks at none of it.
\<close>

definition MAX_INPUT_BYTES :: nat where "MAX_INPUT_BYTES = 256 * 1024"
definition MAX_BLOCKS :: nat where "MAX_BLOCKS = 64"

definition BEGIN_PREFIX :: str where "BEGIN_PREFIX = lit ''-----BEGIN ''"
definition DASHES :: str where "DASHES = lit ''-----''"
definition CERTIFICATE_LABEL :: str where "CERTIFICATE_LABEL = lit ''CERTIFICATE''"
definition CERTIFICATE_END :: str where "CERTIFICATE_END = lit ''-----END CERTIFICATE-----''"
definition BEGIN_MARK :: str where "BEGIN_MARK = lit ''-----BEGIN''"
definition END_MARK :: str where "END_MARK = lit ''-----END''"

datatype trust = Bundled | Custom str

datatype trust_reason =
    TooLarge | TooManyBlocks | NoCertificates | NotACertificate | MisplacedBoundary
  | Unterminated | MalformedBase64 | RejectedByRootStore

record trust_error =
  te_block :: "nat option"
  te_reason :: trust_reason

definition trust_whole :: "trust_reason \<Rightarrow> trust_error" where
  "trust_whole r = \<lparr>te_block = None, te_reason = r\<rparr>"

definition trust_at :: "nat \<Rightarrow> trust_reason \<Rightarrow> trust_error" where
  "trust_at n r = \<lparr>te_block = Some n, te_reason = r\<rparr>"

primrec show_trust_reason :: "trust_reason \<Rightarrow> str" where
  "show_trust_reason TooLarge = lit ''input exceeds 256 KiB''"
| "show_trust_reason TooManyBlocks = lit ''more than 64 PEM blocks''"
| "show_trust_reason NoCertificates = lit ''no certificate blocks''"
| "show_trust_reason NotACertificate = lit ''not a certificate''"
| "show_trust_reason MisplacedBoundary = lit ''malformed or misplaced PEM boundary line''"
| "show_trust_reason Unterminated = lit ''block has no matching END line''"
| "show_trust_reason MalformedBase64 = lit ''malformed base64''"
| "show_trust_reason RejectedByRootStore = lit ''rejected by the root store''"

definition show_trust_error :: "trust_error \<Rightarrow> str" where
  "show_trust_error e =
     (case te_block e of
        Some n \<Rightarrow> lit ''trust anchors: block '' @ show_nat n @ lit '': '' @ show_trust_reason (te_reason e)
      | None \<Rightarrow> lit ''trust anchors: '' @ show_trust_reason (te_reason e))"

subsection \<open>Lines\<close>

text \<open>\<open>char::is_whitespace\<close> (the Unicode property \<open>White_Space\<close>) and \<open>str::trim_end\<close>.\<close>

definition is_whitespace :: "nat \<Rightarrow> bool" where
  "is_whitespace n \<longleftrightarrow> 9 \<le> n \<and> n \<le> 13 \<or> n = 32 \<or> n = 0x85 \<or> n = 0xA0 \<or> n = 0x1680 \<or>
     0x2000 \<le> n \<and> n \<le> 0x200A \<or> n = 0x2028 \<or> n = 0x2029 \<or> n = 0x202F \<or> n = 0x205F \<or> n = 0x3000"

text \<open>For evaluation, over integers: large natural numbers evaluate in unary.\<close>

lemma is_whitespace_code [code]:
  "is_whitespace n = (let i = int n in 9 \<le> i \<and> i \<le> 13 \<or> i = 32 \<or> i = 0x85 \<or> i = 0xA0 \<or>
     i = 0x1680 \<or> 0x2000 \<le> i \<and> i \<le> 0x200A \<or> i = 0x2028 \<or> i = 0x2029 \<or> i = 0x202F \<or>
     i = 0x205F \<or> i = 0x3000)"
  by (auto simp: is_whitespace_def Let_def)

definition trim_end :: "str \<Rightarrow> str" where
  "trim_end s = concat (rev (dropWhile (\<lambda>c. is_whitespace (code_point c)) (rev (chars s))))"

lemma trim_end_code [code]:
  "trim_end s =
     (if is_ascii s then rev (dropWhile (\<lambda>b. is_whitespace (unat b)) (rev s))
      else concat (rev (dropWhile (\<lambda>c. is_whitespace (code_point c)) (rev (chars s)))))"
proof (cases "is_ascii s")
  case True
  have "concat (rev (dropWhile (\<lambda>c. is_whitespace (code_point c)) (rev (map (\<lambda>b. [b]) s)))) =
      rev (dropWhile (\<lambda>b. is_whitespace (unat b)) (rev s))"
    by (simp add: rev_map dropWhile_map comp_def concat_map_singleton)
  with True show ?thesis by (simp add: trim_end_def chars_ascii)
qed (simp add: trim_end_def)

text \<open>\<open>split_inclusive(c)\<close>: every piece but the last ends in \<open>c\<close>, and no piece is empty.\<close>

fun split_inclusive :: "byte \<Rightarrow> str \<Rightarrow> str list" where
  "split_inclusive c [] = []"
| "split_inclusive c (b # bs) =
     (if b = c then [b] # split_inclusive c bs
      else (case split_inclusive c bs of [] \<Rightarrow> [[b]] | p # ps \<Rightarrow> (b # p) # ps))"

datatype pem_line = TextLine | BeginLine str | EndCertificate | Misplaced

definition classify :: "str \<Rightarrow> pem_line" where
  "classify line0 =
     (let line = trim_end line0
      in if \<not> contains line BEGIN_MARK \<and> \<not> contains line END_MARK then TextLine
         else if line = CERTIFICATE_END then EndCertificate
         else case Option.bind (strip_prefix line BEGIN_PREFIX) (\<lambda>r. strip_suffix r DASHES) of
                Some label \<Rightarrow> BeginLine label
              | None \<Rightarrow> Misplaced)"

subsection \<open>The scanner\<close>

text \<open>The functions of other crates the scanner calls.\<close>

record ('der, 'store) pki =
  from_pem_slice :: "byte list \<Rightarrow> 'der option"
  store_empty :: 'store
  store_add :: "'store \<Rightarrow> 'der \<Rightarrow> 'store option"

text \<open>
  The inner loop: from the line after a BEGIN to the END, counting bytes.  It returns the offset
  after the END line and the lines that are left.
\<close>

fun scan_block :: "str list \<Rightarrow> nat \<Rightarrow> trust_reason + (nat \<times> str list)" where
  "scan_block [] offset = Err Unterminated"
| "scan_block (body_line # ls) offset =
     (let offset = offset + length body_line
      in case classify body_line of
           TextLine \<Rightarrow> scan_block ls offset
         | EndCertificate \<Rightarrow> Ok (offset, ls)
         | BeginLine _ \<Rightarrow> Err Unterminated
         | Misplaced \<Rightarrow> Err MisplacedBoundary)"

lemma scan_block_shorter: "scan_block ls n = Ok (k, rest) \<Longrightarrow> length rest < length ls"
  by (induction ls n rule: scan_block.induct) (auto simp: Let_def split: pem_line.splits)

text \<open>The outer loop with its locals \<open>offset\<close>, \<open>blocks\<close> and \<open>store\<close>.\<close>

function scan_pem ::
    "('der, 'store) pki \<Rightarrow> str \<Rightarrow> str list \<Rightarrow> nat \<Rightarrow> nat \<Rightarrow> 'store \<Rightarrow> trust_error + (nat \<times> 'store)" where
  "scan_pem P pem [] offset blocks store = Ok (blocks, store)"
| "scan_pem P pem (line # ls) offset blocks store =
     (let start = offset; offset = offset + length line
      in case classify line of
           TextLine \<Rightarrow> scan_pem P pem ls offset blocks store
         | EndCertificate \<Rightarrow> Err (trust_at (blocks + 1) MisplacedBoundary)
         | Misplaced \<Rightarrow> Err (trust_at (blocks + 1) MisplacedBoundary)
         | BeginLine label \<Rightarrow>
             let blocks = blocks + 1
             in if MAX_BLOCKS < blocks then Err (trust_at blocks TooManyBlocks)
                else if label \<noteq> CERTIFICATE_LABEL then Err (trust_at blocks NotACertificate)
                else case scan_block ls offset of
                  Err r \<Rightarrow> Err (trust_at blocks r)
                | Ok (stop, rest) \<Rightarrow>
                    (case from_pem_slice P (slice pem start stop) of
                       None \<Rightarrow> Err (trust_at blocks MalformedBase64)
                     | Some der \<Rightarrow>
                         (case store_add P store der of
                            None \<Rightarrow> Err (trust_at blocks RejectedByRootStore)
                          | Some store \<Rightarrow> scan_pem P pem rest stop blocks store)))"
  by pat_completeness auto
termination
  by (relation "measure (\<lambda>(P, pem, ls, offset, blocks, store). length ls)")
     (auto dest: scan_block_shorter)

declare scan_block.simps [simp del] scan_pem.simps [simp del]

definition parse_custom :: "('der, 'store) pki \<Rightarrow> str \<Rightarrow> trust_error + 'store" where
  "parse_custom P pem =
     (if MAX_INPUT_BYTES < length pem then Err (trust_whole TooLarge)
      else case scan_pem P pem (split_inclusive LF pem) 0 0 (store_empty P) of
             Err e \<Rightarrow> Err e
           | Ok (blocks, store) \<Rightarrow>
               if blocks = 0 then Err (trust_whole NoCertificates) else Ok store)"

definition resolve_trust :: "('der, 'store) pki \<Rightarrow> trust \<Rightarrow> trust_error + 'store option" where
  "resolve_trust P t =
     (case t of
        Bundled \<Rightarrow> Ok None
      | Custom pem \<Rightarrow> map_sum id Some (parse_custom P pem))"


subsection \<open>Trimming\<close>

lemma split_inclusive_concat [simp]: "concat (split_inclusive c s) = s"
  by (induction c s rule: split_inclusive.induct) (auto split: list.splits)

lemma trim_end_split:
  obtains w where "s = trim_end s @ w"
    and "\<And>b. b \<in> set w \<Longrightarrow> b < 128 \<Longrightarrow> is_whitespace (unat b)"
proof -
  let ?ws = "\<lambda>c. is_whitespace (code_point c)"
  let ?w = "concat (rev (takeWhile ?ws (rev (chars s))))"
  have "chars s = rev (dropWhile ?ws (rev (chars s))) @ rev (takeWhile ?ws (rev (chars s)))"
    by (metis rev_append rev_rev_ident takeWhile_dropWhile_id)
  then have "s = trim_end s @ ?w"
    unfolding trim_end_def by (metis concat_append concat_chars)
  moreover have "is_whitespace (unat b)" if "b \<in> set ?w" "b < 128" for b
  proof -
    from that(1) obtain c where c: "c \<in> set (takeWhile ?ws (rev (chars s)))" and b: "b \<in> set c"
      by auto
    then have "c \<in> set (chars s)" and "?ws c" by (auto dest: set_takeWhileD)
    moreover from this(1) have "c = [b]" by (rule chars_ascii_byte [OF _ b that(2)])
    ultimately show ?thesis by simp
  qed
  ultimately show ?thesis using that by blast
qed

text \<open>Trimming does not hide a mark that ends in a visible ASCII character.\<close>

lemma contains_trim_end:
  assumes "m \<noteq> []" and "last m < 128" and "\<not> is_whitespace (unat (last m))"
  shows "contains (trim_end s) m \<longleftrightarrow> contains s m"
proof
  obtain w where s: "s = trim_end s @ w"
    and w: "\<And>b. b \<in> set w \<Longrightarrow> b < 128 \<Longrightarrow> is_whitespace (unat b)"
    using trim_end_split [of s] by blast
  show "contains s m" if "contains (trim_end s) m"
  proof -
    from that obtain a b where "trim_end s = a @ m @ b" by (auto simp: contains_iff)
    with s have "s = a @ m @ (b @ w)" by simp
    then show ?thesis by (metis contains_iff)
  qed
  show "contains (trim_end s) m" if "contains s m"
  proof -
    from that obtain a b where ab: "s = (a @ m) @ b" by (auto simp: contains_iff)
    with s have "(a @ m) @ b = trim_end s @ w" by simp
    from append_eq_append_conv2 [THEN iffD1, OF this]
    obtain us where us: "(a @ m) @ us = trim_end s \<or> a @ m = trim_end s @ us \<and> us @ b = w"
      by blast
    have "\<not> (us \<noteq> [] \<and> a @ m = trim_end s @ us \<and> us @ b = w)"
    proof
      assume 2: "us \<noteq> [] \<and> a @ m = trim_end s @ us \<and> us @ b = w"
      then have "last m = last us" using assms(1) by (metis last_appendR)
      then have "last m \<in> set w" using 2 by (metis Un_iff last_in_set set_append)
      with w assms(2,3) show False by blast
    qed
    with us have "a @ m @ us = trim_end s \<or> a @ m @ [] = trim_end s" by auto
    then show ?thesis unfolding contains_iff by metis
  qed
qed

lemma marks_visible:
  "contains (trim_end s) BEGIN_MARK \<longleftrightarrow> contains s BEGIN_MARK"
  "contains (trim_end s) END_MARK \<longleftrightarrow> contains s END_MARK"
  by (rule contains_trim_end; code_simp)+

lemma classify_Text: "classify l = TextLine \<longleftrightarrow> \<not> contains l BEGIN_MARK \<and> \<not> contains l END_MARK"
  by (auto simp: classify_def Let_def marks_visible split: option.splits)

lemma classify_End: "classify l = EndCertificate \<longleftrightarrow> trim_end l = CERTIFICATE_END"
proof -
  have "contains CERTIFICATE_END END_MARK" by code_simp
  then show ?thesis by (auto simp: classify_def Let_def split: option.splits)
qed

lemma classify_Begin:
  "classify l = BeginLine x \<longleftrightarrow> trim_end l = BEGIN_PREFIX @ x @ DASHES"
proof -
  have "BEGIN_PREFIX = BEGIN_MARK @ [SP]" by code_simp
  then have "contains (BEGIN_PREFIX @ x @ DASHES) BEGIN_MARK"
    unfolding contains_iff by (metis append.assoc append_Nil)
  moreover have "BEGIN_PREFIX @ x @ DASHES \<noteq> CERTIFICATE_END"
  proof
    assume "BEGIN_PREFIX @ x @ DASHES = CERTIFICATE_END"
    then have "take 6 (BEGIN_PREFIX @ x @ DASHES) = take 6 CERTIFICATE_END" by simp
    moreover have "take 6 (BEGIN_PREFIX @ x @ DASHES) = take 6 BEGIN_PREFIX"
      by (simp add: BEGIN_PREFIX_def)
    ultimately have "take 6 BEGIN_PREFIX = take 6 CERTIFICATE_END" by simp
    moreover have "take 6 BEGIN_PREFIX \<noteq> take 6 CERTIFICATE_END" by code_simp
    ultimately show False by contradiction
  qed
  moreover have "strip_prefix (BEGIN_PREFIX @ x @ DASHES) BEGIN_PREFIX = Some (x @ DASHES)"
    "strip_suffix (x @ DASHES) DASHES = Some x"
    by (simp_all add: strip_prefix_Some strip_suffix_Some)
  ultimately have "classify l = BeginLine x" if "trim_end l = BEGIN_PREFIX @ x @ DASHES"
    using that by (simp add: classify_def)
  moreover have "trim_end l = BEGIN_PREFIX @ x @ DASHES" if "classify l = BeginLine x"
    using that by (auto simp: classify_def Let_def strip_prefix_Some strip_suffix_Some
        bind_eq_Some_conv split: option.splits if_splits)
  ultimately show ?thesis by blast
qed


subsection \<open>What a bundle is\<close>

text \<open>
  The grammar the scanner is meant to accept: text and certificate blocks, each from its exact BEGIN
  line over text to its exact END line.  The second argument lists the blocks.
\<close>

inductive pem_bundle :: "str list \<Rightarrow> byte list list \<Rightarrow> bool" where
  bundle_end: "pem_bundle [] []"
| bundle_text: "classify l = TextLine \<Longrightarrow> pem_bundle ls bs \<Longrightarrow> pem_bundle (l # ls) bs"
| bundle_block: "classify l = BeginLine CERTIFICATE_LABEL \<Longrightarrow>
    list_all (\<lambda>x. classify x = TextLine) body \<Longrightarrow> classify e = EndCertificate \<Longrightarrow>
    pem_bundle ls bs \<Longrightarrow> pem_bundle (l # body @ e # ls) (concat (l # body @ [e]) # bs)"

inductive_cases pem_bundle_ConsE: "pem_bundle (l # ls) bs"
inductive_simps pem_bundle_Nil [simp]: "pem_bundle [] bs"

fun load_certs :: "('der, 'store) pki \<Rightarrow> byte list list \<Rightarrow> 'store \<Rightarrow> 'store option" where
  "load_certs P [] s = Some s"
| "load_certs P (b # bs) s =
     Option.bind (from_pem_slice P b) (\<lambda>d. Option.bind (store_add P s d) (load_certs P bs))"

lemma scan_block_Ok:
  "scan_block ls n = Ok (k, rest) \<longleftrightarrow>
     (\<exists>body e. ls = body @ e # rest \<and> list_all (\<lambda>x. classify x = TextLine) body \<and>
        classify e = EndCertificate \<and> k = n + length (concat (body @ [e])))"
proof (induction ls n rule: scan_block.induct)
  case (2 l ls n)
  show ?case
  proof (cases "classify l = TextLine")
    case True
    then have "scan_block (l # ls) n = scan_block ls (n + length l)"
      by (simp add: scan_block.simps)
    moreover have "(\<exists>body e. l # ls = body @ e # rest \<and> list_all (\<lambda>x. classify x = TextLine) body \<and>
        classify e = EndCertificate \<and> k = n + length (concat (body @ [e]))) \<longleftrightarrow>
      (\<exists>body e. ls = body @ e # rest \<and> list_all (\<lambda>x. classify x = TextLine) body \<and>
        classify e = EndCertificate \<and> k = n + length l + length (concat (body @ [e])))"
      (is "?L \<longleftrightarrow> ?R")
    proof
      assume ?L
      then obtain body e where b: "l # ls = body @ e # rest"
        "list_all (\<lambda>x. classify x = TextLine) body" "classify e = EndCertificate"
        "k = n + length (concat (body @ [e]))" by blast
      with True obtain body' where "body = l # body'" by (cases body) auto
      with b show ?R by auto
    next
      assume ?R
      then obtain body e where "ls = body @ e # rest" "list_all (\<lambda>x. classify x = TextLine) body"
        "classify e = EndCertificate" "k = n + length l + length (concat (body @ [e]))" by blast
      with True show ?L by (intro exI [of _ "l # body"] exI [of _ e]) simp
    qed
    ultimately show ?thesis using 2 [OF refl] True by simp
  next
    case False
    then have "(\<exists>body e. l # ls = body @ e # rest \<and> list_all (\<lambda>x. classify x = TextLine) body \<and>
        classify e = EndCertificate \<and> k = n + length (concat (body @ [e]))) \<longleftrightarrow>
      ls = rest \<and> classify l = EndCertificate \<and> k = n + length l"
      by (auto simp: Cons_eq_append_conv)
    with False show ?thesis by (auto simp: scan_block.simps Let_def split: pem_line.splits)
  qed
qed (simp add: scan_block.simps)


lemma pem_bundle_Begin:
  assumes "classify l = BeginLine x"
  shows "pem_bundle (l # ls) bs \<longleftrightarrow> x = CERTIFICATE_LABEL \<and>
     (\<exists>k rest bs'. scan_block ls n = Ok (k, rest) \<and> pem_bundle rest bs' \<and>
        bs = take (length l + (k - n)) (concat (l # ls)) # bs')"
proof
  assume "pem_bundle (l # ls) bs"
  then obtain body e rest bs' where "x = CERTIFICATE_LABEL" "ls = body @ e # rest"
    "list_all (\<lambda>x. classify x = TextLine) body" "classify e = EndCertificate"
    "pem_bundle rest bs'" "bs = concat (l # body @ [e]) # bs'"
    using assms by (auto elim!: pem_bundle_ConsE)
  moreover from this have "scan_block ls n = Ok (n + length (concat (body @ [e])), rest)"
    by (auto simp: scan_block_Ok)
  ultimately show "x = CERTIFICATE_LABEL \<and>
     (\<exists>k rest bs'. scan_block ls n = Ok (k, rest) \<and> pem_bundle rest bs' \<and>
        bs = take (length l + (k - n)) (concat (l # ls)) # bs')"
    by auto
next
  assume "x = CERTIFICATE_LABEL \<and>
     (\<exists>k rest bs'. scan_block ls n = Ok (k, rest) \<and> pem_bundle rest bs' \<and>
        bs = take (length l + (k - n)) (concat (l # ls)) # bs')"
  then obtain k rest bs' where "x = CERTIFICATE_LABEL" and sc: "scan_block ls n = Ok (k, rest)"
    and "pem_bundle rest bs'" and bs: "bs = take (length l + (k - n)) (concat (l # ls)) # bs'"
    by blast
  from sc obtain body e where "ls = body @ e # rest" "list_all (\<lambda>x. classify x = TextLine) body"
    "classify e = EndCertificate" "k = n + length (concat (body @ [e]))"
    by (auto simp: scan_block_Ok)
  then show "pem_bundle (l # ls) bs"
    using bundle_block [of l body e rest bs'] assms \<open>x = CERTIFICATE_LABEL\<close> \<open>pem_bundle rest bs'\<close> bs
    by simp
qed

lemma scan_block_bytes:
  assumes "scan_block ls n = Ok (k, rest)" and "drop n pem = concat ls"
  shows "drop k pem = concat rest" and "n \<le> k"
proof -
  from assms(1) obtain body e where "ls = (body @ [e]) @ rest" "k = n + length (concat (body @ [e]))"
    by (auto simp: scan_block_Ok)
  then show "drop k pem = concat rest"
    using assms(2) by (metis add.commute append_eq_conv_conj concat_append drop_drop)
  show "n \<le> k" using \<open>k = _\<close> by simp
qed

text \<open>The position after a line, and the bundles of an input that starts with a whole block.\<close>

lemma drop_line: "drop off pem = concat (l # ls) \<Longrightarrow> drop (off + length l) pem = concat ls"
  by (metis add.commute append_eq_conv_conj concat.simps(2) drop_drop)

lemma pem_bundle_block:
  assumes "classify l = BeginLine CERTIFICATE_LABEL" and "drop off pem = concat (l # ls)"
    and sc: "scan_block ls (off + length l) = Ok (e, rest)"
  shows "drop e pem = concat rest"
    and "pem_bundle (l # ls) bs \<longleftrightarrow> (\<exists>bs'. pem_bundle rest bs' \<and> bs = slice pem off e # bs')"
proof -
  have e: "off + length l \<le> e" and rest: "drop e pem = concat rest"
    using scan_block_bytes [OF sc drop_line [OF assms(2)]] by simp_all
  show "drop e pem = concat rest" by (rule rest)
  have "slice pem off e = take (length l + (e - (off + length l))) (concat (l # ls))"
    using e assms(2) by (simp add: slice_def)
  then show "pem_bundle (l # ls) bs \<longleftrightarrow> (\<exists>bs'. pem_bundle rest bs' \<and> bs = slice pem off e # bs')"
    using pem_bundle_Begin [OF assms(1), of ls bs "off + length l"] sc by auto
qed

lemma scan_pem_Ok:
  assumes "drop off pem = concat ls" and "k \<le> MAX_BLOCKS"
  shows "scan_pem P pem ls off k s = Ok (n, s') \<longleftrightarrow>
     (\<exists>bs. pem_bundle ls bs \<and> n = k + length bs \<and> n \<le> MAX_BLOCKS \<and> load_certs P bs s = Some s')"
  using assms
proof (induction P pem ls off k s rule: scan_pem.induct)
  case (1 P pem off k s)
  then show ?case by (auto simp: scan_pem.simps)
next
  case (2 P pem l ls off k s)
  note nxt = drop_line [OF 2(3)]
  show ?case
  proof (cases "classify l")
    case TextLine
    have "pem_bundle (l # ls) bs \<longleftrightarrow> pem_bundle ls bs" for bs
      using TextLine by (auto elim: pem_bundle_ConsE intro: bundle_text)
    then show ?thesis
      using 2(1) [OF refl refl TextLine nxt] 2(4) TextLine by (simp add: scan_pem.simps)
  next
    case (BeginLine x)
    note pb = pem_bundle_Begin [OF BeginLine, of ls _ "off + length l"]
    consider "MAX_BLOCKS < k + 1 \<or> x \<noteq> CERTIFICATE_LABEL" | r where "scan_block ls (off + length l) = Inl r"
      | e rest where "\<not> MAX_BLOCKS < k + 1" "x = CERTIFICATE_LABEL"
        "scan_block ls (off + length l) = Ok (e, rest)"
      by (cases "scan_block ls (off + length l)") auto
    then show ?thesis
    proof cases
      case (3 e rest)
      note bnd = pem_bundle_block [OF BeginLine [unfolded 3(2)] 2(3) 3(3)]
      show ?thesis
      proof (cases "Option.bind (from_pem_slice P (slice pem off e)) (store_add P s)")
        case None
        then show ?thesis
          using BeginLine 3 by (auto simp: scan_pem.simps Let_def bnd(2) bind_eq_None_conv split: option.splits)
      next
        case (Some s1)
        then obtain der where der: "from_pem_slice P (slice pem off e) = Some der" "store_add P s der = Some s1"
          by (auto simp: bind_eq_Some_conv)
        have "scan_pem P pem rest e (k + 1) s1 = Ok (n, s') \<longleftrightarrow>
            (\<exists>bs. pem_bundle rest bs \<and> n = k + 1 + length bs \<and> n \<le> MAX_BLOCKS \<and> load_certs P bs s1 = Some s')"
          using 2(2) [OF refl refl BeginLine refl 3(1) _ 3(3) refl der bnd(1)] 3(1,2) by simp
        then show ?thesis using BeginLine 3 der by (auto simp: scan_pem.simps Let_def bnd(2))
      qed
    qed (use BeginLine in \<open>auto simp: scan_pem.simps pb\<close>)
  qed (auto simp: scan_pem.simps elim: pem_bundle_ConsE)
qed

lemma parse_custom_Ok:
  "parse_custom P pem = Ok s \<longleftrightarrow> length pem \<le> MAX_INPUT_BYTES \<and>
     (\<exists>bs. pem_bundle (split_inclusive LF pem) bs \<and> bs \<noteq> [] \<and> length bs \<le> MAX_BLOCKS \<and>
        load_certs P bs (store_empty P) = Some s)"
proof -
  have "scan_pem P pem (split_inclusive LF pem) 0 0 (store_empty P) = Ok (n, s') \<longleftrightarrow>
     (\<exists>bs. pem_bundle (split_inclusive LF pem) bs \<and> n = 0 + length bs \<and> n \<le> MAX_BLOCKS \<and>
       load_certs P bs (store_empty P) = Some s')" for n s'
    by (rule scan_pem_Ok) simp_all
  moreover have "parse_custom P pem = Ok s \<longleftrightarrow> length pem \<le> MAX_INPUT_BYTES \<and>
     (\<exists>n. n \<noteq> 0 \<and> scan_pem P pem (split_inclusive LF pem) 0 0 (store_empty P) = Ok (n, s))"
    by (auto simp: parse_custom_def split: sum.splits prod.splits)
  ultimately show ?thesis by auto
qed

subsection \<open>Boundary lines\<close>

lemma begin_line_marks:
  assumes "classify l = BeginLine CERTIFICATE_LABEL"
  shows "contains l BEGIN_MARK" and "\<not> contains l END_MARK"
proof -
  have "trim_end l = BEGIN_PREFIX @ CERTIFICATE_LABEL @ DASHES"
    using assms by (simp add: classify_Begin)
  moreover have "contains (BEGIN_PREFIX @ CERTIFICATE_LABEL @ DASHES) BEGIN_MARK"
    "\<not> contains (BEGIN_PREFIX @ CERTIFICATE_LABEL @ DASHES) END_MARK"
    by code_simp+
  ultimately show "contains l BEGIN_MARK" and "\<not> contains l END_MARK"
    using marks_visible [of l] by simp_all
qed

lemma end_line_marks:
  assumes "classify l = EndCertificate"
  shows "contains l END_MARK" and "\<not> contains l BEGIN_MARK"
proof -
  have "trim_end l = CERTIFICATE_END" using assms by (simp add: classify_End)
  moreover have "contains CERTIFICATE_END END_MARK" "\<not> contains CERTIFICATE_END BEGIN_MARK"
    by code_simp+
  ultimately show "contains l END_MARK" and "\<not> contains l BEGIN_MARK"
    using marks_visible [of l] by simp_all
qed

lemma bundle_marks:
  "pem_bundle ls bs \<Longrightarrow>
     length (filter (\<lambda>l. contains l BEGIN_MARK) ls) = length bs \<and>
     length (filter (\<lambda>l. contains l END_MARK) ls) = length bs \<and>
     (\<forall>l \<in> set ls. contains l BEGIN_MARK \<longrightarrow> trim_end l = BEGIN_PREFIX @ CERTIFICATE_LABEL @ DASHES) \<and>
     (\<forall>l \<in> set ls. contains l END_MARK \<longrightarrow> trim_end l = CERTIFICATE_END)"
proof (induction rule: pem_bundle.induct)
  case (bundle_text l ls bs)
  then show ?case by (auto simp: classify_Text)
next
  case (bundle_block l body e ls bs)
  then have "filter (\<lambda>l. contains l m) body = []" if "m = BEGIN_MARK \<or> m = END_MARK" for m
    using that by (auto simp: filter_empty_conv list_all_iff classify_Text)
  with bundle_block show ?case
    using begin_line_marks [OF bundle_block(1)] end_line_marks [OF bundle_block(3)]
    by (auto simp: classify_Begin classify_End list_all_iff classify_Text)
qed simp

lemma scan_block_Err: "scan_block ls n = Err r \<Longrightarrow> r = Unterminated \<or> r = MisplacedBoundary"
  by (induction ls n rule: scan_block.induct)
     (auto simp: scan_block.simps Let_def split: pem_line.splits)

lemma scan_pem_Err:
  "scan_pem P pem ls off k s = Err e \<Longrightarrow> k \<le> MAX_BLOCKS \<Longrightarrow>
   \<exists>n. te_block e = Some n \<and> k < n \<and> n \<le> MAX_BLOCKS + 1 \<and>
     te_reason e \<notin> {TooLarge, NoCertificates} \<and>
     (n \<le> MAX_BLOCKS \<or> te_reason e \<in> {TooManyBlocks, MisplacedBoundary}) \<and>
     (te_reason e = TooManyBlocks \<longrightarrow> n = MAX_BLOCKS + 1)"
proof (induction P pem ls off k s rule: scan_pem.induct)
  case (2 P pem l ls off k s)
  note failed = 2(3)
  show ?case
  proof (cases "classify l")
    case (BeginLine x)
    consider "MAX_BLOCKS < k + 1 \<or> x \<noteq> CERTIFICATE_LABEL"
      | r where "\<not> MAX_BLOCKS < k + 1" "x = CERTIFICATE_LABEL" "scan_block ls (off + length l) = Inl r"
      | a rest where "\<not> MAX_BLOCKS < k + 1" "x = CERTIFICATE_LABEL"
        "scan_block ls (off + length l) = Ok (a, rest)"
      by (cases "scan_block ls (off + length l)") auto
    then show ?thesis
    proof cases
      case (3 a rest)
      show ?thesis
      proof (cases "Option.bind (from_pem_slice P (slice pem off a)) (store_add P s)")
        case None
        then show ?thesis
          using BeginLine 3 2(3)
          by (auto simp: scan_pem.simps Let_def trust_at_def bind_eq_None_conv split: option.splits)
      next
        case (Some s1)
        then obtain der where der: "from_pem_slice P (slice pem off a) = Some der" "store_add P s der = Some s1"
          by (auto simp: bind_eq_Some_conv)
        have "scan_pem P pem rest a (k + 1) s1 = Err e"
          using BeginLine 3 2(3) der by (simp add: scan_pem.simps Let_def)
        then show ?thesis
          using 2(2) [OF refl refl BeginLine refl 3(1) _ 3(3) refl der] 3(1,2) by fastforce
      qed
    next
      case (2 r)
      then show ?thesis
        using scan_block_Err [OF 2(3)] BeginLine failed by (auto simp: scan_pem.simps trust_at_def)
    qed (use BeginLine 2(3,4) in
      \<open>auto simp: scan_pem.simps trust_at_def split: if_splits\<close>)
  qed (use 2 in \<open>auto simp: scan_pem.simps trust_at_def\<close>)
qed (simp add: scan_pem.simps)


subsection \<open>Properties\<close>

text \<open>
  C7: exactly which trust choice gives which store.  The bundled choice keeps the adapter's roots;
  a custom one is accepted just if it has at most 256 KiB, is a bundle of text and complete
  certificate blocks, has from one to 64 of them, and each is decoded and accepted by the store;
  and then the store is the one of all of its certificates in their order, starting from empty.
\<close>

theorem trust_accepts_exactly:
  "resolve_trust P t = Ok r \<longleftrightarrow>
     (case t of
        Bundled \<Rightarrow> r = None
      | Custom pem \<Rightarrow> \<exists>store bs. r = Some store \<and> length pem \<le> 262144 \<and>
          pem_bundle (split_inclusive LF pem) bs \<and> bs \<noteq> [] \<and> length bs \<le> 64 \<and>
          load_certs P bs (store_empty P) = Some store)"
proof (cases t)
  case (Custom pem)
  have "resolve_trust P t = Ok r \<longleftrightarrow> (\<exists>store. r = Some store \<and> parse_custom P pem = Ok store)"
    using Custom by (cases "parse_custom P pem") (auto simp: resolve_trust_def)
  then show ?thesis
    using Custom by (auto simp: parse_custom_Ok MAX_INPUT_BYTES_def MAX_BLOCKS_def)
qed (auto simp: resolve_trust_def)

text \<open>
  Nothing that looks like a block is skipped as a comment: in an accepted input every line
  that holds \<open>-----BEGIN\<close> or \<open>-----END\<close> anywhere is, up to trailing white space, the exact boundary
  of a certificate, and there are as many of each as certificates in the store.
\<close>

theorem trust_skips_no_block:
  assumes "parse_custom P pem = Ok store"
  shows "\<exists>bs. load_certs P bs (store_empty P) = Some store \<and>
     length (filter (\<lambda>l. contains l (lit ''-----BEGIN'')) (split_inclusive LF pem)) = length bs \<and>
     length (filter (\<lambda>l. contains l (lit ''-----END'')) (split_inclusive LF pem)) = length bs \<and>
     (\<forall>l \<in> set (split_inclusive LF pem).
        (contains l (lit ''-----BEGIN'') \<longrightarrow> trim_end l = lit ''-----BEGIN CERTIFICATE-----'') \<and>
        (contains l (lit ''-----END'') \<longrightarrow> trim_end l = lit ''-----END CERTIFICATE-----''))"
proof -
  obtain bs where b: "pem_bundle (split_inclusive LF pem) bs"
    and load: "load_certs P bs (store_empty P) = Some store"
    using assms by (auto simp: parse_custom_Ok)
  have "BEGIN_PREFIX @ CERTIFICATE_LABEL @ DASHES = lit ''-----BEGIN CERTIFICATE-----''" by code_simp
  then show ?thesis
    using bundle_marks [OF b] load
    by (auto simp: BEGIN_MARK_def END_MARK_def CERTIFICATE_END_def intro!: exI [of _ bs])
qed

text \<open>A parameter that accepts everything, and a bundle with a comment.\<close>

definition lax_pki :: "(byte list, byte list list) pki" where
  "lax_pki = \<lparr>from_pem_slice = Some, store_empty = [], store_add = (\<lambda>s d. Some (s @ [d]))\<rparr>"

definition sample_pem :: str where
  "sample_pem = lit ''# CA'' @ [LF] @ lit ''-----BEGIN CERTIFICATE-----'' @ CRLF @ lit ''AA=='' @ CRLF @
     lit ''-----END CERTIFICATE-----'' @ CRLF"

lemma sample_parsed: "parse_custom lax_pki sample_pem = Ok [drop 5 sample_pem]"
proof -
  have "length sample_pem \<le> MAX_INPUT_BYTES" by (simp add: sample_pem_def MAX_INPUT_BYTES_def)
  moreover have "scan_pem lax_pki sample_pem (split_inclusive LF sample_pem) 0 0 (store_empty lax_pki) =
      Ok (1, [drop 5 sample_pem])"
    by code_simp
  ultimately show ?thesis by (simp add: parse_custom_def)
qed

theorem trust_skips_no_block_witness:
  "\<exists>bs. load_certs lax_pki bs [] = Some [drop 5 sample_pem] \<and> length bs = 1"
proof -
  from trust_skips_no_block [OF sample_parsed] obtain bs
    where "load_certs lax_pki bs (store_empty lax_pki) = Some [drop 5 sample_pem]"
      "length (filter (\<lambda>l. contains l (lit ''-----BEGIN'')) (split_inclusive LF sample_pem)) = length bs"
    by blast
  moreover have "length (filter (\<lambda>l. contains l (lit ''-----BEGIN'')) (split_inclusive LF sample_pem)) = 1"
    by code_simp
  ultimately show ?thesis by (auto simp: lax_pki_def)
qed

text \<open>
  What a rejection tells: the size bound comes first; the input as a whole is rejected only for
  its size or for having no certificate; any other error names a block from 1 to 65, the last
  being the one too many; and the message is a function of that number and a fixed reason.
\<close>

theorem trust_errors_fixed:
  "case parse_custom P pem of
     Ok _ \<Rightarrow> length pem \<le> 262144
   | Err e \<Rightarrow> (te_reason e = TooLarge \<longleftrightarrow> 262144 < length pem) \<and>
       (case te_block e of
          None \<Rightarrow> te_reason e = TooLarge \<or> te_reason e = NoCertificates
        | Some n \<Rightarrow> 1 \<le> n \<and>
            (case te_reason e of
               TooLarge \<Rightarrow> False | NoCertificates \<Rightarrow> False
             | TooManyBlocks \<Rightarrow> n = 65 | MisplacedBoundary \<Rightarrow> n \<le> 65 | _ \<Rightarrow> n \<le> 64))"
proof (cases "MAX_INPUT_BYTES < length pem")
  case True
  then show ?thesis by (simp add: parse_custom_def trust_whole_def MAX_INPUT_BYTES_def)
next
  case False
  then have small: "length pem \<le> 262144" by (simp add: MAX_INPUT_BYTES_def)
  show ?thesis
  proof (cases "scan_pem P pem (split_inclusive LF pem) 0 0 (store_empty P)")
    case (Inl e)
    then have "parse_custom P pem = Err e" using False by (simp add: parse_custom_def)
    then show ?thesis using scan_pem_Err [OF Inl] small
      by (cases "te_reason e") (auto simp: MAX_BLOCKS_def)
  next
    case (Inr p)
    then show ?thesis
      using False small by (cases p) (auto simp: parse_custom_def trust_whole_def)
  qed
qed

end
