(* ===== verification/Tls_Options.thy ===== *)
theory Tls_Options
  imports Trust Errors
begin

text \<open>
  TLS setup as the two rustls adapters do it: connection options, the trust anchors of a build, and
  the client configuration.  From \<open>wasm-smtp-wasi/src/tls.rs\<close>, \<open>wasm-smtp-wasi/src/error.rs\<close> and
  the first part of \<open>wasm-smtp-tokio/src/transport.rs\<close>.

  The rustls library is a parameter: root stores (shared with the trust scanner), the bundled and
  the operating system's certificates, the construction of a configuration for a root store (with
  the crypto provider of the build, the default versions and no client certificate), its ALPN
  list, and server names.  Errors of the library are their \<open>Display\<close> texts.
\<close>

record ('der, 'store, 'anchor, 'config, 'name) tls_lib = "('der, 'store) pki" +
  store_extend :: "'store \<Rightarrow> 'anchor list \<Rightarrow> 'store"
  store_is_empty :: "'store \<Rightarrow> bool"
  webpki_anchors :: "'anchor list"
  native_certs :: "'der list"
  native_cert_errors :: bool
  client_config :: "'store \<Rightarrow> str + 'config"
  config_alpn :: "'config \<Rightarrow> byte list list \<Rightarrow> 'config"
  parse_server_name :: "str \<Rightarrow> str + 'name"

text \<open>The cargo features that choose the trust anchors.\<close>

record root_features =
  webpki_roots :: bool
  native_roots :: bool

text \<open>Adding what the operating system gave, skipping what the store rejects.\<close>

fun add_native :: "('der, 'store, 'z) pki_scheme \<Rightarrow> 'store \<Rightarrow> 'der list \<Rightarrow> 'store" where
  "add_native L store [] = store"
| "add_native L store (cert # certs) =
     add_native L (case store_add L store cert of Some s \<Rightarrow> s | None \<Rightarrow> store) certs"

definition empty_trust_store :: "bool \<Rightarrow> str" where
  "empty_trust_store errors =
     lit ''rustls-native-certs returned an empty trust store; the OS ''
     @ lit ''trust store may be missing or unreadable''
     @ (if errors then lit '', and one or more sources reported errors'' else [])"

text \<open>\<open>ConnectOptions\<close>, which both crates declare with the same fields and builders.\<close>

record 'store connect_options =
  co_server_name :: "str option"
  co_root_store :: "'store option"
  co_alpn :: "byte list list"

definition connect_options_default :: "'store connect_options" where
  "connect_options_default = \<lparr>co_server_name = None, co_root_store = None, co_alpn = []\<rparr>"

subsection \<open>WASI\<close>

datatype wasi_error = WasiSmtpError (wasi_message: str)

definition io_error_of_wasi :: "wasi_error \<Rightarrow> io_error" where
  "io_error_of_wasi e = with_source (wasi_message e) (OtherError (wasi_message e) None)"

definition wasi_with_server_name :: "str \<Rightarrow> 'store connect_options \<Rightarrow> 'store connect_options" where
  "wasi_with_server_name n o' = o'\<lparr>co_server_name := Some n\<rparr>"

definition wasi_with_root_store :: "'store \<Rightarrow> 'store connect_options \<Rightarrow> 'store connect_options" where
  "wasi_with_root_store s o' = o'\<lparr>co_root_store := Some s\<rparr>"

definition wasi_with_alpn :: "byte list list \<Rightarrow> 'store connect_options \<Rightarrow> 'store connect_options" where
  "wasi_with_alpn ps o' = o'\<lparr>co_alpn := ps\<rparr>"

definition wasi_default_root_store ::
    "('der, 'store, 'anchor, 'config, 'name) tls_lib \<Rightarrow> root_features \<Rightarrow> wasi_error + 'store" where
  "wasi_default_root_store L F =
     (if webpki_roots F then Ok (store_extend L (store_empty L) (webpki_anchors L))
      else if native_roots F then
        let store = add_native L (store_empty L) (native_certs L)
        in if store_is_empty L store
           then Err (WasiSmtpError (empty_trust_store (native_cert_errors L))) else Ok store
      else Err (WasiSmtpError (lit ''no trust-anchor source configured: enable the `webpki-roots` ''
             @ lit ''or `native-roots` cargo feature'')))"

definition make_tls_config ::
    "('der, 'store, 'anchor, 'config, 'name) tls_lib \<Rightarrow> root_features \<Rightarrow> 'store connect_options \<Rightarrow>
     wasi_error + 'config" where
  "make_tls_config L F opts =
     (case (case co_root_store opts of Some s \<Rightarrow> Ok s | None \<Rightarrow> wasi_default_root_store L F) of
        Err e \<Rightarrow> Err e
      | Ok root_store \<Rightarrow>
          (case client_config L root_store of
             Err e \<Rightarrow> Err (WasiSmtpError (lit ''rustls rejected the default protocol versions: '' @ e))
           | Ok config \<Rightarrow>
               Ok (if co_alpn opts \<noteq> [] then config_alpn L config (co_alpn opts) else config)))"

definition wasi_server_name ::
    "('der, 'store, 'anchor, 'config, 'name) tls_lib \<Rightarrow> str \<Rightarrow> wasi_error + 'name" where
  "wasi_server_name L host =
     map_err (\<lambda>e. WasiSmtpError (lit ''invalid server name '' @ [39] @ host @ [39] @ lit '': '' @ e))
       (parse_server_name L host)"

subsection \<open>Tokio\<close>

type_synonym 'store tokio_connect_options = "'store connect_options"

definition tokio_options_new :: "'store tokio_connect_options" where
  "tokio_options_new = connect_options_default"

definition tokio_with_server_name :: "str \<Rightarrow> 'store connect_options \<Rightarrow> 'store connect_options" where
  "tokio_with_server_name n o' = o'\<lparr>co_server_name := Some n\<rparr>"

definition tokio_with_root_store :: "'store \<Rightarrow> 'store connect_options \<Rightarrow> 'store connect_options" where
  "tokio_with_root_store s o' = o'\<lparr>co_root_store := Some s\<rparr>"

definition tokio_with_alpn :: "byte list list \<Rightarrow> 'store connect_options \<Rightarrow> 'store connect_options" where
  "tokio_with_alpn ps o' = o'\<lparr>co_alpn := ps\<rparr>"

definition tokio_default_root_store ::
    "('der, 'store, 'anchor, 'config, 'name) tls_lib \<Rightarrow> root_features \<Rightarrow> io_error + 'store" where
  "tokio_default_root_store L F =
     (if native_roots F then
        let store = add_native L (store_empty L) (native_certs L)
        in if store_is_empty L store
           then Err (io_error_new (empty_trust_store (native_cert_errors L))) else Ok store
      else if webpki_roots F then Ok (store_extend L (store_empty L) (webpki_anchors L))
      else Err (io_error_new (lit ''wasm-smtp-tokio was built without a trust-anchor source. ''
             @ lit ''Enable the `native-roots` or `webpki-roots` cargo feature.'')))"

definition build_client_config ::
    "('der, 'store, 'anchor, 'config, 'name) tls_lib \<Rightarrow> root_features \<Rightarrow> 'store connect_options \<Rightarrow>
     io_error + 'config" where
  "build_client_config L F opts =
     (case (case co_root_store opts of Some s \<Rightarrow> Ok s | None \<Rightarrow> tokio_default_root_store L F) of
        Err e \<Rightarrow> Err e
      | Ok root_store \<Rightarrow>
          (case client_config L root_store of
             Err e \<Rightarrow> Err (io_error_new (lit ''rustls rejected the default protocol versions: '' @ e))
           | Ok config \<Rightarrow>
               Ok (if co_alpn opts \<noteq> [] then config_alpn L config (co_alpn opts) else config)))"

definition map_io_err :: "str \<Rightarrow> std_error \<Rightarrow> io_error" where
  "map_io_err context e = with_source context e"

subsection \<open>A store that is given is the whole trust\<close>

lemma make_tls_config_store:
  "co_root_store opts = Some s \<Longrightarrow> make_tls_config L F opts =
     (case client_config L s of
        Err e \<Rightarrow> Err (WasiSmtpError (lit ''rustls rejected the default protocol versions: '' @ e))
      | Ok config \<Rightarrow> Ok (if co_alpn opts \<noteq> [] then config_alpn L config (co_alpn opts) else config))"
  by (simp add: make_tls_config_def)

text \<open>The two builds of a configuration agree where both features choose the same anchors.\<close>

lemma tls_configs_agree:
  assumes "webpki_roots F \<longleftrightarrow> \<not> native_roots F"
  shows "map_err io_message (build_client_config L F opts) =
     map_err wasi_message (make_tls_config L F opts)"
proof -
  have "map_err io_message (tokio_default_root_store L F) =
      map_err wasi_message (wasi_default_root_store L F)"
    using assms
    by (auto simp: tokio_default_root_store_def wasi_default_root_store_def Let_def io_error_new_def)
  then show ?thesis
    by (cases "tokio_default_root_store L F"; cases "wasi_default_root_store L F")
       (auto simp: build_client_config_def make_tls_config_def io_error_new_def
          split: option.splits sum.splits)
qed

text \<open>A library that accepts everything.\<close>

definition lax_lib :: "(byte list, byte list list, byte list, byte list list, str) tls_lib" where
  "lax_lib = pki.extend lax_pki
     \<lparr>store_extend = (@), store_is_empty = (\<lambda>s. s = []), webpki_anchors = [], native_certs = [],
      native_cert_errors = False, client_config = Ok, config_alpn = (\<lambda>c _. c),
      parse_server_name = Ok\<rparr>"

text \<open>A build with the bundled roots.\<close>

definition bundled_build :: root_features where
  "bundled_build = \<lparr>webpki_roots = True, native_roots = False\<rparr>"

end
