(* ===== verification/Tokio_Build.thy ===== *)
theory Tokio_Build
  imports Tls_Options
begin

text \<open>
  The build of the Tokio adapter: the four \<open>compile_error!\<close> guards of
  \<open>wasm-smtp-tokio/src/lib.rs\<close> and the choice of the crypto provider in its \<open>transport.rs\<close>.  A
  build that the guards let pass has one source of trust anchors and one provider, so no branch of
  \<open>default_root_store\<close> that stands for a misconfigured build is reached.
\<close>

record build_features = root_features +
  aws_lc_rs :: bool
  ring_provider :: bool

text \<open>The messages of the guards a build trips, in the order of the file.\<close>

definition build_errors :: "build_features \<Rightarrow> str list" where
  "build_errors F =
     (if native_roots F \<and> webpki_roots F
      then [lit ''wasm-smtp-tokio: the `native-roots` and `webpki-roots` features are ''
            @ lit ''mutually exclusive. Pick exactly one. To use webpki-roots, set ''
            @ lit ''`default-features = false, features = ['' @ [34] @ lit ''webpki-roots'' @ [34]
            @ lit '', '' @ [34] @ lit ''aws-lc-rs'' @ [34] @ lit '']` ''
            @ lit ''(or substitute `ring` for `aws-lc-rs`).''] else [])
     @ (if \<not> (native_roots F \<or> webpki_roots F)
        then [lit ''wasm-smtp-tokio: a trust-anchor source is required. Enable exactly ''
              @ lit ''one of `native-roots` (default) or `webpki-roots`.''] else [])
     @ (if aws_lc_rs F \<and> ring_provider F
        then [lit ''wasm-smtp-tokio: the `aws-lc-rs` and `ring` features are mutually ''
              @ lit ''exclusive. Pick exactly one. The default is `aws-lc-rs`; set ''
              @ lit ''`default-features = false` and add `ring` (plus a trust-anchor ''
              @ lit ''feature) to switch.''] else [])
     @ (if \<not> (aws_lc_rs F \<or> ring_provider F)
        then [lit ''wasm-smtp-tokio: a rustls crypto provider is required. Enable ''
              @ lit ''exactly one of `aws-lc-rs` (default) or `ring`.''] else [])"

datatype provider = Aws_Lc_Rs | Ring

text \<open>\<open>None\<close> stands for the build in which the function has no body left.\<close>

definition crypto_provider :: "build_features \<Rightarrow> provider option" where
  "crypto_provider F =
     (if aws_lc_rs F then Some Aws_Lc_Rs
      else if ring_provider F \<and> \<not> aws_lc_rs F then Some Ring
      else None)"

text \<open>The manifest's default features.\<close>

definition default_build :: build_features where
  "default_build = \<lparr>webpki_roots = False, native_roots = True, aws_lc_rs = True, ring_provider = False\<rparr>"

lemma build_errors_none:
  "build_errors F = [] \<longleftrightarrow>
     webpki_roots F \<noteq> native_roots F \<and> aws_lc_rs F \<noteq> ring_provider F"
  by (auto simp: build_errors_def)

lemma default_build_compiles: "build_errors default_build = []"
  by (simp add: build_errors_none default_build_def)

text \<open>The provider is the one the build names, and no other.\<close>

lemma built_provider:
  assumes "build_errors F = []"
  shows "crypto_provider F = Some (if ring_provider F then Ring else Aws_Lc_Rs)"
  using assms by (auto simp: build_errors_none crypto_provider_def)

text \<open>
  A build the guards let pass fails to find trust anchors only when the operating system has none,
  and sets TLS up as the WASI adapter of the same features does.
\<close>

lemma built_root_store_error:
  assumes "build_errors F = []"
    and "tokio_default_root_store L (root_features.truncate F) = Err e"
  shows "native_roots F \<and> e = io_error_new (empty_trust_store (native_cert_errors L))"
  using assms
  by (auto simp: build_errors_none tokio_default_root_store_def root_features.defs Let_def
      split: if_splits)

lemma built_configs_agree:
  assumes "build_errors F = []"
  shows "map_err io_message (build_client_config L (root_features.truncate F) opts) =
     map_err wasi_message (make_tls_config L (root_features.truncate F) opts)"
  using assms by (intro tls_configs_agree) (simp add: build_errors_none root_features.defs)

end
