(* ===== verification/Wasi_Stream.thy ===== *)
theory Wasi_Stream
  imports Tls_Options
begin

text \<open>
  The WASI byte stream (\<open>wasm-smtp-wasi/src/wasi_impl/stream.rs\<close>) and name resolution
  (\<open>wasi_impl/dns.rs\<close>) over the host's interfaces, which are parameters: \<open>wasi:io/streams\<close> on a
  connected socket of type \<open>'h\<close>, and \<open>wasi:sockets\<close> on a world \<open>'w\<close> for what comes before.  Texts
  of host errors (\<open>to_debug_string\<close>, \<open>{:?}\<close>) are given as strings.

  \<open>read\<close> and \<open>resolve\<close> wait for the host as long as it takes, so they are partial: \<open>None\<close> is a
  call that never returns.
\<close>

datatype stream_error = StreamClosed | LastOperationFailed str

record 'h wasi_io =
  blocking_read :: "'h \<Rightarrow> nat \<Rightarrow> (stream_error + byte list) \<times> 'h"
  await_readable :: "'h \<Rightarrow> 'h"
  blocking_write_and_flush :: "'h \<Rightarrow> byte list \<Rightarrow> (stream_error + unit) \<times> 'h"
  shutdown_both :: "'h \<Rightarrow> (str + unit) \<times> 'h"
  quote_debug :: "str \<Rightarrow> str"

definition MAX_BLOCKING_WRITE :: nat where "MAX_BLOCKING_WRITE = 4096"

partial_function (option) wasi_read ::
    "'h wasi_io \<Rightarrow> nat \<Rightarrow> 'h \<Rightarrow> ((wasi_error + byte list) \<times> 'h) option" where
  "wasi_read H buf_len h =
     (case blocking_read H h buf_len of
        (Ok bytes, h) \<Rightarrow>
          if bytes = [] then wasi_read H buf_len (await_readable H h)
          else (let n = min (length bytes) buf_len in Some (Ok (take n bytes), h))
      | (Err StreamClosed, h) \<Rightarrow> Some (Ok [], h)
      | (Err (LastOperationFailed e), h) \<Rightarrow>
          Some (Err (WasiSmtpError (lit ''stream read failed: '' @ e)), h))"

text \<open>\<open>slice::chunks\<close>.\<close>

function chunks :: "nat \<Rightarrow> 'a list \<Rightarrow> 'a list list" where
  "chunks n xs = (if xs = [] \<or> n = 0 then [] else take n xs # chunks n (drop n xs))"
  by pat_completeness auto
termination by (relation "measure (\<lambda>(n, xs). length xs)") auto

declare chunks.simps [simp del]

definition wasi_write_error :: "'h wasi_io \<Rightarrow> stream_error \<Rightarrow> wasi_error" where
  "wasi_write_error H e =
     WasiSmtpError (case e of
        StreamClosed \<Rightarrow> lit ''stream write failed: stream closed''
      | LastOperationFailed e \<Rightarrow> lit ''stream write failed: '' @ quote_debug H e)"

fun wasi_write_chunks :: "'h wasi_io \<Rightarrow> byte list list \<Rightarrow> 'h \<Rightarrow> (wasi_error + unit) \<times> 'h" where
  "wasi_write_chunks H [] h = (Ok (), h)"
| "wasi_write_chunks H (chunk # rest) h =
     (case blocking_write_and_flush H h chunk of
        (Err e, h) \<Rightarrow> (Err (wasi_write_error H e), h)
      | (Ok _, h) \<Rightarrow> wasi_write_chunks H rest h)"

definition wasi_write_all :: "'h wasi_io \<Rightarrow> byte list \<Rightarrow> 'h \<Rightarrow> (wasi_error + unit) \<times> 'h" where
  "wasi_write_all H buf h = wasi_write_chunks H (chunks MAX_BLOCKING_WRITE buf) h"

definition wasi_flush :: "'h \<Rightarrow> (wasi_error + unit) \<times> 'h" where
  "wasi_flush h = (Ok (), h)"

definition wasi_close :: "'h wasi_io \<Rightarrow> 'h \<Rightarrow> (wasi_error + unit) \<times> 'h" where
  "wasi_close H h =
     (case shutdown_both H h of
        (Err e, h) \<Rightarrow> (Err (WasiSmtpError (lit ''shutdown failed: '' @ e)), h)
      | (Ok _, h) \<Rightarrow> (Ok (), h))"

subsection \<open>Sockets and names\<close>

type_synonym ipv4 = "byte \<times> byte \<times> byte \<times> byte"
type_synonym ipv6 = "u16 \<times> u16 \<times> u16 \<times> u16 \<times> u16 \<times> u16 \<times> u16 \<times> u16"

datatype ip_address = Ipv4 ipv4 | Ipv6 ipv6

datatype ip_family = FamilyIpv4 | FamilyIpv6

datatype ip_socket_address =
    Ipv4SocketAddress u16 ipv4
  | Ipv6SocketAddress u16 u32 ipv6 u32

text \<open>The host's network: \<open>'q\<close> is a pending name lookup, \<open>'s\<close> a socket, \<open>'h\<close> a connected one.\<close>

record ('w, 'q, 's, 'h) wasi_net =
  resolve_addresses :: "str \<Rightarrow> 'w \<Rightarrow> (str + 'q) \<times> 'w"
  await_address :: "'q \<Rightarrow> 'w \<Rightarrow> 'q \<times> 'w"
  resolve_next_address :: "'q \<Rightarrow> 'w \<Rightarrow> (str + ip_address option) \<times> 'q \<times> 'w"
  create_tcp_socket :: "ip_family \<Rightarrow> 'w \<Rightarrow> (str + 's) \<times> 'w"
  start_connect :: "'s \<Rightarrow> ip_socket_address \<Rightarrow> 'w \<Rightarrow> (str + 's) \<times> 'w"
  await_connected :: "'s \<Rightarrow> 'w \<Rightarrow> 's \<times> 'w"
  finish_connect :: "'s \<Rightarrow> 'w \<Rightarrow> (str + 'h) \<times> 'w"

text \<open>The loop over the answers of the resolver, with the addresses so far.\<close>

partial_function (option) collect_addresses ::
    "('w, 'q, 's, 'h) wasi_net \<Rightarrow> str \<Rightarrow> ip_address list \<Rightarrow> 'q \<Rightarrow> 'w \<Rightarrow>
     ((wasi_error + ip_address list) \<times> 'w) option" where
  "collect_addresses N host addresses q w =
     (let (q, w) = await_address N q w
      in case resolve_next_address N q w of
           (Ok (Some addr), q, w) \<Rightarrow> collect_addresses N host (addresses @ [addr]) q w
         | (Ok None, q, w) \<Rightarrow> Some (Ok addresses, w)
         | (Err e, q, w) \<Rightarrow>
             Some (Err (WasiSmtpError
               (lit ''DNS resolve_next_address failed for '' @ [39] @ host @ [39] @ lit '': '' @ e)), w))"

definition some_addresses :: "str \<Rightarrow> ip_address list \<Rightarrow> wasi_error + ip_address list" where
  "some_addresses host addresses =
     (if addresses = [] then
        Err (WasiSmtpError (lit ''DNS: no addresses found for '' @ [39] @ host @ [39]))
      else Ok addresses)"

definition wasi_resolve ::
    "('w, 'q, 's, 'h) wasi_net \<Rightarrow> str \<Rightarrow> 'w \<Rightarrow> ((wasi_error + ip_address list) \<times> 'w) option" where
  "wasi_resolve N host w =
     (case resolve_addresses N host w of
        (Err e, w) \<Rightarrow>
          Some (Err (WasiSmtpError
            (lit ''DNS resolve failed for '' @ [39] @ host @ [39] @ lit '': '' @ e)), w)
      | (Ok q, w) \<Rightarrow>
          (case collect_addresses N host [] q w of
             None \<Rightarrow> None
           | Some (Err e, w) \<Rightarrow> Some (Err e, w)
           | Some (Ok addresses, w) \<Rightarrow> Some (some_addresses host addresses, w)))"

definition socket_address :: "ip_address \<Rightarrow> u16 \<Rightarrow> ip_socket_address" where
  "socket_address addr port =
     (case addr of
        Ipv4 a \<Rightarrow> Ipv4SocketAddress port a
      | Ipv6 a \<Rightarrow> Ipv6SocketAddress port 0 a 0)"

definition wasi_connect ::
    "('w, 'q, 's, 'h) wasi_net \<Rightarrow> ip_address \<Rightarrow> u16 \<Rightarrow> 'w \<Rightarrow> (wasi_error + 'h) \<times> 'w" where
  "wasi_connect N addr port w =
     (let family = (case addr of Ipv4 _ \<Rightarrow> FamilyIpv4 | Ipv6 _ \<Rightarrow> FamilyIpv6);
          failed = (\<lambda>msg e. Err (WasiSmtpError (lit msg @ lit '' failed: '' @ e)))
      in case create_tcp_socket N family w of
           (Err e, w) \<Rightarrow> (failed ''create_tcp_socket'' e, w)
         | (Ok socket, w) \<Rightarrow>
             (case start_connect N socket (socket_address addr port) w of
                (Err e, w) \<Rightarrow> (failed ''start_connect'' e, w)
              | (Ok socket, w) \<Rightarrow>
                  (let (socket, w) = await_connected N socket w
                   in case finish_connect N socket w of
                        (Err e, w) \<Rightarrow> (failed ''finish_connect'' e, w)
                      | (Ok h, w) \<Rightarrow> (Ok h, w))))"


subsection \<open>Reading\<close>

text \<open>The host after \<open>k\<close> reads that returned nothing, each followed by a wait; and a final answer.\<close>

primrec waited :: "'h wasi_io \<Rightarrow> nat \<Rightarrow> nat \<Rightarrow> 'h \<Rightarrow> 'h option" where
  "waited H n 0 h = Some h"
| "waited H n (Suc k) h =
     (case blocking_read H h n of
        (Ok bytes, h) \<Rightarrow> if bytes = [] then waited H n k (await_readable H h) else None
      | (Err e, h) \<Rightarrow> None)"

definition read_answer ::
    "nat \<Rightarrow> (stream_error + byte list) \<times> 'h \<Rightarrow> ((wasi_error + byte list) \<times> 'h) option" where
  "read_answer n a =
     (case a of
        (Ok bytes, h) \<Rightarrow> if bytes = [] then None else Some (Ok (take n bytes), h)
      | (Err StreamClosed, h) \<Rightarrow> Some (Ok [], h)
      | (Err (LastOperationFailed e), h) \<Rightarrow>
          Some (Err (WasiSmtpError (lit ''stream read failed: '' @ e)), h))"

lemma take_min_length: "take (min (length xs) n) xs = take n xs"
  by (cases "length xs \<le> n") (auto simp: min_def)

lemma wasi_read_unfold:
  "wasi_read H n h =
     (case blocking_read H h n of
        (Ok [], h') \<Rightarrow> wasi_read H n (await_readable H h')
      | _ \<Rightarrow> read_answer n (blocking_read H h n))"
  by (subst wasi_read.simps)
     (auto simp: read_answer_def Let_def take_min_length
        split: prod.splits sum.splits stream_error.splits list.splits)

lemma wasi_read_waits:
  "waited H n k h = Some h' \<Longrightarrow> wasi_read H n h = wasi_read H n h'"
proof (induction k arbitrary: h)
  case (Suc k)
  then show ?case
    by (subst wasi_read_unfold) (auto split: prod.splits sum.splits if_splits)
qed simp

lemma wasi_read_answers: "read_answer n (blocking_read H h n) = Some r \<Longrightarrow> wasi_read H n h = Some r"
  by (subst wasi_read_unfold) (auto simp: read_answer_def split: prod.splits sum.splits list.splits)

lemma wasi_read_Some:
  assumes "wasi_read H n h = Some r"
  shows "\<exists>k h'. waited H n k h = Some h' \<and> read_answer n (blocking_read H h' n) = Some r"
proof (rule wasi_read.raw_induct [where
      P = "\<lambda>H n h r. \<exists>k h'. waited H n k h = Some h' \<and> read_answer n (blocking_read H h' n) = Some r",
      OF _ assms])
  fix rd :: "'a wasi_io \<Rightarrow> nat \<Rightarrow> 'a \<Rightarrow> ((wasi_error + byte list) \<times> 'a) option" and H n h r
  assume IH: "\<And>H n h r. rd H n h = Some r \<Longrightarrow>
      \<exists>k h'. waited H n k h = Some h' \<and> read_answer n (blocking_read H h' n) = Some r"
    and body: "(case blocking_read H h n of
        (Ok bytes, h) \<Rightarrow>
          if bytes = [] then rd H n (await_readable H h)
          else (let m = min (length bytes) n in Some (Ok (take m bytes), h))
      | (Err StreamClosed, h) \<Rightarrow> Some (Ok [], h)
      | (Err (LastOperationFailed e), h) \<Rightarrow>
          Some (Err (WasiSmtpError (lit ''stream read failed: '' @ e)), h)) = Some r"
  show "\<exists>k h'. waited H n k h = Some h' \<and> read_answer n (blocking_read H h' n) = Some r"
  proof (cases "\<exists>h1. blocking_read H h n = (Ok [], h1)")
    case True
    then obtain h1 where b: "blocking_read H h n = (Ok [], h1)" by blast
    with body have "rd H n (await_readable H h1) = Some r" by simp
    from IH [OF this] obtain k h' where
      "waited H n k (await_readable H h1) = Some h'" "read_answer n (blocking_read H h' n) = Some r"
      by blast
    then show ?thesis using b by (intro exI [of _ "Suc k"] exI [of _ h']) simp
  next
    case False
    with body have "read_answer n (blocking_read H h n) = Some r"
      by (auto simp: read_answer_def take_min_length Let_def
            split: prod.splits sum.splits stream_error.splits if_splits)
    then show ?thesis by (intro exI [of _ 0] exI [of _ h]) simp
  qed
qed

lemma wasi_read_iff:
  "wasi_read H n h = Some r \<longleftrightarrow>
     (\<exists>k h'. waited H n k h = Some h' \<and> read_answer n (blocking_read H h' n) = Some r)"
  using wasi_read_Some wasi_read_waits wasi_read_answers by metis

lemma read_answer_fits: "read_answer n a = Some (Ok bs, h) \<Longrightarrow> length bs \<le> n"
  by (auto simp: read_answer_def split: prod.splits sum.splits stream_error.splits if_splits)

lemma wasi_read_fits: "wasi_read H n h = Some (Ok bs, h') \<Longrightarrow> length bs \<le> n"
  by (auto simp: wasi_read_iff dest: read_answer_fits)

subsection \<open>Writing\<close>

lemma concat_chunks: "0 < n \<Longrightarrow> concat (chunks n xs) = xs"
  by (induction n xs rule: chunks.induct) (subst chunks.simps, auto)

lemma chunks_sizes: "list_all (\<lambda>p. 0 < length p \<and> length p \<le> n) (chunks n xs)"
  by (induction n xs rule: chunks.induct) (subst chunks.simps, auto)

text \<open>The host after accepting these pieces one by one, if it accepts them all.\<close>

primrec pushed :: "'h wasi_io \<Rightarrow> byte list list \<Rightarrow> 'h \<Rightarrow> 'h option" where
  "pushed H [] h = Some h"
| "pushed H (p # ps) h =
     (case blocking_write_and_flush H h p of (Ok _, h) \<Rightarrow> pushed H ps h | (Err _, h) \<Rightarrow> None)"

lemma wasi_write_chunks_spec:
  "case wasi_write_chunks H cs h of
     (Ok _, h') \<Rightarrow> pushed H cs h = Some h'
   | (Err e, h') \<Rightarrow> \<exists>ps p rest h1 x. cs = ps @ p # rest \<and> pushed H ps h = Some h1 \<and>
       blocking_write_and_flush H h1 p = (Err x, h') \<and> e = wasi_write_error H x"
proof (induction H cs h rule: wasi_write_chunks.induct)
  case (2 H c cs h)
  obtain r h1 where w: "blocking_write_and_flush H h c = (r, h1)" by fastforce
  show ?case
  proof (cases r)
    case (Inl x)
    then show ?thesis
      by (simp add: w) (rule exI [of _ "[]"], simp add: w)
  next
    case (Inr u)
    have "\<exists>ps p rest h2 y. c # cs = ps @ p # rest \<and> pushed H ps h = Some h2 \<and>
        blocking_write_and_flush H h2 p = (Err y, h') \<and> e = wasi_write_error H y"
      if "cs = ps @ p # rest" "pushed H ps h1 = Some h2"
        "blocking_write_and_flush H h2 p = (Err y, h')" "e = wasi_write_error H y" for ps p rest h2 y h' e
      using that w Inr by (intro exI [of _ "c # ps"] exI [of _ p] exI [of _ rest] exI [of _ h2]) auto
    then show ?thesis
      using 2 [OF w [symmetric, unfolded Inr, THEN sym, symmetric]] w Inr
      by (auto split: prod.splits sum.splits)
  qed
qed simp

subsection \<open>Names\<close>

lemma wasi_resolve_nonempty: "wasi_resolve N host w = Some (Ok addrs, w') \<Longrightarrow> addrs \<noteq> []"
  by (auto simp: wasi_resolve_def some_addresses_def
      split: prod.splits sum.splits option.splits if_splits)


subsection \<open>Properties\<close>

text \<open>
  C31: \<open>read\<close> returns just if the host, after some number of empty reads, each followed by a wait,
  answers with bytes, an error or end of file; and \<open>Ok(0)\<close>, which the client takes for end of file,
  is returned for a non-empty buffer only if the host has reported the stream as closed.
\<close>

theorem wasi_read_ends:
  "(wasi_read H n h \<noteq> None \<longleftrightarrow>
      (\<exists>k h'. waited H n k h = Some h' \<and> fst (blocking_read H h' n) \<noteq> Ok [])) \<and>
   (wasi_read H (Suc m) h = Some (Ok [], h1) \<longleftrightarrow>
      (\<exists>k h'. waited H (Suc m) k h = Some h' \<and> blocking_read H h' (Suc m) = (Err StreamClosed, h1)))"
proof
  have "(\<exists>r. read_answer n a = Some r) \<longleftrightarrow> fst a \<noteq> Ok []" for a :: "(stream_error + byte list) \<times> 'a"
    by (cases a) (auto simp: read_answer_def split: sum.splits stream_error.splits)
  then show "wasi_read H n h \<noteq> None \<longleftrightarrow>
      (\<exists>k h'. waited H n k h = Some h' \<and> fst (blocking_read H h' n) \<noteq> Ok [])"
    using wasi_read_iff [of H n h] by (metis not_None_eq)
  have "read_answer (Suc m) a = Some (Ok [], h1) \<longleftrightarrow> a = (Err StreamClosed, h1)"
    for a :: "(stream_error + byte list) \<times> 'a"
    by (cases a) (auto simp: read_answer_def split: sum.splits stream_error.splits)
  then show "wasi_read H (Suc m) h = Some (Ok [], h1) \<longleftrightarrow>
      (\<exists>k h'. waited H (Suc m) k h = Some h' \<and> blocking_read H h' (Suc m) = (Err StreamClosed, h1))"
    by (simp add: wasi_read_iff)
qed

text \<open>
  C32: \<open>write_all\<close> hands the host the bytes of the buffer in order in pieces of one to 4096 bytes,
  the most the interface takes: all of them on success, and on failure those before the piece the
  host refused, after which nothing more is written.
\<close>

theorem wasi_write_exact:
  "case wasi_write_all H buf h of
     (Ok _, h') \<Rightarrow> \<exists>ps. concat ps = buf \<and> list_all (\<lambda>p. 0 < length p \<and> length p \<le> 4096) ps \<and>
       pushed H ps h = Some h'
   | (Err e, h') \<Rightarrow> \<exists>ps p rest h1 x. concat ps @ p @ rest = buf \<and>
       list_all (\<lambda>p. 0 < length p \<and> length p \<le> 4096) (ps @ [p]) \<and> pushed H ps h = Some h1 \<and>
       blocking_write_and_flush H h1 p = (Err x, h') \<and> e = wasi_write_error H x"
proof -
  let ?cs = "chunks MAX_BLOCKING_WRITE buf"
  have c: "concat ?cs = buf" by (rule concat_chunks) (simp add: MAX_BLOCKING_WRITE_def)
  have sz: "list_all (\<lambda>p. 0 < length p \<and> length p \<le> 4096) ?cs"
    using chunks_sizes [of MAX_BLOCKING_WRITE buf] by (simp add: MAX_BLOCKING_WRITE_def)
  obtain r h' where w: "wasi_write_chunks H ?cs h = (r, h')" by fastforce
  show ?thesis
  proof (cases r)
    case (Inl e)
    then obtain ps p rest h1 x where "?cs = ps @ p # rest" "pushed H ps h = Some h1"
      "blocking_write_and_flush H h1 p = (Err x, h')" "e = wasi_write_error H x"
      using wasi_write_chunks_spec [where H = H and cs = ?cs and h = h] w by auto
    moreover from this(1) c sz have "concat ps @ p @ concat rest = buf"
      "list_all (\<lambda>p. 0 < length p \<and> length p \<le> 4096) (ps @ [p])" by (metis concat.simps(2) concat_append, simp)
    ultimately show ?thesis using w Inl by (auto simp: wasi_write_all_def)
  next
    case (Inr u)
    then show ?thesis
      using wasi_write_chunks_spec [where H = H and cs = ?cs and h = h] w c sz by (auto simp: wasi_write_all_def)
  qed
qed

end
