(* ===== verification/Encrypted_Client.thy ===== *)
theory Encrypted_Client
  imports Client_Session
begin

text \<open>
  What a transport that can be upgraded to TLS owes a client, and what the client makes of it: once
  STARTTLS has succeeded, the session never uses the unencrypted connection again.  The adapters
  interpret the interface on their transports.
\<close>

locale encrypting_transport =
  fixes ops :: "'t transport_ops"
    and secure :: "'t \<Rightarrow> bool"
  assumes upgrade_secures: "t_upgrade_to_tls ops t = (Ok u, t') \<Longrightarrow> secure t'"
    and upgrade_secure: "t_upgrade_to_tls ops t = (r, t') \<Longrightarrow> secure t \<Longrightarrow> secure t'"
    and read_secure: "t_read ops t n = (q, t') \<Longrightarrow> secure t \<Longrightarrow> secure t'"
    and write_secure: "t_write_all ops t bs = (r, t') \<Longrightarrow> secure t \<Longrightarrow> secure t'"
    and flush_secure: "t_flush ops t = (r, t') \<Longrightarrow> secure t \<Longrightarrow> secure t'"
    and close_secure: "t_close ops t = (r, t') \<Longrightarrow> secure t \<Longrightarrow> secure t'"

locale encrypted_client = encrypting_transport "e_ops env" secure
  for env :: "'t env" and secure :: "'t \<Rightarrow> bool"

sublocale encrypted_client < stays: client_relation env
  "\<lambda>c d. secure (transport c) \<longrightarrow> secure (transport d)"
  by unfold_locales
     (auto simp: on_event_def compact_rx_def store_capabilities_def
        dest: read_secure write_secure flush_secure close_secure upgrade_secure)

context encrypted_client
begin

lemma starttls_secures:
  assumes "starttls env c = (Ok u, d)"
  shows "secure (transport d)"
proof -
  obtain e t where up: "t_upgrade_to_tls (e_ops env) (transport e) = (Ok (), t)"
    and ehlo: "send_ehlo env (ehlo_domain c) (upgraded e t) = (Ok (), d)"
    using starttls_spec [of env c] assms by auto
  have "secure t" by (rule upgrade_secures [OF up])
  then have "secure (transport (upgraded e t))" by (simp add: upgraded_def on_event_def)
  then show ?thesis using stays.R_send_ehlo [of "upgraded e t" "ehlo_domain c"] ehlo by simp
qed

lemma connect_starttls_secures:
  assumes "connect_starttls env t dm = (Ok u, d)"
  shows "secure (transport d)"
  using assms starttls_secures by (auto simp: connect_starttls_def and_then_Ok_iff)

lemma reachable_secure:
  "reachable rc env c d \<Longrightarrow> secure (transport c) \<Longrightarrow> secure (transport d)"
  using stays.R_reachable by blast

lemma quit_secure: "secure (transport c) \<Longrightarrow> secure (transport (snd (quit env c)))"
  using stays.R_quit by blast

end

end
