(* ===== verification/Wasi_Transport.thy ===== *)
theory Wasi_Transport
  imports Wasi_Stream Encrypted_Client
begin

text \<open>
  The WASI adapter (\<open>wasm-smtp-wasi/src/wasi_impl/transport.rs\<close> and the connect helpers of its
  \<open>lib.rs\<close>): a transport that is a plain stream, a TLS session over one, or nothing any more.

  The TLS session is rustls's: a parameter that drives the stream below it through the \<open>Read\<close> and
  \<open>Write\<close> of \<open>WasiStreamIo\<close>.  A read that would wait forever has no outcome; the transport is then
  unspecified, and its theorems hold whatever that would be.
\<close>

subsection \<open>The stream below TLS\<close>

record 'h std_io =
  io_read :: "'h \<Rightarrow> nat \<Rightarrow> (std_error + byte list) \<times> 'h"
  io_write :: "'h \<Rightarrow> byte list \<Rightarrow> (std_error + nat) \<times> 'h"
  io_flush :: "'h \<Rightarrow> (std_error + unit) \<times> 'h"

text \<open>\<open>io::Error::other\<close>.\<close>

definition io_other :: "wasi_error \<Rightarrow> std_error" where
  "io_other e = StdIoError (OtherKind 0) (wasi_message e) None"

text \<open>The outcome of a read that returns.\<close>

definition wasi_read_outcome :: "'h wasi_io \<Rightarrow> nat \<Rightarrow> 'h \<Rightarrow> (wasi_error + byte list) \<times> 'h" where
  "wasi_read_outcome H n h = the (wasi_read H n h)"

definition wasi_stream_io :: "'h wasi_io \<Rightarrow> 'h std_io" where
  "wasi_stream_io H =
     \<lparr>io_read = (\<lambda>h n. map_prod (map_err io_other) id (wasi_read_outcome H n h)),
      io_write = (\<lambda>h buf. map_prod (map_sum io_other (\<lambda>_. length buf)) id (wasi_write_all H buf h)),
      io_flush = (\<lambda>h. map_prod (map_err io_other) id (wasi_flush h))\<rparr>"

text \<open>rustls: a connection \<open>'conn\<close>, and \<open>StreamOwned\<close> as the pair of it and its stream.\<close>

record ('conn, 'h, 'config, 'name) rustls =
  new_connection :: "'config \<Rightarrow> 'name \<Rightarrow> str + 'conn"
  tls_read :: "'h std_io \<Rightarrow> 'conn \<times> 'h \<Rightarrow> nat \<Rightarrow> (std_error + byte list) \<times> ('conn \<times> 'h)"
  tls_write_all :: "'h std_io \<Rightarrow> 'conn \<times> 'h \<Rightarrow> byte list \<Rightarrow> (std_error + unit) \<times> ('conn \<times> 'h)"
  tls_flush :: "'h std_io \<Rightarrow> 'conn \<times> 'h \<Rightarrow> (std_error + unit) \<times> ('conn \<times> 'h)"
  send_close_notify :: "'conn \<Rightarrow> 'conn"
  write_tls :: "'conn \<Rightarrow> byte list \<times> 'conn"

subsection \<open>The transport\<close>

datatype ('conn, 'h) wasi_inner = Plain 'h | Tls "'conn \<times> 'h" | NoStream

record ('conn, 'h, 'config, 'name) wasi_transport =
  wt_inner :: "('conn, 'h) wasi_inner"
  wt_sni :: 'name
  wt_tls_config :: "'config option"

definition CLOSED :: str where "CLOSED = lit ''transport is closed''"

type_synonym ('conn, 'h, 'config, 'name) wasi_op =
  "('conn, 'h, 'config, 'name) rustls \<Rightarrow> 'h wasi_io \<Rightarrow> ('conn, 'h, 'config, 'name) wasi_transport \<Rightarrow>
   (io_error + unit) \<times> ('conn, 'h, 'config, 'name) wasi_transport"

definition wasi_transport_read ::
    "('conn, 'h, 'config, 'name) rustls \<Rightarrow> 'h wasi_io \<Rightarrow> ('conn, 'h, 'config, 'name) wasi_transport \<Rightarrow>
     nat \<Rightarrow> (io_error + byte list) \<times> ('conn, 'h, 'config, 'name) wasi_transport" where
  "wasi_transport_read T H t buf_len =
     (case wt_inner t of
        Plain h \<Rightarrow>
          (let (r, h) = wasi_read_outcome H buf_len h
           in (map_err io_error_of_wasi r, t\<lparr>wt_inner := Plain h\<rparr>))
      | Tls s \<Rightarrow>
          (let (r, s) = tls_read T (wasi_stream_io H) s buf_len
           in (map_err (with_source (lit ''TLS read failed'')) r, t\<lparr>wt_inner := Tls s\<rparr>))
      | NoStream \<Rightarrow> (Err (io_error_new CLOSED), t))"

definition wasi_transport_write_all :: "byte list \<Rightarrow> ('conn, 'h, 'config, 'name) wasi_op" where
  "wasi_transport_write_all buf T H t =
     (case wt_inner t of
        Plain h \<Rightarrow>
          (let (r, h) = wasi_write_all H buf h
           in (map_err io_error_of_wasi r, t\<lparr>wt_inner := Plain h\<rparr>))
      | Tls s \<Rightarrow>
          (let (r, s) = tls_write_all T (wasi_stream_io H) s buf
           in (map_err (with_source (lit ''TLS write failed'')) r, t\<lparr>wt_inner := Tls s\<rparr>))
      | NoStream \<Rightarrow> (Err (io_error_new CLOSED), t))"

definition wasi_transport_flush :: "('conn, 'h, 'config, 'name) wasi_op" where
  "wasi_transport_flush T H t =
     (case wt_inner t of
        Plain h \<Rightarrow>
          (let (r, h) = wasi_flush h in (map_err io_error_of_wasi r, t\<lparr>wt_inner := Plain h\<rparr>))
      | Tls s \<Rightarrow>
          (let (r, s) = tls_flush T (wasi_stream_io H) s
           in (map_err (with_source (lit ''TLS flush failed'')) r, t\<lparr>wt_inner := Tls s\<rparr>))
      | NoStream \<Rightarrow> (Err (io_error_new CLOSED), t))"

definition wasi_transport_close :: "('conn, 'h, 'config, 'name) wasi_op" where
  "wasi_transport_close T H t =
     (let closed = t\<lparr>wt_inner := NoStream\<rparr>
      in case wt_inner t of
           Plain h \<Rightarrow> (map_err io_error_of_wasi (fst (wasi_close H h)), closed)
         | Tls s \<Rightarrow>
             (let (conn, h) = snd (tls_flush T (wasi_stream_io H) s);
                  (buf, conn) = write_tls T (send_close_notify T conn);
                  h = snd (wasi_write_all H buf h)
              in (map_err io_error_of_wasi (fst (wasi_close H h)), closed))
         | NoStream \<Rightarrow> (Ok (), closed))"

text \<open>On failure the stream has been used up and nothing is left of it.\<close>

definition tls_handshake ::
    "('conn, 'h, 'config, 'name) rustls \<Rightarrow> 'h wasi_io \<Rightarrow> 'h \<Rightarrow> 'name \<Rightarrow> 'config \<Rightarrow>
     wasi_error + ('conn \<times> 'h)" where
  "tls_handshake T H stream sni config =
     (case new_connection T config sni of
        Err e \<Rightarrow> Err (WasiSmtpError (lit ''TLS ClientConnection::new failed: '' @ e))
      | Ok conn \<Rightarrow>
          (case tls_flush T (wasi_stream_io H) (conn, stream) of
             (Err e, s) \<Rightarrow> Err (WasiSmtpError (lit ''TLS handshake failed: '' @ std_error_text e))
           | (Ok _, s) \<Rightarrow> Ok s))"

definition wasi_upgrade_to_tls :: "('conn, 'h, 'config, 'name) wasi_op" where
  "wasi_upgrade_to_tls T H t =
     (case wt_tls_config t of
        None \<Rightarrow> (Err (io_error_new (lit ''upgrade_to_tls called on an already-TLS transport'')), t)
      | Some tls_config \<Rightarrow>
          let t = t\<lparr>wt_tls_config := None\<rparr>
          in case wt_inner t of
               Plain plain \<Rightarrow>
                 let t = t\<lparr>wt_inner := NoStream\<rparr>
                 in (case tls_handshake T H plain (wt_sni t) tls_config of
                       Err e \<Rightarrow>
                         (Err (with_source (lit ''STARTTLS handshake failed'')
                            (OtherError (wasi_message e) None)), t)
                     | Ok s \<Rightarrow> (Ok (), t\<lparr>wt_inner := Tls s\<rparr>))
             | Tls s \<Rightarrow>
                 (Err (io_error_new
                    (lit ''upgrade_to_tls called on a transport that is already TLS'')), t)
             | NoStream \<Rightarrow> (Err (io_error_new CLOSED), t\<lparr>wt_inner := NoStream\<rparr>))"

definition wasi_ops ::
    "('conn, 'h, 'config, 'name) rustls \<Rightarrow> 'h wasi_io \<Rightarrow>
     ('conn, 'h, 'config, 'name) wasi_transport transport_ops" where
  "wasi_ops T H =
     \<lparr>t_read = wasi_transport_read T H,
      t_write_all = (\<lambda>t buf. wasi_transport_write_all buf T H t),
      t_flush = wasi_transport_flush T H,
      t_close = wasi_transport_close T H,
      t_upgrade_to_tls = wasi_upgrade_to_tls T H\<rparr>"

subsection \<open>Connecting\<close>

fun try_addresses ::
    "('w, 'q, 's, 'h) wasi_net \<Rightarrow> u16 \<Rightarrow> wasi_error \<Rightarrow> ip_address list \<Rightarrow> 'w \<Rightarrow>
     (wasi_error + 'h) \<times> 'w" where
  "try_addresses N port last_err [] w = (Err last_err, w)"
| "try_addresses N port last_err (addr # addrs) w =
     (case wasi_connect N addr port w of
        (Ok s, w) \<Rightarrow> (Ok s, w)
      | (Err e, w) \<Rightarrow> try_addresses N port e addrs w)"

definition tcp_connect ::
    "('w, 'q, 's, 'h) wasi_net \<Rightarrow> str \<Rightarrow> u16 \<Rightarrow> 'w \<Rightarrow> ((wasi_error + 'h) \<times> 'w) option" where
  "tcp_connect N host port w =
     (case wasi_resolve N host w of
        None \<Rightarrow> None
      | Some (Err e, w) \<Rightarrow> Some (Err e, w)
      | Some (Ok addrs, w) \<Rightarrow>
          Some (try_addresses N port
            (WasiSmtpError (lit ''no addresses resolved for '' @ [39] @ host @ [39])) addrs w))"

text \<open>What does not change while the program runs: the libraries, the host and the build.\<close>

record ('der, 'store, 'anchor, 'config, 'name, 'conn, 'h, 'w, 'q, 's) wasi_world =
  ww_lib :: "('der, 'store, 'anchor, 'config, 'name) tls_lib"
  ww_roots :: root_features
  ww_tls :: "('conn, 'h, 'config, 'name) rustls"
  ww_io :: "'h wasi_io"
  ww_net :: "('w, 'q, 's, 'h) wasi_net"
  ww_features :: features
  ww_crypto :: crypto
  ww_entropy :: "byte list option"

text \<open>The environment of a client over this transport; \<open>usize\<close> has 32 bits on \<open>wasm32\<close>.\<close>

definition wasi_env ::
    "('der, 'store, 'anchor, 'config, 'name, 'conn, 'h, 'w, 'q, 's) wasi_world \<Rightarrow>
     ('conn, 'h, 'config, 'name) wasi_transport env" where
  "wasi_env W =
     \<lparr>e_ops = wasi_ops (ww_tls W) (ww_io W), e_features = ww_features W, e_crypto = ww_crypto W,
      e_entropy = ww_entropy W, e_usize_max = 4294967295\<rparr>"

text \<open>The name and the configuration for the TLS of a connection.\<close>

definition tls_target ::
    "('der, 'store, 'anchor, 'config, 'name, 'conn, 'h, 'w, 'q, 's) wasi_world \<Rightarrow> str \<Rightarrow>
     'store connect_options \<Rightarrow> wasi_error + ('name \<times> 'config)" where
  "tls_target W host opts =
     (case wasi_server_name (ww_lib W)
             (case co_server_name opts of Some n \<Rightarrow> n | None \<Rightarrow> host) of
        Err e \<Rightarrow> Err e
      | Ok sni \<Rightarrow>
          (case make_tls_config (ww_lib W) (ww_roots W) opts of
             Err e \<Rightarrow> Err e
           | Ok tls_config \<Rightarrow> Ok (sni, tls_config)))"

definition connect_implicit_tls ::
    "('der, 'store, 'anchor, 'config, 'name, 'conn, 'h, 'w, 'q, 's) wasi_world \<Rightarrow> str \<Rightarrow> u16 \<Rightarrow>
     'store connect_options \<Rightarrow> 'w \<Rightarrow>
     ((wasi_error + ('conn, 'h, 'config, 'name) wasi_transport) \<times> 'w) option" where
  "connect_implicit_tls W host port opts w =
     (case tcp_connect (ww_net W) host port w of
        None \<Rightarrow> None
      | Some (Err e, w) \<Rightarrow> Some (Err e, w)
      | Some (Ok stream, w) \<Rightarrow>
          Some (case tls_target W host opts of
             Err e \<Rightarrow> Err e
           | Ok (sni, tls_config) \<Rightarrow>
               (case tls_handshake (ww_tls W) (ww_io W) stream sni tls_config of
                  Err e \<Rightarrow> Err e
                | Ok s \<Rightarrow> Ok \<lparr>wt_inner = Tls s, wt_sni = sni, wt_tls_config = None\<rparr>), w))"

definition connect_plain ::
    "('der, 'store, 'anchor, 'config, 'name, 'conn, 'h, 'w, 'q, 's) wasi_world \<Rightarrow> str \<Rightarrow> u16 \<Rightarrow>
     'store connect_options \<Rightarrow> 'w \<Rightarrow>
     ((wasi_error + ('conn, 'h, 'config, 'name) wasi_transport) \<times> 'w) option" where
  "connect_plain W host port opts w =
     (case tcp_connect (ww_net W) host port w of
        None \<Rightarrow> None
      | Some (Err e, w) \<Rightarrow> Some (Err e, w)
      | Some (Ok stream, w) \<Rightarrow>
          Some (case tls_target W host opts of
             Err e \<Rightarrow> Err e
           | Ok (sni, tls_config) \<Rightarrow>
               Ok \<lparr>wt_inner = Plain stream, wt_sni = sni, wt_tls_config = Some tls_config\<rparr>, w))"

text \<open>A client that failed to connect is dropped.\<close>

definition connected :: "(smtp_error + unit) \<times> 't client \<Rightarrow> smtp_error + 't client" where
  "connected p = (case p of (Err e, c) \<Rightarrow> Err e | (Ok _, c) \<Rightarrow> Ok c)"

definition connect_smtps_with ::
    "('der, 'store, 'anchor, 'config, 'name, 'conn, 'h, 'w, 'q, 's) wasi_world \<Rightarrow> str \<Rightarrow> u16 \<Rightarrow> str \<Rightarrow>
     'store connect_options \<Rightarrow> 'w \<Rightarrow>
     ((smtp_error + ('conn, 'h, 'config, 'name) wasi_transport client) \<times> 'w) option" where
  "connect_smtps_with W host port dm options w =
     (case connect_implicit_tls W host port options w of
        None \<Rightarrow> None
      | Some (Err e, w) \<Rightarrow> Some (Err (Io (io_error_of_wasi e)), w)
      | Some (Ok t, w) \<Rightarrow> Some (connected (connect (wasi_env W) t dm), w))"

definition connect_smtp_starttls_with ::
    "('der, 'store, 'anchor, 'config, 'name, 'conn, 'h, 'w, 'q, 's) wasi_world \<Rightarrow> str \<Rightarrow> u16 \<Rightarrow> str \<Rightarrow>
     'store connect_options \<Rightarrow> 'w \<Rightarrow>
     ((smtp_error + ('conn, 'h, 'config, 'name) wasi_transport client) \<times> 'w) option" where
  "connect_smtp_starttls_with W host port dm options w =
     (case connect_plain W host port options w of
        None \<Rightarrow> None
      | Some (Err e, w) \<Rightarrow> Some (Err (Io (io_error_of_wasi e)), w)
      | Some (Ok t, w) \<Rightarrow> Some (connected (connect_starttls (wasi_env W) t dm), w))"

definition connect_smtps ::
    "('der, 'store, 'anchor, 'config, 'name, 'conn, 'h, 'w, 'q, 's) wasi_world \<Rightarrow> str \<Rightarrow> u16 \<Rightarrow> str \<Rightarrow>
     'w \<Rightarrow> ((smtp_error + ('conn, 'h, 'config, 'name) wasi_transport client) \<times> 'w) option" where
  "connect_smtps W host port dm w =
     (case connect_implicit_tls W host port connect_options_default w of
        None \<Rightarrow> None
      | Some (Err e, w) \<Rightarrow> Some (Err (Io (io_error_of_wasi e)), w)
      | Some (Ok t, w) \<Rightarrow> Some (connected (connect (wasi_env W) t dm), w))"

definition connect_smtp_starttls ::
    "('der, 'store, 'anchor, 'config, 'name, 'conn, 'h, 'w, 'q, 's) wasi_world \<Rightarrow> str \<Rightarrow> u16 \<Rightarrow> str \<Rightarrow>
     'w \<Rightarrow> ((smtp_error + ('conn, 'h, 'config, 'name) wasi_transport client) \<times> 'w) option" where
  "connect_smtp_starttls W host port dm w =
     connect_smtp_starttls_with W host port dm connect_options_default w"


subsection \<open>No way back to plain text\<close>

definition wasi_secure :: "('conn, 'h, 'config, 'name) wasi_transport \<Rightarrow> bool" where
  "wasi_secure t = (case wt_inner t of Plain _ \<Rightarrow> False | Tls _ \<Rightarrow> True | NoStream \<Rightarrow> True)"

lemma wasi_secure_iff: "wasi_secure t \<longleftrightarrow> (\<nexists>h. wt_inner t = Plain h)"
  by (simp add: wasi_secure_def split: wasi_inner.split)

lemma wasi_env_simps [simp]:
  "t_read (e_ops (wasi_env W)) = wasi_transport_read (ww_tls W) (ww_io W)"
  "t_write_all (e_ops (wasi_env W)) t buf = wasi_transport_write_all buf (ww_tls W) (ww_io W) t"
  "t_flush (e_ops (wasi_env W)) = wasi_transport_flush (ww_tls W) (ww_io W)"
  "t_close (e_ops (wasi_env W)) = wasi_transport_close (ww_tls W) (ww_io W)"
  "t_upgrade_to_tls (e_ops (wasi_env W)) = wasi_upgrade_to_tls (ww_tls W) (ww_io W)"
  by (simp_all add: wasi_env_def wasi_ops_def)

lemma wasi_upgrade_spec:
  "case wasi_upgrade_to_tls T H t of
     (Ok _, t') \<Rightarrow> \<exists>h config s. wt_inner t = Plain h \<and> wt_tls_config t = Some config \<and>
       tls_handshake T H h (wt_sni t) config = Ok s \<and>
       t' = t\<lparr>wt_inner := Tls s, wt_tls_config := None\<rparr>
   | (Err e, t') \<Rightarrow> wt_tls_config t' = None \<and> wt_sni t' = wt_sni t \<and>
       (wt_inner t' = NoStream \<or> wt_inner t' = wt_inner t \<and>
          (wt_tls_config t = None \<or> (\<exists>s. wt_inner t = Tls s)))"
  by (auto simp: wasi_upgrade_to_tls_def Let_def split: option.splits wasi_inner.splits sum.splits)

interpretation wasi_encrypts: encrypted_client "wasi_env W" wasi_secure for W
proof
  show "wasi_secure t'" if "t_upgrade_to_tls (e_ops (wasi_env W)) t = (Ok u, t')" for t u t'
    using that wasi_upgrade_spec [where T = "ww_tls W" and H = "ww_io W" and t = t] by (auto simp: wasi_secure_def)
  show "wasi_secure t'" if "t_upgrade_to_tls (e_ops (wasi_env W)) t = (r, t')" "wasi_secure t" for t t' r
    using that wasi_upgrade_spec [where T = "ww_tls W" and H = "ww_io W" and t = t]
    by (cases r) (auto simp: wasi_secure_iff)
  show "wasi_secure t'" if "t_read (e_ops (wasi_env W)) t n = (q, t')" "wasi_secure t" for t t' n q
    using that by (auto simp: wasi_transport_read_def wasi_secure_def split: wasi_inner.splits prod.splits)
  show "wasi_secure t'" if "t_write_all (e_ops (wasi_env W)) t bs = (r, t')" "wasi_secure t" for t t' bs r
    using that by (auto simp: wasi_transport_write_all_def wasi_secure_def
        split: wasi_inner.splits prod.splits)
  show "wasi_secure t'" if "t_flush (e_ops (wasi_env W)) t = (r, t')" "wasi_secure t" for t t' r
    using that by (auto simp: wasi_transport_flush_def wasi_secure_def
        split: wasi_inner.splits prod.splits)
  show "wasi_secure t'" if "t_close (e_ops (wasi_env W)) t = (r, t')" "wasi_secure t" for t t' r
    using that by (auto simp: wasi_transport_close_def wasi_secure_def Let_def
        split: wasi_inner.splits prod.splits)
qed

subsection \<open>Addresses\<close>

text \<open>The world after connection attempts to these addresses, if each of them fails.\<close>

fun all_failed ::
    "('w, 'q, 's, 'h) wasi_net \<Rightarrow> u16 \<Rightarrow> ip_address list \<Rightarrow> 'w \<Rightarrow> 'w option" where
  "all_failed N port [] w = Some w"
| "all_failed N port (a # as) w =
     (case wasi_connect N a port w of (Ok _, w) \<Rightarrow> None | (Err _, w) \<Rightarrow> all_failed N port as w)"

lemma try_addresses_spec:
  "case try_addresses N port e0 addrs w of
     (Ok s, w') \<Rightarrow> \<exists>as a bs w1. addrs = as @ a # bs \<and> all_failed N port as w = Some w1 \<and>
       wasi_connect N a port w1 = (Ok s, w')
   | (Err e, w') \<Rightarrow> all_failed N port addrs w = Some w' \<and> (addrs = [] \<longrightarrow> e = e0) \<and>
       (\<forall>as a w1. addrs = as @ [a] \<longrightarrow> all_failed N port as w = Some w1 \<longrightarrow>
          wasi_connect N a port w1 = (Err e, w'))"
proof (induction N port e0 addrs w rule: try_addresses.induct)
  case (2 N port e0 a as w)
  obtain r w1 where c: "wasi_connect N a port w = (r, w1)" by fastforce
  show ?case
  proof (cases r)
    case (Inr s)
    then show ?thesis
      by (simp add: c) (rule exI [of _ "[]"], simp add: c)
  next
    case (Inl x)
    note IH = 2 [OF c [symmetric] Inl]
    obtain q w2 where t: "try_addresses N port x as w1 = (q, w2)" by fastforce
    show ?thesis
    proof (cases q)
      case (Inr s)
      then obtain bs b cs w3 where "as = bs @ b # cs" "all_failed N port bs w1 = Some w3"
        "wasi_connect N b port w3 = (Ok s, w2)" using IH t by auto
      then show ?thesis using c Inl t Inr
        by simp (rule exI [of _ "a # bs"], auto)
    next
      case q: (Inl e)
      have "wasi_connect N b port w3 = (Err e, w2)"
        if "a # as = bs @ [b]" "all_failed N port bs w = Some w3" for bs b w3
        using that IH t q c Inl by (cases bs) auto
      then show ?thesis using IH c Inl t q by auto
    qed
  qed
qed simp

subsection \<open>Properties\<close>

text \<open>
  A session over WASI on which STARTTLS has succeeded never touches the plain stream again: in
  every state it reaches through any sequence of operations, failing ones included, and after
  quitting, the transport is TLS or has no stream at all.
\<close>

theorem wasi_starttls_encrypted:
  "case connect_smtp_starttls_with W host port dm options w of
     Some (Ok c, _) \<Rightarrow> {d. reachable rc (wasi_env W) c d} \<subseteq>
       {d. wasi_secure (transport d) \<and> wasi_secure (transport (snd (quit (wasi_env W) d)))}
   | _ \<Rightarrow> True"
proof -
  have "wasi_secure (transport d) \<and> wasi_secure (transport (snd (quit (wasi_env W) d)))"
    if "connect_starttls (wasi_env W) t dm = (Ok u, c)" "reachable rc (wasi_env W) c d" for t u c d
  proof -
    have "wasi_secure (transport c)" by (rule wasi_encrypts.connect_starttls_secures [OF that(1)])
    then have "wasi_secure (transport d)" using wasi_encrypts.reachable_secure [OF that(2)] by blast
    then show ?thesis using wasi_encrypts.quit_secure by blast
  qed
  then show ?thesis
    by (auto simp: connect_smtp_starttls_with_def connected_def
          split: option.split sum.split prod.split)
qed

end
