(* ===== verification/Tokio_Transport.thy ===== *)
theory Tokio_Transport
  imports Tls_Options Encrypted_Client
begin

text \<open>
  The Tokio adapter (\<open>wasm-smtp-tokio/src/transport.rs\<close>): a plain transport that STARTTLS turns into
  a TLS one in place, and a transport that is TLS from the start.  TCP and TLS streams of the
  runtime are parameters; a call that is awaited is a call.  Dropping a future half-way is not
  modelled.
\<close>

record ('tcp, 'tls, 'config, 'name) tokio_net =
  tcp_connect_to :: "str \<Rightarrow> u16 \<Rightarrow> std_error + 'tcp"
  tcp_read :: "'tcp \<Rightarrow> nat \<Rightarrow> (std_error + byte list) \<times> 'tcp"
  tcp_write_all :: "'tcp \<Rightarrow> byte list \<Rightarrow> (std_error + unit) \<times> 'tcp"
  tcp_shutdown :: "'tcp \<Rightarrow> (std_error + unit) \<times> 'tcp"
  tls_connect :: "'config \<Rightarrow> 'name \<Rightarrow> 'tcp \<Rightarrow> std_error + 'tls"
  tls_stream_read :: "'tls \<Rightarrow> nat \<Rightarrow> (std_error + byte list) \<times> 'tls"
  tls_stream_write_all :: "'tls \<Rightarrow> byte list \<Rightarrow> (std_error + unit) \<times> 'tls"
  tls_stream_shutdown :: "'tls \<Rightarrow> (std_error + unit) \<times> 'tls"

subsection \<open>The transport for STARTTLS\<close>

record ('tcp, 'tls, 'store) tokio_plain =
  tp_plain :: "'tcp option"
  tp_tls :: "'tls option"
  tp_server_name :: str
  tp_opts :: "'store connect_options"

definition tokio_connect_with ::
    "('tcp, 'tls, 'config, 'name) tokio_net \<Rightarrow> str \<Rightarrow> u16 \<Rightarrow> str \<Rightarrow> 'store connect_options \<Rightarrow>
     io_error + ('tcp, 'tls, 'store) tokio_plain" where
  "tokio_connect_with N host port server_name opts =
     (case tcp_connect_to N host port of
        Err e \<Rightarrow> Err (map_io_err (lit ''TCP connect failed'') e)
      | Ok stream \<Rightarrow>
          Ok \<lparr>tp_plain = Some stream, tp_tls = None, tp_server_name = server_name, tp_opts = opts\<rparr>)"

definition tokio_connect ::
    "('tcp, 'tls, 'config, 'name) tokio_net \<Rightarrow> str \<Rightarrow> u16 \<Rightarrow> str \<Rightarrow>
     io_error + ('tcp, 'tls, 'store) tokio_plain" where
  "tokio_connect N host port server_name =
     tokio_connect_with N host port server_name tokio_options_new"

definition effective_server_name :: "('tcp, 'tls, 'store) tokio_plain \<Rightarrow> str" where
  "effective_server_name t =
     (case co_server_name (tp_opts t) of Some n \<Rightarrow> n | None \<Rightarrow> tp_server_name t)"

lemma effective_server_name_plain [simp]:
  "effective_server_name (t\<lparr>tp_plain := p\<rparr>) = effective_server_name t"
  by (simp add: effective_server_name_def split: option.split)

definition no_live_stream :: io_error where
  "no_live_stream = io_error_new (lit ''transport in invalid state: no live stream'')"

definition tokio_plain_read ::
    "('tcp, 'tls, 'config, 'name) tokio_net \<Rightarrow> ('tcp, 'tls, 'store) tokio_plain \<Rightarrow> nat \<Rightarrow>
     (io_error + byte list) \<times> ('tcp, 'tls, 'store) tokio_plain" where
  "tokio_plain_read N t buf_len =
     (case tp_tls t of
        Some s \<Rightarrow>
          (let (r, s) = tls_stream_read N s buf_len
           in (map_err (map_io_err (lit ''read failed'')) r, t\<lparr>tp_tls := Some s\<rparr>))
      | None \<Rightarrow>
          (case tp_plain t of
             Some s \<Rightarrow>
               (let (r, s) = tcp_read N s buf_len
                in (map_err (map_io_err (lit ''read failed'')) r, t\<lparr>tp_plain := Some s\<rparr>))
           | None \<Rightarrow> (Err no_live_stream, t)))"

definition tokio_plain_write_all ::
    "('tcp, 'tls, 'config, 'name) tokio_net \<Rightarrow> ('tcp, 'tls, 'store) tokio_plain \<Rightarrow> byte list \<Rightarrow>
     (io_error + unit) \<times> ('tcp, 'tls, 'store) tokio_plain" where
  "tokio_plain_write_all N t buf =
     (case tp_tls t of
        Some s \<Rightarrow>
          (let (r, s) = tls_stream_write_all N s buf
           in (map_err (map_io_err (lit ''write failed'')) r, t\<lparr>tp_tls := Some s\<rparr>))
      | None \<Rightarrow>
          (case tp_plain t of
             Some s \<Rightarrow>
               (let (r, s) = tcp_write_all N s buf
                in (map_err (map_io_err (lit ''write failed'')) r, t\<lparr>tp_plain := Some s\<rparr>))
           | None \<Rightarrow> (Err no_live_stream, t)))"

text \<open>\<open>close\<close> takes both streams out; what shutting them down returns, and their ends, are dropped.\<close>

definition tokio_plain_close ::
    "('tcp, 'tls, 'config, 'name) tokio_net \<Rightarrow> ('tcp, 'tls, 'store) tokio_plain \<Rightarrow>
     (io_error + unit) \<times> ('tcp, 'tls, 'store) tokio_plain" where
  "tokio_plain_close N t =
     (let _ = map_option (tls_stream_shutdown N) (tp_tls t);
          _ = map_option (tcp_shutdown N) (tp_plain t)
      in (Ok (), t\<lparr>tp_tls := None, tp_plain := None\<rparr>))"

definition invalid_sni :: io_error where
  "invalid_sni = io_error_new (lit ''invalid server name for SNI'')"

definition tokio_handshake ::
    "('der, 'store, 'anchor, 'config, 'name) tls_lib \<Rightarrow> root_features \<Rightarrow>
     ('tcp, 'tls, 'config, 'name) tokio_net \<Rightarrow> 'store connect_options \<Rightarrow> str \<Rightarrow> 'tcp \<Rightarrow> io_error + 'tls" where
  "tokio_handshake L F N opts sni tcp =
     (case build_client_config L F opts of
        Err e \<Rightarrow> Err e
      | Ok config \<Rightarrow>
          (case parse_server_name L sni of
             Err _ \<Rightarrow> Err invalid_sni
           | Ok server_name \<Rightarrow>
               map_err (map_io_err (lit ''TLS handshake failed'')) (tls_connect N config server_name tcp)))"

definition tokio_upgrade_to_tls ::
    "('der, 'store, 'anchor, 'config, 'name) tls_lib \<Rightarrow> root_features \<Rightarrow>
     ('tcp, 'tls, 'config, 'name) tokio_net \<Rightarrow> ('tcp, 'tls, 'store) tokio_plain \<Rightarrow>
     (io_error + unit) \<times> ('tcp, 'tls, 'store) tokio_plain" where
  "tokio_upgrade_to_tls L F N t =
     (case tp_plain t of
        None \<Rightarrow> (Err (io_error_new (lit ''upgrade_to_tls called twice or after close'')), t)
      | Some plain \<Rightarrow>
          let t = t\<lparr>tp_plain := None\<rparr>
          in case tokio_handshake L F N (tp_opts t) (effective_server_name t) plain of
               Err e \<Rightarrow> (Err e, t)
             | Ok s \<Rightarrow> (Ok (), t\<lparr>tp_tls := Some s\<rparr>))"

definition tokio_plain_ops ::
    "('der, 'store, 'anchor, 'config, 'name) tls_lib \<Rightarrow> root_features \<Rightarrow>
     ('tcp, 'tls, 'config, 'name) tokio_net \<Rightarrow> ('tcp, 'tls, 'store) tokio_plain transport_ops" where
  "tokio_plain_ops L F N =
     \<lparr>t_read = tokio_plain_read N, t_write_all = tokio_plain_write_all N, t_flush = default_flush,
      t_close = tokio_plain_close N, t_upgrade_to_tls = tokio_upgrade_to_tls L F N\<rparr>"

subsection \<open>The transport that is TLS from the start\<close>

record 'tls tokio_tls =
  tt_tls :: "'tls option"

definition tokio_tls_connect_with ::
    "('der, 'store, 'anchor, 'config, 'name) tls_lib \<Rightarrow> root_features \<Rightarrow>
     ('tcp, 'tls, 'config, 'name) tokio_net \<Rightarrow> str \<Rightarrow> u16 \<Rightarrow> 'store connect_options \<Rightarrow>
     io_error + 'tls tokio_tls" where
  "tokio_tls_connect_with L F N host port opts =
     (case tcp_connect_to N host port of
        Err e \<Rightarrow> Err (map_io_err (lit ''TCP connect failed'') e)
      | Ok tcp \<Rightarrow>
          (case tokio_handshake L F N opts
                  (case co_server_name opts of Some n \<Rightarrow> n | None \<Rightarrow> host) tcp of
             Err e \<Rightarrow> Err e
           | Ok s \<Rightarrow> Ok \<lparr>tt_tls = Some s\<rparr>))"

definition tokio_connect_implicit_tls ::
    "('der, 'store, 'anchor, 'config, 'name) tls_lib \<Rightarrow> root_features \<Rightarrow>
     ('tcp, 'tls, 'config, 'name) tokio_net \<Rightarrow> str \<Rightarrow> u16 \<Rightarrow> str \<Rightarrow> io_error + 'tls tokio_tls" where
  "tokio_connect_implicit_tls L F N host port server_name =
     tokio_tls_connect_with L F N host port (tokio_with_server_name server_name tokio_options_new)"

definition already_closed :: io_error where
  "already_closed = io_error_new (lit ''transport already closed'')"

definition tokio_tls_read ::
    "('tcp, 'tls, 'config, 'name) tokio_net \<Rightarrow> 'tls tokio_tls \<Rightarrow> nat \<Rightarrow>
     (io_error + byte list) \<times> 'tls tokio_tls" where
  "tokio_tls_read N t buf_len =
     (case tt_tls t of
        Some s \<Rightarrow>
          (let (r, s) = tls_stream_read N s buf_len
           in (map_err (map_io_err (lit ''read failed'')) r, t\<lparr>tt_tls := Some s\<rparr>))
      | None \<Rightarrow> (Err already_closed, t))"

definition tokio_tls_write_all ::
    "('tcp, 'tls, 'config, 'name) tokio_net \<Rightarrow> 'tls tokio_tls \<Rightarrow> byte list \<Rightarrow>
     (io_error + unit) \<times> 'tls tokio_tls" where
  "tokio_tls_write_all N t buf =
     (case tt_tls t of
        Some s \<Rightarrow>
          (let (r, s) = tls_stream_write_all N s buf
           in (map_err (map_io_err (lit ''write failed'')) r, t\<lparr>tt_tls := Some s\<rparr>))
      | None \<Rightarrow> (Err already_closed, t))"

definition tokio_tls_close ::
    "('tcp, 'tls, 'config, 'name) tokio_net \<Rightarrow> 'tls tokio_tls \<Rightarrow> (io_error + unit) \<times> 'tls tokio_tls" where
  "tokio_tls_close N t =
     (let _ = map_option (tls_stream_shutdown N) (tt_tls t) in (Ok (), t\<lparr>tt_tls := None\<rparr>))"

text \<open>The type cannot be upgraded, so no client over it has \<open>starttls\<close>: \<open>up\<close> is of no effect.\<close>

definition tokio_tls_ops ::
    "('tcp, 'tls, 'config, 'name) tokio_net \<Rightarrow> ('tls tokio_tls \<Rightarrow> (io_error + unit) \<times> 'tls tokio_tls) \<Rightarrow>
     'tls tokio_tls transport_ops" where
  "tokio_tls_ops N up =
     \<lparr>t_read = tokio_tls_read N, t_write_all = tokio_tls_write_all N, t_flush = default_flush,
      t_close = tokio_tls_close N, t_upgrade_to_tls = up\<rparr>"

subsection \<open>A client over it\<close>

record ('der, 'store, 'anchor, 'config, 'name, 'tcp, 'tls) tokio_world =
  tw_lib :: "('der, 'store, 'anchor, 'config, 'name) tls_lib"
  tw_roots :: root_features
  tw_net :: "('tcp, 'tls, 'config, 'name) tokio_net"
  tw_features :: features
  tw_crypto :: crypto
  tw_entropy :: "byte list option"
  tw_usize_max :: nat

definition tokio_env ::
    "('der, 'store, 'anchor, 'config, 'name, 'tcp, 'tls) tokio_world \<Rightarrow>
     ('tcp, 'tls, 'store) tokio_plain env" where
  "tokio_env W =
     \<lparr>e_ops = tokio_plain_ops (tw_lib W) (tw_roots W) (tw_net W), e_features = tw_features W,
      e_crypto = tw_crypto W, e_entropy = tw_entropy W, e_usize_max = tw_usize_max W\<rparr>"

definition tokio_secure :: "('tcp, 'tls, 'store) tokio_plain \<Rightarrow> bool" where
  "tokio_secure t \<longleftrightarrow> tp_plain t = None"

lemma tokio_env_simps [simp]:
  "t_read (e_ops (tokio_env W)) = tokio_plain_read (tw_net W)"
  "t_write_all (e_ops (tokio_env W)) = tokio_plain_write_all (tw_net W)"
  "t_flush (e_ops (tokio_env W)) = default_flush"
  "t_close (e_ops (tokio_env W)) = tokio_plain_close (tw_net W)"
  "t_upgrade_to_tls (e_ops (tokio_env W)) = tokio_upgrade_to_tls (tw_lib W) (tw_roots W) (tw_net W)"
  by (simp_all add: tokio_env_def tokio_plain_ops_def)

interpretation tokio_encrypts: encrypted_client "tokio_env W" tokio_secure for W
  by unfold_locales
     (auto simp: tokio_secure_def tokio_plain_read_def tokio_plain_write_all_def default_flush_def
        tokio_plain_close_def tokio_upgrade_to_tls_def Let_def
        split: option.splits prod.splits sum.splits)

subsection \<open>Properties\<close>

text \<open>
  A session over Tokio on which STARTTLS has succeeded never touches the TCP stream again, in
  every state it reaches through any sequence of operations and after quitting.
\<close>

theorem tokio_starttls_encrypted:
  "case connect_starttls (tokio_env W) t dm of
     (Ok _, c) \<Rightarrow> {d. reachable rc (tokio_env W) c d} \<subseteq>
       {d. tp_plain (transport d) = None \<and> tp_plain (transport (snd (quit (tokio_env W) d))) = None}
   | (Err _, c) \<Rightarrow> True"
proof -
  have "tokio_secure (transport d) \<and> tokio_secure (transport (snd (quit (tokio_env W) d)))"
    if "connect_starttls (tokio_env W) t dm = (Ok u, c)" "reachable rc (tokio_env W) c d" for u c d
  proof -
    have "tokio_secure (transport c)" by (rule tokio_encrypts.connect_starttls_secures [OF that(1)])
    then have "tokio_secure (transport d)" using tokio_encrypts.reachable_secure [OF that(2)] by blast
    then show ?thesis using tokio_encrypts.quit_secure by blast
  qed
  note enc = this [unfolded tokio_secure_def]
  show ?thesis
  proof (cases "connect_starttls (tokio_env W) t dm")
    case (Pair r c)
    then show ?thesis using enc [of _ c] by (cases r) (simp_all, blast)
  qed
qed

text \<open>
  C33: an upgrade either ends in TLS over the stream that was plain, for the configured name and
  trust, or leaves the transport with no plain stream; without a TLS stream it then refuses to read
  and to write, with an error and no effect, and cannot be upgraded again.
\<close>

theorem tokio_failed_upgrade_dead:
  assumes "tokio_upgrade_to_tls L F N t = (r, t')" and "tp_tls t = None"
  shows "case r of
     Ok _ \<Rightarrow> \<exists>tcp s. tp_plain t = Some tcp \<and> t' = t\<lparr>tp_plain := None, tp_tls := Some s\<rparr> \<and>
       tokio_handshake L F N (tp_opts t) (effective_server_name t) tcp = Ok s
   | Err _ \<Rightarrow> t' = t\<lparr>tp_plain := None\<rparr> \<and> tokio_plain_read N t' n = (Err no_live_stream, t') \<and>
       tokio_plain_write_all N t' b = (Err no_live_stream, t') \<and>
       (\<exists>e. tokio_upgrade_to_tls L F N t' = (Err e, t'))"
proof (cases "tp_plain t")
  case None
  then have "t\<lparr>tp_plain := None\<rparr> = t" by (cases t) simp
  then show ?thesis
    using assms None
    by (auto simp: tokio_upgrade_to_tls_def tokio_plain_read_def tokio_plain_write_all_def)
next
  case (Some tcp)
  then show ?thesis
  proof (cases "tokio_handshake L F N (tp_opts t) (effective_server_name t) tcp")
    case (Inl e)
    then have "r = Err e" "t' = t\<lparr>tp_plain := None\<rparr>"
      using assms(1) Some by (simp_all add: tokio_upgrade_to_tls_def Let_def)
    then show ?thesis
      using assms(2)
      by (simp add: tokio_upgrade_to_tls_def tokio_plain_read_def tokio_plain_write_all_def)
  next
    case (Inr s)
    then have "r = Ok ()" "t' = t\<lparr>tp_plain := None, tp_tls := Some s\<rparr>"
      using assms(1) Some by (simp_all add: tokio_upgrade_to_tls_def Let_def)
    then show ?thesis using Some Inr by simp
  qed
qed

definition refusing_net :: "(unit, unit, byte list list, str) tokio_net" where
  "refusing_net =
     \<lparr>tcp_connect_to = (\<lambda>_ _. Ok ()), tcp_read = (\<lambda>s _. (Ok [], s)), tcp_write_all = (\<lambda>s _. (Ok (), s)),
      tcp_shutdown = Pair (Ok ()), tls_connect = (\<lambda>_ _ _. Err (OtherError (lit ''no'') None)),
      tls_stream_read = (\<lambda>s _. (Ok [], s)), tls_stream_write_all = (\<lambda>s _. (Ok (), s)),
      tls_stream_shutdown = Pair (Ok ())\<rparr>"


theorem tokio_failed_upgrade_dead_witness:
  "\<exists>t t' e. tokio_connect refusing_net (lit ''mx'') 587 (lit ''mx'') = Ok t \<and>
     tokio_upgrade_to_tls lax_lib bundled_build refusing_net t = (Err e, t') \<and>
     tokio_plain_write_all refusing_net t' (lit ''AUTH'') = (Err no_live_stream, t')"
proof -
  let ?t = "\<lparr>tp_plain = Some (), tp_tls = None, tp_server_name = lit ''mx'',
     tp_opts = tokio_options_new\<rparr> :: (unit, unit, byte list list) tokio_plain"
  have t: "tokio_connect refusing_net (lit ''mx'') 587 (lit ''mx'') = Ok ?t"
    by (simp add: tokio_connect_def tokio_connect_with_def refusing_net_def)
  obtain e t' where u: "tokio_upgrade_to_tls lax_lib bundled_build refusing_net ?t = (Err e, t')"
    by (auto simp: tokio_upgrade_to_tls_def tokio_handshake_def build_client_config_def
        tokio_default_root_store_def tokio_options_new_def connect_options_default_def
        lax_lib_def lax_pki_def pki.defs bundled_build_def refusing_net_def Let_def
        effective_server_name_def)
  from tokio_failed_upgrade_dead [OF u] show ?thesis using t u by auto
qed

end
