(* ===== verification/Cloudflare_Transport.thy ===== *)
theory Cloudflare_Transport
  imports Encrypted_Client
begin

text \<open>
  The Cloudflare Workers adapter (\<open>wasm-smtp-cloudflare/src/adapter.rs\<close>, \<open>socket.rs\<close> and
  \<open>integration.rs\<close>).  The runtime's socket is a parameter: connecting in one of two modes, waiting
  until it is open, reading and writing, closing, and \<open>start_tls\<close>, which gives the socket that
  does the handshake with its next input or output.
\<close>

datatype secure_transport = SecureOn | SecureStartTls

record 'sock workers =
  socket_connect :: "secure_transport \<Rightarrow> str \<Rightarrow> u16 \<Rightarrow> std_error + 'sock"
  socket_opened :: "'sock \<Rightarrow> (std_error + unit) \<times> 'sock"
  socket_read :: "'sock \<Rightarrow> nat \<Rightarrow> (std_error + byte list) \<times> 'sock"
  socket_write_all :: "'sock \<Rightarrow> byte list \<Rightarrow> (std_error + unit) \<times> 'sock"
  socket_close :: "'sock \<Rightarrow> (std_error + unit) \<times> 'sock"
  start_tls :: "'sock \<Rightarrow> 'sock"

record 'sock cloudflare =
  cf_socket :: "'sock option"

definition from_socket :: "'sock \<Rightarrow> 'sock cloudflare" where
  "from_socket s = \<lparr>cf_socket = Some s\<rparr>"

definition into_inner :: "'sock cloudflare \<Rightarrow> 'sock option" where
  "into_inner t = cf_socket t"

definition socket_mut :: "'sock cloudflare \<Rightarrow> io_error + 'sock" where
  "socket_mut t =
     (case cf_socket t of
        Some s \<Rightarrow> Ok s
      | None \<Rightarrow> Err (io_error_new (lit ''transport socket is missing (interrupted upgrade?)'')))"

text \<open>\<open>Debug\<close>, which tells nothing of the socket.\<close>

definition debug_cloudflare :: "'sock cloudflare \<Rightarrow> str" where
  "debug_cloudflare t =
     lit ''CloudflareTransport { has_socket: '' @
     (if cf_socket t \<noteq> None then lit ''true'' else lit ''false'') @ lit '', .. }''"

definition read_async_io :: "'sock workers \<Rightarrow> 'sock \<Rightarrow> nat \<Rightarrow> (io_error + byte list) \<times> 'sock" where
  "read_async_io K s buf_len =
     map_prod (map_err (with_source (lit ''read failed''))) id (socket_read K s buf_len)"

definition write_all_async_io :: "'sock workers \<Rightarrow> 'sock \<Rightarrow> byte list \<Rightarrow> (io_error + unit) \<times> 'sock" where
  "write_all_async_io K s buf =
     map_prod (map_err (with_source (lit ''write failed''))) id (socket_write_all K s buf)"

definition cloudflare_read ::
    "'sock workers \<Rightarrow> 'sock cloudflare \<Rightarrow> nat \<Rightarrow> (io_error + byte list) \<times> 'sock cloudflare" where
  "cloudflare_read K t buf_len =
     (case socket_mut t of
        Err e \<Rightarrow> (Err e, t)
      | Ok s \<Rightarrow> map_prod id (\<lambda>s. t\<lparr>cf_socket := Some s\<rparr>) (read_async_io K s buf_len))"

definition cloudflare_write_all ::
    "'sock workers \<Rightarrow> 'sock cloudflare \<Rightarrow> byte list \<Rightarrow> (io_error + unit) \<times> 'sock cloudflare" where
  "cloudflare_write_all K t buf =
     (case socket_mut t of
        Err e \<Rightarrow> (Err e, t)
      | Ok s \<Rightarrow> map_prod id (\<lambda>s. t\<lparr>cf_socket := Some s\<rparr>) (write_all_async_io K s buf))"

definition cloudflare_close ::
    "'sock workers \<Rightarrow> 'sock cloudflare \<Rightarrow> (io_error + unit) \<times> 'sock cloudflare" where
  "cloudflare_close K t =
     (case socket_mut t of
        Err e \<Rightarrow> (Err e, t)
      | Ok s \<Rightarrow>
          map_prod (map_err (with_source (lit ''socket close failed''))) (\<lambda>s. t\<lparr>cf_socket := Some s\<rparr>)
            (socket_close K s))"

definition cloudflare_upgrade_to_tls ::
    "'sock workers \<Rightarrow> 'sock cloudflare \<Rightarrow> (io_error + unit) \<times> 'sock cloudflare" where
  "cloudflare_upgrade_to_tls K t =
     (case cf_socket t of
        None \<Rightarrow> (Err (io_error_new (lit ''transport socket is missing'')), t)
      | Some s \<Rightarrow>
          let t = t\<lparr>cf_socket := None\<rparr>; upgraded = start_tls K s
          in (Ok (), t\<lparr>cf_socket := Some upgraded\<rparr>))"

definition cloudflare_ops :: "'sock workers \<Rightarrow> 'sock cloudflare transport_ops" where
  "cloudflare_ops K =
     \<lparr>t_read = cloudflare_read K, t_write_all = cloudflare_write_all K, t_flush = default_flush,
      t_close = cloudflare_close K, t_upgrade_to_tls = cloudflare_upgrade_to_tls K\<rparr>"

subsection \<open>Connecting\<close>

definition at_host :: "str \<Rightarrow> u16 \<Rightarrow> string \<Rightarrow> string \<Rightarrow> str" where
  "at_host host port what happened =
     lit what @ lit '' to '' @ host @ lit '':'' @ show_word port @ lit '' '' @ lit happened"

definition cf_connect_implicit_tls ::
    "'sock workers \<Rightarrow> str \<Rightarrow> u16 \<Rightarrow> io_error + 'sock cloudflare" where
  "cf_connect_implicit_tls K host port =
     (case socket_connect K SecureOn host port of
        Err e \<Rightarrow> Err (with_source (at_host host port ''connect'' ''failed'') e)
      | Ok s \<Rightarrow>
          (case socket_opened K s of
             (Err e, s) \<Rightarrow> Err (with_source (at_host host port ''TLS handshake'' ''failed'') e)
           | (Ok _, s) \<Rightarrow> Ok (from_socket s)))"

definition cf_connect_starttls ::
    "'sock workers \<Rightarrow> str \<Rightarrow> u16 \<Rightarrow> io_error + 'sock cloudflare" where
  "cf_connect_starttls K host port =
     (case socket_connect K SecureStartTls host port of
        Err e \<Rightarrow> Err (with_source (at_host host port ''connect'' ''failed'') e)
      | Ok s \<Rightarrow>
          (case socket_opened K s of
             (Err e, s) \<Rightarrow> Err (with_source (at_host host port ''TCP connect'' ''failed'') e)
           | (Ok _, s) \<Rightarrow> Ok (from_socket s)))"

record 'sock workers_world =
  kw_workers :: "'sock workers"
  kw_features :: features
  kw_crypto :: crypto
  kw_entropy :: "byte list option"

definition cloudflare_env :: "'sock workers_world \<Rightarrow> 'sock cloudflare env" where
  "cloudflare_env W =
     \<lparr>e_ops = cloudflare_ops (kw_workers W), e_features = kw_features W, e_crypto = kw_crypto W,
      e_entropy = kw_entropy W, e_usize_max = 4294967295\<rparr>"

definition cf_connect_smtps ::
    "'sock workers_world \<Rightarrow> str \<Rightarrow> u16 \<Rightarrow> str \<Rightarrow>
     (smtp_error + unit) \<times> 'sock cloudflare client option" where
  "cf_connect_smtps W host port dm =
     (case cf_connect_implicit_tls (kw_workers W) host port of
        Err e \<Rightarrow> (Err (Io e), None)
      | Ok t \<Rightarrow> map_prod id Some (connect (cloudflare_env W) t dm))"

definition cf_connect_smtp_starttls ::
    "'sock workers_world \<Rightarrow> str \<Rightarrow> u16 \<Rightarrow> str \<Rightarrow>
     (smtp_error + unit) \<times> 'sock cloudflare client option" where
  "cf_connect_smtp_starttls W host port dm =
     (case cf_connect_starttls (kw_workers W) host port of
        Err e \<Rightarrow> (Err (Io e), None)
      | Ok t \<Rightarrow> map_prod id Some (connect_starttls (cloudflare_env W) t dm))"

subsection \<open>The socket stays\<close>

text \<open>Sockets that have been through \<open>start_tls\<close> and then only used.\<close>

inductive tls_socket :: "'sock workers \<Rightarrow> 'sock \<Rightarrow> bool" for K where
  tls_started: "tls_socket K (start_tls K s)"
| tls_read: "tls_socket K s \<Longrightarrow> tls_socket K (snd (socket_read K s n))"
| tls_written: "tls_socket K s \<Longrightarrow> tls_socket K (snd (socket_write_all K s b))"
| tls_closed: "tls_socket K s \<Longrightarrow> tls_socket K (snd (socket_close K s))"

definition cloudflare_secure :: "'sock workers \<Rightarrow> 'sock cloudflare \<Rightarrow> bool" where
  "cloudflare_secure K t \<longleftrightarrow> (\<exists>s. cf_socket t = Some s \<and> tls_socket K s)"

lemma cloudflare_env_simps [simp]:
  "t_read (e_ops (cloudflare_env W)) = cloudflare_read (kw_workers W)"
  "t_write_all (e_ops (cloudflare_env W)) = cloudflare_write_all (kw_workers W)"
  "t_flush (e_ops (cloudflare_env W)) = default_flush"
  "t_close (e_ops (cloudflare_env W)) = cloudflare_close (kw_workers W)"
  "t_upgrade_to_tls (e_ops (cloudflare_env W)) = cloudflare_upgrade_to_tls (kw_workers W)"
  by (simp_all add: cloudflare_env_def cloudflare_ops_def)

lemma cloudflare_secure_used:
  assumes "cloudflare_secure K t"
  shows "cloudflare_secure K (snd (cloudflare_read K t n))"
    and "cloudflare_secure K (snd (cloudflare_write_all K t b))"
    and "cloudflare_secure K (snd (cloudflare_close K t))"
proof -
  obtain s where s: "cf_socket t = Some s" "tls_socket K s"
    using assms by (auto simp: cloudflare_secure_def)
  then show "cloudflare_secure K (snd (cloudflare_read K t n))"
    "cloudflare_secure K (snd (cloudflare_write_all K t b))"
    "cloudflare_secure K (snd (cloudflare_close K t))"
    by (simp_all add: cloudflare_secure_def cloudflare_read_def cloudflare_write_all_def
        cloudflare_close_def socket_mut_def read_async_io_def write_all_async_io_def
        tls_read tls_written tls_closed)
qed

interpretation cloudflare_encrypts:
  encrypted_client "cloudflare_env W" "cloudflare_secure (kw_workers W)" for W
proof
  fix t t' u r n q bs
  show "cloudflare_secure (kw_workers W) t'"
    if "t_upgrade_to_tls (e_ops (cloudflare_env W)) t = (Ok u, t')"
    using that by (auto simp: cloudflare_upgrade_to_tls_def cloudflare_secure_def Let_def
        intro: tls_started split: option.splits)
  show "cloudflare_secure (kw_workers W) t'"
    if "t_upgrade_to_tls (e_ops (cloudflare_env W)) t = (r, t')" "cloudflare_secure (kw_workers W) t"
    using that by (auto simp: cloudflare_upgrade_to_tls_def cloudflare_secure_def Let_def
        intro: tls_started split: option.splits)
  show "cloudflare_secure (kw_workers W) t'"
    if "t_read (e_ops (cloudflare_env W)) t n = (q, t')" "cloudflare_secure (kw_workers W) t"
    using that cloudflare_secure_used(1) [OF that(2), of n] by simp
  show "cloudflare_secure (kw_workers W) t'"
    if "t_write_all (e_ops (cloudflare_env W)) t bs = (r, t')" "cloudflare_secure (kw_workers W) t"
    using that cloudflare_secure_used(2) [OF that(2), of bs] by simp
  show "cloudflare_secure (kw_workers W) t'"
    if "t_flush (e_ops (cloudflare_env W)) t = (r, t')" "cloudflare_secure (kw_workers W) t"
    using that by (simp add: default_flush_def)
  show "cloudflare_secure (kw_workers W) t'"
    if "t_close (e_ops (cloudflare_env W)) t = (r, t')" "cloudflare_secure (kw_workers W) t"
    using that cloudflare_secure_used(3) [OF that(2)] by simp
qed

subsection \<open>Properties\<close>

text \<open>
  C34: a session over Workers on which STARTTLS has succeeded only uses sockets that come from
  \<open>start_tls\<close> and operations on them, in every state it reaches and after quitting; its transport
  never loses its socket.
\<close>

theorem cloudflare_starttls_encrypted:
  "case cf_connect_smtp_starttls W host port dm of
     (Ok _, Some c) \<Rightarrow> {d. reachable rc (cloudflare_env W) c d} \<subseteq>
       {d. cloudflare_secure (kw_workers W) (transport d) \<and>
           cloudflare_secure (kw_workers W) (transport (snd (quit (cloudflare_env W) d)))}
   | (Ok _, None) \<Rightarrow> False
   | (Err _, c) \<Rightarrow> True"
proof (cases "cf_connect_starttls (kw_workers W) host port")
  case (Inl e)
  then show ?thesis by (simp add: cf_connect_smtp_starttls_def)
next
  case (Inr t)
  obtain r c where c: "connect_starttls (cloudflare_env W) t dm = (r, c)" by fastforce
  have "cloudflare_secure (kw_workers W) (transport d) \<and>
      cloudflare_secure (kw_workers W) (transport (snd (quit (cloudflare_env W) d)))"
    if "r = Ok u" "reachable rc (cloudflare_env W) c d" for u d
  proof -
    have "cloudflare_secure (kw_workers W) (transport c)"
      by (rule cloudflare_encrypts.connect_starttls_secures [OF c [unfolded that(1)]])
    then have "cloudflare_secure (kw_workers W) (transport d)"
      using cloudflare_encrypts.reachable_secure [OF that(2)] by blast
    then show ?thesis using cloudflare_encrypts.quit_secure by blast
  qed
  then show ?thesis
    using c Inr by (cases r) (simp_all add: cf_connect_smtp_starttls_def, blast)
qed

end
