(* ===== verification/Component.thy ===== *)
theory Component
  imports Wasi_Transport
begin

text \<open>
  The component (\<open>wasm-smtp-component/src/lib.rs\<close> and the types of \<open>stubs.rs\<close>, which mirror the
  generated ones): a validated configuration, and the one function that connects, logs in, sends a
  message and quits.  It composes the trust scanner, the WASI adapter and the client.
\<close>

datatype tls_mode = Implicit | Starttls

datatype trust_anchors = BundledAnchors | CustomAnchors str

record smtp_credentials =
  cr_username :: str
  cr_password :: str

text \<open>\<open>Debug\<close>; \<open>quote\<close> is the \<open>Debug\<close> of a string.\<close>

definition debug_credentials :: "(str \<Rightarrow> str) \<Rightarrow> smtp_credentials \<Rightarrow> str" where
  "debug_credentials quote c =
     lit ''SmtpCredentials { username: '' @ quote (cr_username c) @
     lit '', password: '' @ quote (lit ''[REDACTED]'') @ lit '' }''"

record smtp_message =
  msg_from :: str
  msg_to :: "str list"
  msg_raw :: str

datatype send_error =
    IoSendError str | ProtocolSendError str | AuthRejected | InvalidInputSendError str
  | PolicyRejected str

definition smtp_error_to_wit :: "smtp_error \<Rightarrow> send_error" where
  "smtp_error_to_wit e =
     (case e of
        Io io \<Rightarrow> IoSendError (io_message io)
      | Protocol p \<Rightarrow> ProtocolSendError (show_protocol_error p)
      | Auth _ \<Rightarrow> AuthRejected
      | InvalidInput i \<Rightarrow> InvalidInputSendError (reason i)
      | Policy p \<Rightarrow> PolicyRejected (policy_message p))"

subsection \<open>The configuration\<close>

record 'store config_state =
  cf_host :: str
  cf_port :: u16
  cf_ehlo_domain :: str
  cf_tls_mode :: tls_mode
  cf_roots :: "'store option"

definition config_validate ::
    "('der, 'store) pki \<Rightarrow> str \<Rightarrow> u16 \<Rightarrow> str \<Rightarrow> tls_mode \<Rightarrow> trust_anchors \<Rightarrow>
     send_error + 'store config_state" where
  "config_validate P host port dm mode t =
     (case map_err (\<lambda>e. InvalidInputSendError (reason e)) (validate_ehlo_domain dm) of
        Err e \<Rightarrow> Err e
      | Ok _ \<Rightarrow>
          let choice = (case t of BundledAnchors \<Rightarrow> Bundled | CustomAnchors pem \<Rightarrow> Custom pem)
          in case map_err (\<lambda>e. InvalidInputSendError (show_trust_error e)) (resolve_trust P choice) of
               Err e \<Rightarrow> Err e
             | Ok roots \<Rightarrow>
                 Ok \<lparr>cf_host = host, cf_port = port, cf_ehlo_domain = dm, cf_tls_mode = mode,
                     cf_roots = roots\<rparr>)"

subsection \<open>Sending\<close>

text \<open>
  With a connected client: log in, send, and quit, whose outcome is ignored.  The client is dropped
  then; it is returned here to speak of what has happened to it.
\<close>

definition deliver ::
    "'t env \<Rightarrow> smtp_credentials \<Rightarrow> smtp_message \<Rightarrow> 't client \<Rightarrow> (send_error + u16) \<times> 't client" where
  "deliver env credentials message c =
     (case login env (cr_username credentials) (cr_password credentials) c of
        (Err e, c) \<Rightarrow> (Err (smtp_error_to_wit e), c)
      | (Ok _, c) \<Rightarrow>
          (case send_mail env (msg_from message) (msg_to message) (msg_raw message) c of
             (Err e, c) \<Rightarrow> (Err (smtp_error_to_wit e), c)
           | (Ok outcome, c) \<Rightarrow>
               let c = snd (quit env c) in (Ok (so_code outcome), c)))"

definition component_options :: "'store config_state \<Rightarrow> 'store connect_options" where
  "component_options config =
     (case cf_roots config of
        Some roots \<Rightarrow> wasi_with_root_store roots connect_options_default
      | None \<Rightarrow> connect_options_default)"

text \<open>The last component of the outcome is the client, if a connection was made.\<close>

definition send_impl ::
    "('der, 'store, 'anchor, 'config, 'name, 'conn, 'h, 'w, 'q, 's) wasi_world \<Rightarrow>
     'store config_state \<Rightarrow> smtp_credentials \<Rightarrow> smtp_message \<Rightarrow> 'w \<Rightarrow>
     ((send_error + u16) \<times> ('conn, 'h, 'config, 'name) wasi_transport client option) option" where
  "send_impl W config credentials message w =
     (let options = component_options config;
          client_result = (case cf_tls_mode config of
             Implicit \<Rightarrow>
               connect_smtps_with W (cf_host config) (cf_port config) (cf_ehlo_domain config) options w
           | Starttls \<Rightarrow>
               connect_smtp_starttls_with W (cf_host config) (cf_port config) (cf_ehlo_domain config)
                 options w)
      in case client_result of
           None \<Rightarrow> None
         | Some (Err e, w) \<Rightarrow> Some (Err (smtp_error_to_wit e), None)
         | Some (Ok client, w) \<Rightarrow>
             Some (map_prod id Some (deliver (wasi_env W) credentials message client)))"

text \<open>
  The exported functions.  The generated bindings keep a configuration in a table: \<open>new\<close> gives the
  handle of a state, \<open>get\<close> the state of a handle.
\<close>

definition guest_create ::
    "('der, 'store) pki \<Rightarrow> ('store config_state \<Rightarrow> 'r) \<Rightarrow> str \<Rightarrow> u16 \<Rightarrow> str \<Rightarrow> tls_mode \<Rightarrow>
     trust_anchors \<Rightarrow> send_error + 'r" where
  "guest_create P new host port dm mode t = map_sum id new (config_validate P host port dm mode t)"

definition guest_send ::
    "('der, 'store, 'anchor, 'config, 'name, 'conn, 'h, 'w, 'q, 's) wasi_world \<Rightarrow>
     ('r \<Rightarrow> 'store config_state) \<Rightarrow> 'r \<Rightarrow> smtp_credentials \<Rightarrow> smtp_message \<Rightarrow> 'w \<Rightarrow>
     ((send_error + u16) \<times> ('conn, 'h, 'config, 'name) wasi_transport client option) option" where
  "guest_send W get config credentials message w = send_impl W (get config) credentials message w"

text \<open>Off \<open>wasm32\<close> there are no sockets.\<close>

definition send_impl_native :: "send_error + u16" where
  "send_impl_native = Err (smtp_error_to_wit (Io (io_error_new
     (lit ''wasm-smtp-component only runs on wasm32-wasip2; use cargo test for native unit tests''))))"

subsection \<open>How a delivery ends\<close>




text \<open>Everything a delivery does, it does on a transport as secure as the one it got.\<close>

context encrypted_client
begin

lemma deliver_secure:
  assumes "secure (transport c)"
  shows "secure (transport (snd (deliver env cr m c)))"
proof -
  obtain r c1 where l: "login env (cr_username cr) (cr_password cr) c = (r, c1)" by fastforce
  obtain q c2 where sm: "send_mail env (msg_from m) (msg_to m) (msg_raw m) c1 = (q, c2)" by fastforce
  have "secure (transport c1)"
    using stays.R_login [of c "cr_username cr" "cr_password cr"] assms l by simp
  moreover from this have "secure (transport c2)"
    using stays.R_send_mail [of c1 "msg_from m" "msg_to m" "msg_raw m"] sm by simp
  moreover from this have "secure (transport (snd (quit env c2)))" by (rule quit_secure)
  ultimately show ?thesis using l sm by (cases r; cases q) (simp_all add: deliver_def Let_def)
qed

lemma connect_secure:
  assumes "secure t" and "connect env t dm = (r, c)"
  shows "secure (transport c)"
  using stays.R_connect [of t dm options_new] assms
  by (simp add: connect_def options_new_def client_new_def)

end


subsection \<open>Properties\<close>


text \<open>
  C6: the component never logs in or sends over plain text, in either TLS mode: whatever the host
  and the server do, the login and the message are delivered by a client whose transport is not the
  plain stream, and neither is it afterwards; without a connection there is no success.
\<close>

theorem component_encrypted:
  "case send_impl W config cr m w of
     None \<Rightarrow> True
   | Some (r, None) \<Rightarrow> isl r
   | Some (r, Some d) \<Rightarrow> \<exists>c. (r, d) = deliver (wasi_env W) cr m c \<and>
       wasi_secure (transport c) \<and> wasi_secure (transport d)"
proof -
  let ?env = "wasi_env W"
  have sent: "\<exists>c. (r, d) = deliver ?env cr m c \<and> wasi_secure (transport c) \<and> wasi_secure (transport d)"
    if "deliver ?env cr m c = (r, d)" "wasi_secure (transport c)" for c r d
    using that wasi_encrypts.deliver_secure [of c W cr m] by (metis snd_conv)
  have tls: "wasi_secure (transport c)"
    if conn: "connect_smtps_with W host port dm opts w = Some (Ok c, w')" for host port dm opts w'  c
  proof -
    obtain t u where t: "connect ?env t dm = (Ok u, c)" "wasi_secure t"
      using conn
      by (auto simp: connect_smtps_with_def connect_implicit_tls_def connected_def wasi_secure_def
            split: option.splits sum.splits prod.splits)
    then show ?thesis using wasi_encrypts.connect_secure by blast
  qed
  have starttls: "wasi_secure (transport c)"
    if conn: "connect_smtp_starttls_with W host port dm opts w = Some (Ok c, w')" for host port dm opts w' c
  proof -
    obtain t u where "connect_starttls ?env t dm = (Ok u, c)"
      using conn
      by (auto simp: connect_smtp_starttls_with_def connected_def
            split: option.splits sum.splits prod.splits)
    then show ?thesis using wasi_encrypts.connect_starttls_secures by blast
  qed
  show ?thesis
  proof (cases "cf_tls_mode config")
    case Implicit
    then show ?thesis
      by (auto simp: send_impl_def Let_def map_prod_def intro!: sent
          dest!: tls split: option.splits sum.splits prod.splits)
  next
    case Starttls
    then show ?thesis
      by (auto simp: send_impl_def Let_def map_prod_def intro!: sent
          dest!: starttls split: option.splits sum.splits prod.splits)
  qed
qed

text \<open>
  The configuration says nothing of the host: a name that is not a server name is accepted when the
  configuration is created, and then no send with it can succeed.
\<close>

theorem component_host_unchecked:
  assumes "validate_ehlo_domain dm = Ok ()" and "parse_server_name (ww_lib W) host = Err e"
  shows "\<exists>config. config_validate (pki.truncate (ww_lib W)) host port dm mode BundledAnchors = Ok config \<and>
     (\<forall>cr m w code d. send_impl W config cr m w \<noteq> Some (Ok code, d))"
proof -
  let ?config = "\<lparr>cf_host = host, cf_port = port, cf_ehlo_domain = dm, cf_tls_mode = mode, cf_roots = None\<rparr>"
  have bad: "\<not> (\<exists>p. tls_target W host (component_options ?config) = Ok p)"
    using assms(2) by (simp add: tls_target_def component_options_def connect_options_default_def
        wasi_server_name_def)
  have "send_impl W ?config cr m w \<noteq> Some (Ok code, d)" for cr m w code d
    using bad
    by (cases mode) (auto simp: send_impl_def Let_def connect_smtps_with_def
        connect_implicit_tls_def connect_smtp_starttls_with_def connect_plain_def
        split: option.splits sum.splits prod.splits)
  moreover have "config_validate (pki.truncate (ww_lib W)) host port dm mode BundledAnchors = Ok ?config"
    using assms(1) by (simp add: config_validate_def resolve_trust_def)
  ultimately show ?thesis by blast
qed

end
