(* ===== verification/Contact_Form.thy ===== *)
theory Contact_Form
  imports Cloudflare_Transport Client_Session
begin

text \<open>
  The contact form worker (\<open>wasm-smtp-cloudflare/examples/contact_form_turnstile.rs\<close>), which decides
  at the HTTP boundary whether a submission becomes a message and builds the message as text.

  The Workers runtime is a parameter: the request as the worker sees it, secrets and variables, and
  the POST to the verification service with its decoded answer.  Errors of the runtime are texts.
  Log lines are not modelled.
\<close>

definition SITEVERIFY :: str where
  "SITEVERIFY = lit ''https://challenges.cloudflare.com/turnstile/v0/siteverify''"

record site_verify =
  sv_success :: bool
  sv_error_codes :: "str list"

datatype form_entry = FieldEntry str | FileEntry

record form_request =
  rq_is_post :: bool
  rq_form_data :: "str + (str \<Rightarrow> form_entry option)"
  rq_header :: "str \<Rightarrow> str + str option"

record worker_runtime =
  env_secret :: "str \<Rightarrow> str + str"
  env_var :: "str \<Rightarrow> str + str"
  post_form :: "str \<Rightarrow> str \<Rightarrow> str \<Rightarrow> str + site_verify"

datatype response = ResponseOk str | ResponseError str nat

subsection \<open>Text\<close>

definition has_line_break :: "str \<Rightarrow> bool" where
  "has_line_break value \<longleftrightarrow> CR \<in> set value \<or> LF \<in> set value"

text \<open>The loop of \<open>normalize_crlf\<close> over the characters, with one of lookahead.\<close>

function normalize_chars :: "byte list list \<Rightarrow> str" where
  "normalize_chars cs =
     (case cs of
        [] \<Rightarrow> []
      | c # cs \<Rightarrow>
          if c = [CR] then
            CRLF @ normalize_chars (case cs of d # ds \<Rightarrow> if d = [LF] then ds else cs | [] \<Rightarrow> cs)
          else if c = [LF] then CRLF @ normalize_chars cs
          else c @ normalize_chars cs)"
  by pat_completeness auto
termination
  by (relation "measure length") (auto split: list.splits)

declare normalize_chars.simps [simp del]

definition normalize_crlf :: "str \<Rightarrow> str" where
  "normalize_crlf s = normalize_chars (chars s)"

definition form_field :: "(str \<Rightarrow> form_entry option) \<Rightarrow> str \<Rightarrow> str" where
  "form_field form name = (case form name of Some (FieldEntry value) \<Rightarrow> value | _ \<Rightarrow> [])"

text \<open>\<open>{byte:02X}\<close>.\<close>

definition hex_upper :: "byte \<Rightarrow> byte" where
  "hex_upper n = (if n < 10 then 48 + n else 55 + n)"

definition unreserved :: "byte \<Rightarrow> bool" where
  "unreserved b \<longleftrightarrow> 65 \<le> b \<and> b \<le> 90 \<or> 97 \<le> b \<and> b \<le> 122 \<or> 48 \<le> b \<and> b \<le> 57 \<or> b \<in> {45, 95, 46, 126}"

fun urlencode :: "str \<Rightarrow> str" where
  "urlencode [] = []"
| "urlencode (b # bs) =
     (if unreserved b then [b] else [37, hex_upper (b div 16), hex_upper (b mod 16)]) @ urlencode bs"

subsection \<open>The handler\<close>

definition siteverify_body :: "str \<Rightarrow> str \<Rightarrow> str \<Rightarrow> str" where
  "siteverify_body secret token ip =
     lit ''secret='' @ urlencode secret @ lit ''&response='' @ urlencode token @
     lit ''&remoteip='' @ urlencode ip"

definition verify_challenge :: "worker_runtime \<Rightarrow> str \<Rightarrow> str \<Rightarrow> str \<Rightarrow> str + site_verify" where
  "verify_challenge rt secret token ip =
     post_form rt SITEVERIFY (lit ''application/x-www-form-urlencoded'')
       (siteverify_body secret token ip)"

definition contact_message :: "str \<Rightarrow> str \<Rightarrow> str \<Rightarrow> str \<Rightarrow> str" where
  "contact_message user name email message =
     lit ''From: '' @ user @ CRLF @
     lit ''To: support@example.com'' @ CRLF @
     lit ''Reply-To: '' @ email @ CRLF @
     lit ''Subject: Contact form: '' @ name @ CRLF @
     lit ''MIME-Version: 1.0'' @ CRLF @
     lit ''Content-Type: text/plain; charset=utf-8'' @ CRLF @
     CRLF @
     lit ''From: '' @ name @ lit '' <'' @ email @ lit ''>'' @ CRLF @
     CRLF @
     message @ CRLF"

text \<open>
  \<open>deliver\<close>, with the client it drops at its end: \<open>contact_session\<close> keeps it, so that one can say what
  has gone over its connection.
\<close>

definition contact_session ::
    "'sock workers_world \<Rightarrow> str \<Rightarrow> u16 \<Rightarrow> str \<Rightarrow> str \<Rightarrow> str \<Rightarrow> str \<Rightarrow> str \<Rightarrow>
     (smtp_error + unit) \<times> 'sock cloudflare client option" where
  "contact_session W host port user pass name email message =
     (case cf_connect_smtps W host port (lit ''worker.example.com'') of
        (Err e, client) \<Rightarrow> (Err e, client)
      | (Ok _, client) \<Rightarrow>
          map_prod id Some (and_then (login (cloudflare_env W) user pass (the client)) (\<lambda>_ c.
               let message = normalize_crlf message;
                   body = contact_message user name email message
               in and_then (send_mail (cloudflare_env W) user [lit ''support@example.com''] body c) (\<lambda>_ c.
                  quit (cloudflare_env W) c))))"

definition contact_deliver ::
    "'sock workers_world \<Rightarrow> str \<Rightarrow> u16 \<Rightarrow> str \<Rightarrow> str \<Rightarrow> str \<Rightarrow> str \<Rightarrow> str \<Rightarrow> smtp_error + unit" where
  "contact_deliver W host port user pass name email message =
     fst (contact_session W host port user pass name email message)"

record submission =
  su_host :: str
  su_port :: u16
  su_user :: str
  su_pass :: str
  su_name :: str
  su_email :: str
  su_message :: str

text \<open>\<open>?\<close> on the runtime's errors, which end the handler.\<close>

definition try_rt :: "str + 'a \<Rightarrow> ('a \<Rightarrow> (str + response) + 'b) \<Rightarrow> (str + response) + 'b" where
  "try_rt r k = (case r of Err e \<Rightarrow> Inl (Err e) | Ok x \<Rightarrow> k x)"

definition refuse :: "string \<Rightarrow> nat \<Rightarrow> (str + response) + 'b" where
  "refuse msg status = Inl (Ok (ResponseError (lit msg) status))"

text \<open>\<open>.ok().flatten().unwrap_or_default()\<close> on the header.\<close>

definition remote_ip :: "form_request \<Rightarrow> str" where
  "remote_ip req = (case rq_header req (lit ''CF-Connecting-IP'') of Ok (Some ip) \<Rightarrow> ip | _ \<Rightarrow> [])"

text \<open>\<open>handle\<close> up to the delivery: either it returns, or there is something to deliver.\<close>

definition admit :: "worker_runtime \<Rightarrow> form_request \<Rightarrow> (str + response) + submission" where
  "admit rt req =
     (if \<not> rq_is_post req then refuse ''Method Not Allowed'' 405
      else case rq_form_data req of
        Err _ \<Rightarrow> refuse ''Expected a form body'' 400
      | Ok form \<Rightarrow>
          if form_field form (lit ''website'') \<noteq> [] then refuse ''Bad Request'' 400
          else
            let token = form_field form (lit ''cf-turnstile-response'')
            in if token = [] then refuse ''Missing challenge response'' 400
               else
                 try_rt (env_secret rt (lit ''TURNSTILE_SECRET'')) (\<lambda>secret.
                 case verify_challenge rt secret token (remote_ip req) of
                      Err _ \<Rightarrow> refuse ''Service Unavailable'' 503
                    | Ok v \<Rightarrow>
                        if \<not> sv_success v then refuse ''Forbidden'' 403
                        else
                          try_rt (env_var rt (lit ''SMTP_HOST'')) (\<lambda>host.
                          try_rt (env_var rt (lit ''SMTP_PORT'')) (\<lambda>port_text.
                          let port = (case parse_uint 65535 port_text of
                                Some p \<Rightarrow> of_nat p | None \<Rightarrow> 465)
                          in try_rt (env_secret rt (lit ''SMTP_USER'')) (\<lambda>user.
                             try_rt (env_secret rt (lit ''SMTP_PASS'')) (\<lambda>pass.
                             let name = form_field form (lit ''name'');
                                 email = form_field form (lit ''email'');
                                 message = form_field form (lit ''message'')
                             in if has_line_break name \<or> has_line_break email then
                                  refuse ''Bad Request'' 400
                                else case validate_address email of
                                  Err _ \<Rightarrow> refuse ''Bad Request'' 400
                                | Ok _ \<Rightarrow>
                                    Inr \<lparr>su_host = host, su_port = port, su_user = user, su_pass = pass,
                                         su_name = name, su_email = email, su_message = message\<rparr>))))))"

definition handle :: "'sock workers_world \<Rightarrow> worker_runtime \<Rightarrow> form_request \<Rightarrow> str + response" where
  "handle W rt req =
     (case admit rt req of
        Inl r \<Rightarrow> r
      | Inr s \<Rightarrow>
          (case contact_deliver W (su_host s) (su_port s) (su_user s) (su_pass s) (su_name s)
             (su_email s) (su_message s) of
             Ok _ \<Rightarrow> Ok (ResponseOk (lit ''Thanks '' @ [0xE2, 0x80, 0x94] @ lit '' your message is on its way.''))
           | Err e \<Rightarrow> Ok (ResponseError (lit ''Bad Gateway'') 502)))"

lemma admit_no_success: "admit rt req \<noteq> Inl (Ok (ResponseOk m))"
  by (auto simp: admit_def refuse_def try_rt_def Let_def split: if_splits sum.splits)

subsection \<open>Line breaks\<close>

text \<open>Normalizing on bytes, and what a text with proper line breaks is.\<close>

fun normalize_bytes :: "byte list \<Rightarrow> byte list" where
  "normalize_bytes [] = []"
| "normalize_bytes [b] = (if b = CR \<or> b = LF then CRLF else [b])"
| "normalize_bytes (b # c # bs) =
     (if b = CR \<and> c = LF then CRLF @ normalize_bytes bs
      else if b = CR \<or> b = LF then CRLF @ normalize_bytes (c # bs)
      else b # normalize_bytes (c # bs))"

fun crlf_only :: "byte list \<Rightarrow> bool" where
  "crlf_only [] = True"
| "crlf_only [b] = (b \<noteq> CR \<and> b \<noteq> LF)"
| "crlf_only (b # c # bs) =
     (if b = CR then c = LF \<and> crlf_only bs else b \<noteq> LF \<and> crlf_only (c # bs))"

text \<open>The lines of a text, whatever ends them.\<close>

fun text_lines :: "byte list \<Rightarrow> byte list list" where
  "text_lines [] = [[]]"
| "text_lines [b] = (if b = CR \<or> b = LF then [[], []] else [[b]])"
| "text_lines (b # c # bs) =
     (if b = CR \<and> c = LF then [] # text_lines bs
      else if b = CR \<or> b = LF then [] # text_lines (c # bs)
      else case text_lines (c # bs) of l # ls \<Rightarrow> (b # l) # ls | [] \<Rightarrow> [])"

lemma normalize_bytes_plain:
  "b \<noteq> CR \<Longrightarrow> b \<noteq> LF \<Longrightarrow> normalize_bytes (b # bs) = b # normalize_bytes bs"
  by (cases bs) auto

lemma normalize_bytes_chunk:
  "CR \<notin> set c \<Longrightarrow> LF \<notin> set c \<Longrightarrow> normalize_bytes (c @ bs) = c @ normalize_bytes bs"
  by (induction c) (simp_all add: normalize_bytes_plain)

lemma normalize_bytes_LF: "normalize_bytes (LF # bs) = CRLF @ normalize_bytes bs"
  by (cases bs) auto

lemma normalize_bytes_CR:
  "normalize_bytes (CR # bs) =
     CRLF @ normalize_bytes (case bs of b # cs \<Rightarrow> if b = LF then cs else bs | [] \<Rightarrow> bs)"
  by (cases bs) auto

definition is_char :: "byte list \<Rightarrow> bool" where
  "is_char c \<longleftrightarrow> c \<noteq> [] \<and> (CR \<in> set c \<longrightarrow> c = [CR]) \<and> (LF \<in> set c \<longrightarrow> c = [LF])"

lemma concat_skip_LF:
  "list_all is_char ds \<Longrightarrow>
   concat (case ds of d # es \<Rightarrow> if d = [LF] then es else ds | [] \<Rightarrow> ds) =
   (case concat ds of b # bs \<Rightarrow> if b = LF then bs else concat ds | [] \<Rightarrow> concat ds)"
proof (cases ds)
  case (Cons d es)
  moreover assume "list_all is_char ds"
  ultimately have ne: "d \<noteq> []" and lf: "LF \<in> set d \<Longrightarrow> d = [LF]" by (simp_all add: is_char_def)
  from ne obtain b r where "d = b # r" by (cases d) auto
  then show ?thesis using Cons lf by (cases "b = LF") auto
qed simp

lemma normalize_chars_concat:
  "list_all is_char cs \<Longrightarrow> normalize_chars cs = normalize_bytes (concat cs)"
proof (induction cs rule: normalize_chars.induct)
  case (1 cs)
  show ?case
  proof (cases cs)
    case Nil
    then show ?thesis by (subst normalize_chars.simps) simp
  next
    case (Cons c ds)
    have c: "is_char c" and ds: "list_all is_char ds" using 1(4) Cons by simp_all
    consider "c = [CR]" | "c = [LF]" | "CR \<notin> set c" "LF \<notin> set c"
      using c unfolding is_char_def by blast
    then show ?thesis
    proof cases
      case cr: 1
      have "list_all is_char (case ds of d # es \<Rightarrow> if d = [LF] then es else ds | [] \<Rightarrow> ds)"
        using ds by (auto split: list.splits)
      from 1(1) [OF Cons cr this] show ?thesis
        using Cons cr by (subst normalize_chars.simps) (simp add: normalize_bytes_CR concat_skip_LF [OF ds])
    next
      case lf: 2
      then show ?thesis
        using Cons 1(2) [OF Cons] ds by (subst normalize_chars.simps) (simp add: normalize_bytes_LF)
    next
      case 3
      then have "c \<noteq> [CR]" "c \<noteq> [LF]" by auto
      then show ?thesis
        using Cons 1(3) [OF Cons] ds 3 by (subst normalize_chars.simps) (simp add: normalize_bytes_chunk)
    qed
  qed
qed

lemma chars_nonempty: "c \<in> set (chars s) \<Longrightarrow> c \<noteq> []"
proof (induction s rule: chars.induct)
  case (1 s)
  then have ne: "s \<noteq> []" by (auto simp: chars.simps)
  then obtain b bs where s: "s = b # bs" by (cases s) auto
  obtain ok n where st: "utf8_step s = (ok, n)" by fastforce
  with ne have "chars s = take n s # chars (drop n s)" by (subst chars.simps) simp
  then show ?case
    using 1 ne st utf8_step_pos [of b bs] s by auto
qed

lemma normalize_crlf_bytes: "normalize_crlf s = normalize_bytes s"
proof -
  have "is_char c" if "c \<in> set (chars s)" for c
    using chars_ascii_byte [OF that] chars_nonempty [OF that] by (simp add: is_char_def)
  then show ?thesis
    unfolding normalize_crlf_def
    by (simp add: normalize_chars_concat list_all_iff concat_chars)
qed

lemma crlf_only_Cons: "b \<noteq> CR \<Longrightarrow> b \<noteq> LF \<Longrightarrow> crlf_only (b # bs) = crlf_only bs"
  by (cases bs) auto

lemma normalize_crlf_only: "crlf_only (normalize_bytes bs)"
  by (induction bs rule: normalize_bytes.induct) (auto simp: crlf_only_Cons)

lemma normalize_crlf_id: "crlf_only bs \<Longrightarrow> normalize_bytes bs = bs"
  by (induction bs rule: crlf_only.induct) (auto split: if_splits)

lemma text_lines_Cons:
  "b \<noteq> CR \<Longrightarrow> b \<noteq> LF \<Longrightarrow>
   text_lines (b # bs) = (case text_lines bs of l # ls \<Rightarrow> (b # l) # ls | [] \<Rightarrow> [])"
  by (cases bs) auto

lemma text_lines_normalize: "text_lines (normalize_bytes bs) = text_lines bs"
  by (induction bs rule: normalize_bytes.induct) (auto simp: text_lines_Cons)

subsection \<open>Percent encoding\<close>

text \<open>Decoding, as a reader of a form body does it.\<close>

definition hex_value :: "byte \<Rightarrow> byte" where
  "hex_value b = (if b \<le> 57 then b - 48 else b - 55)"

fun percent_decode :: "str \<Rightarrow> str" where
  "percent_decode [] = []"
| "percent_decode (b # bs) =
     (if b = 37 then
        (case bs of h # l # r \<Rightarrow> (16 * hex_value h + hex_value l) # percent_decode r | _ \<Rightarrow> [])
      else b # percent_decode bs)"

lemma nibble_hex:
  assumes "n < 16"
  shows "hex_value (hex_upper n) = n \<and> hex_upper n \<notin> {38, 61, CR, LF}"
proof -
  have "n \<in> set (map of_nat [0..<16])"
    using assms by (auto simp: word_less_nat_alt intro!: image_eqI [of _ _ "unat n"])
  moreover have "list_all (\<lambda>n. hex_value (hex_upper n) = n \<and> hex_upper n \<notin> {38, 61, CR, LF})
      (map of_nat [0..<16])"
    by (simp add: upt_rec hex_value_def hex_upper_def)
  ultimately show ?thesis by (blast dest: list_all_iff [THEN iffD1])
qed

lemma nibbles: "b div 16 < (16 :: byte)" "b mod 16 < (16 :: byte)" "16 * (b div 16) + b mod 16 = b"
proof -
  have "unat b < 256" using unsigned_less [of b] by simp
  then show "b div 16 < (16 :: byte)" by (simp add: word_less_nat_alt unat_div)
  show "b mod 16 < (16 :: byte)" by (simp add: word_less_nat_alt unat_mod)
  show "16 * (b div 16) + b mod 16 = b" by (rule mult_div_mod_eq)
qed

lemma percent_roundtrip: "percent_decode (urlencode bs) = bs"
proof (induction bs)
  case (Cons b bs)
  have "unreserved b \<Longrightarrow> b \<noteq> 37" by (auto simp: unreserved_def)
  then show ?case
    using Cons nibble_hex [OF nibbles(1), of b] nibble_hex [OF nibbles(2), of b] nibbles(3) [of b] by auto
qed simp

lemma urlencode_clean: "set (urlencode bs) \<inter> {38, 61, CR, LF} = {}"
proof (induction bs)
  case (Cons b bs)
  have "unreserved b \<Longrightarrow> b \<notin> {38, 61, CR, LF}" by (auto simp: unreserved_def)
  then show ?case
    using Cons nibble_hex [OF nibbles(1), of b] nibble_hex [OF nibbles(2), of b] by auto
qed simp

text \<open>The fields of a form body, as its reader takes them apart.\<close>

definition form_pairs :: "str \<Rightarrow> (str \<times> str) list" where
  "form_pairs s =
     map (\<lambda>p. case split_once 61 p of Some (k, v) \<Rightarrow> (k, percent_decode v) | None \<Rightarrow> (p, []))
       (split_char 38 s)"

subsection \<open>Headers\<close>

text \<open>A message as a mail reader sees it: header lines up to the first empty line, then the body.\<close>

function read_message :: "byte list \<Rightarrow> byte list list \<times> byte list" where
  "read_message s =
     (case find_crlf s of
        None \<Rightarrow> ([], s)
      | Some k \<Rightarrow>
          if k = 0 then ([], drop 2 s)
          else apfst ((#) (take k s)) (read_message (drop (k + 2) s)))"
  by pat_completeness auto
termination
  by (relation "measure length") (auto dest: find_crlf_less)

declare read_message.simps [simp del]

lemma read_message_line:
  "\<not> has_line_break l \<Longrightarrow> l \<noteq> [] \<Longrightarrow>
   read_message (l @ CR # LF # rest) = apfst ((#) l) (read_message rest)"
  by (subst read_message.simps) (simp add: has_line_break_def find_crlf_end)

lemma read_message_end: "read_message (CR # LF # rest) = ([], rest)"
  by (subst read_message.simps) simp

definition contact_headers :: "str \<Rightarrow> str \<Rightarrow> str \<Rightarrow> str list" where
  "contact_headers user name email =
     [lit ''From: '' @ user, lit ''To: support@example.com'', lit ''Reply-To: '' @ email,
      lit ''Subject: Contact form: '' @ name, lit ''MIME-Version: 1.0'',
      lit ''Content-Type: text/plain; charset=utf-8'']"

lemma contact_message_read:
  assumes "\<not> has_line_break user" and "\<not> has_line_break name" and "\<not> has_line_break email"
  shows "read_message (contact_message user name email message) =
     (contact_headers user name email,
      lit ''From: '' @ name @ lit '' <'' @ email @ lit ''>'' @ CRLF @ CRLF @ message @ CRLF)"
proof -
  have breaks: "has_line_break (lit h @ x) \<longleftrightarrow> has_line_break (lit h) \<or> has_line_break x" for h x
    by (auto simp: has_line_break_def)
  have ne: "lit (a # h) \<noteq> []" for a h by (simp add: lit_def)
  have "\<not> has_line_break (lit ''From: '')" "\<not> has_line_break (lit ''To: support@example.com'')"
    "\<not> has_line_break (lit ''Reply-To: '')" "\<not> has_line_break (lit ''Subject: Contact form: '')"
    "\<not> has_line_break (lit ''MIME-Version: 1.0'')"
    "\<not> has_line_break (lit ''Content-Type: text/plain; charset=utf-8'')"
    by (simp_all add: has_line_break_def lit_def)
  then show ?thesis
    unfolding contact_message_def contact_headers_def
    using read_message_line [of "lit ''From: '' @ user"] read_message_line [of "lit ''To: support@example.com''"]
      read_message_line [of "lit ''Reply-To: '' @ email"]
      read_message_line [of "lit ''Subject: Contact form: '' @ name"]
      read_message_line [of "lit ''MIME-Version: 1.0''"]
      read_message_line [of "lit ''Content-Type: text/plain; charset=utf-8''"] assms
    by (simp add: breaks ne read_message_end)
qed

lemma contact_message_terminated:
  "crlf_terminated (contact_message user name email message) = contact_message user name email message"
proof -
  have "ends_with_crlf (p @ CRLF)" for p by (simp add: ends_with_crlf_def)
  then show ?thesis
    by (simp only: contact_message_def append_assoc [symmetric] crlf_terminated_def if_True)
qed

lemma contact_headers_clean:
  assumes "\<not> has_line_break user" and "\<not> has_line_break name" and "\<not> has_line_break email"
  shows "list_all (\<lambda>h. \<not> has_line_break h) (contact_headers user name email)"
  using assms by (auto simp: contact_headers_def has_line_break_def lit_def)

lemma valid_sender_clean:
  "validate_envelope validate_address user to = Ok () \<Longrightarrow> \<not> has_line_break user"
  by (auto simp: validate_envelope_Ok validate_address_Ok has_line_break_def)

subsection \<open>What goes over the socket\<close>

text \<open>
  \<open>wr\<close> tells what a socket has been written: a write that succeeds adds its bytes, and neither
  reading nor closing adds any.
\<close>

definition workers_record :: "'sock workers \<Rightarrow> ('sock \<Rightarrow> byte list) \<Rightarrow> bool" where
  "workers_record K wr \<longleftrightarrow>
     (\<forall>s b s'. socket_write_all K s b = (Ok (), s') \<longrightarrow> wr s' = wr s @ b) \<and>
     (\<forall>s n. wr (snd (socket_read K s n)) = wr s) \<and> (\<forall>s. wr (snd (socket_close K s)) = wr s)"

definition on_socket :: "'a \<Rightarrow> ('sock \<Rightarrow> 'a) \<Rightarrow> 'sock cloudflare \<Rightarrow> 'a" where
  "on_socket z f t = (case cf_socket t of Some s \<Rightarrow> f s | None \<Rightarrow> z)"

lemma on_socket_Some [simp]: "cf_socket t = Some s \<Longrightarrow> on_socket z f t = f s"
  by (simp add: on_socket_def)

lemma cloudflare_records:
  assumes "workers_record (kw_workers W) wr"
  shows "client_recorder (cloudflare_env W) (on_socket [] wr)"
proof
  fix t t' bs r n u
  show "on_socket [] wr t' = on_socket [] wr t @ bs"
    if "t_write_all (e_ops (cloudflare_env W)) t bs = (Ok (), t')"
    using that assms
    by (cases "cf_socket t"; cases "socket_write_all (kw_workers W) (the (cf_socket t)) bs";
        cases "fst (socket_write_all (kw_workers W) (the (cf_socket t)) bs)")
       (auto simp: cloudflare_write_all_def socket_mut_def write_all_async_io_def workers_record_def)
  have read: "wr s' = wr s" if "socket_read (kw_workers W) s n = (x, s')" for s x s'
    using assms that unfolding workers_record_def by (metis snd_conv)
  show "on_socket [] wr t' = on_socket [] wr t"
    if "t_read (e_ops (cloudflare_env W)) t n = (r, t')"
    using that
    by (cases "cf_socket t"; cases "socket_read (kw_workers W) (the (cf_socket t)) n")
       (auto simp: cloudflare_read_def socket_mut_def read_async_io_def dest: read)
  show "on_socket [] wr t' = on_socket [] wr t"
    if "t_flush (e_ops (cloudflare_env W)) t = (u, t')"
    using that by (simp add: default_flush_def)
qed

lemma close_records:
  assumes "workers_record (kw_workers W) wr"
  shows "on_socket [] wr (snd (cloudflare_close (kw_workers W) t)) = on_socket [] wr t"
  using assms
  by (cases "cf_socket t")
     (auto simp: cloudflare_close_def socket_mut_def on_socket_def workers_record_def)

lemma quit_wrote:
  assumes rec: "workers_record (kw_workers W) wr" and "quit (cloudflare_env W) c = (Ok u, d)"
    and "state c \<noteq> Closed"
  shows "on_socket [] wr (transport d) = on_socket [] wr (transport c) @ format_command (lit ''QUIT'')"
proof -
  obtain r e where q: "quit_exchange (cloudflare_env W) c = (r, e)" by fastforce
  obtain cl t where t: "cloudflare_close (kw_workers W) (transport e) = (cl, t)" by fastforce
  have "r = Ok ()" and d: "transport d = t"
    using assms(2,3) q t
    by (auto simp: quit_def Let_def check_def and_then_def on_event_def split: sum.splits)
  then show ?thesis
    using client_recorder.quit_exchange_wrote [OF cloudflare_records [OF rec], of c] q
      close_records [OF rec, of "transport e"] t d
    by simp
qed

lemma map_prod_Some: "map_prod id Some p = (r, c) \<longleftrightarrow> (\<exists>d. p = (r, d) \<and> c = Some d)"
  by (cases p) auto

text \<open>What \<open>deliver\<close> has sent when it succeeds, from the login to the end.\<close>

lemma contact_session_sends:
  assumes rec: "workers_record (kw_workers W) wr"
    and "contact_session W host port user pass name email message = (Ok u, c)"
  shows "\<exists>c1 c2 d. c = Some d \<and>
     cf_connect_smtps W host port (lit ''worker.example.com'') = (Ok (), Some c1) \<and>
     login (cloudflare_env W) user pass c1 = (Ok (), c2) \<and>
     validate_envelope validate_address user [lit ''support@example.com''] = Ok () \<and>
     on_socket [] wr (transport d) = on_socket [] wr (transport c2) @
       envelope_bytes (format_mail_from user) [lit ''support@example.com''] @
       dot_stuff_and_terminate (contact_message user name email (normalize_crlf message)) @
       format_command (lit ''QUIT'')"
proof -
  let ?env = "cloudflare_env W" and ?to = "[lit ''support@example.com'']"
  let ?b = "contact_message user name email (normalize_crlf message)"
  obtain c1 where c1: "cf_connect_smtps W host port (lit ''worker.example.com'') = (Ok (), Some c1)"
    using assms(2) by (auto simp: contact_session_def cf_connect_smtps_def map_prod_Some split: prod.splits sum.splits)
  obtain c2 c3 r d where login: "login ?env user pass c1 = (Ok (), c2)"
    and send: "send_mail ?env user ?to ?b c2 = (Ok r, c3)"
    and quit: "quit ?env c3 = (Ok (), d)" "c = Some d"
    using assms(2) c1 by (auto simp: contact_session_def Let_def and_then_Ok_iff map_prod_Some)
  have "state c3 = MailFrom"
    using send_mail_spec [of ?env user ?to ?b c2] send by (auto simp: delivered_def after_def quiet_def)
  then have "on_socket [] wr (transport d) =
      on_socket [] wr (transport c3) @ format_command (lit ''QUIT'')"
    using quit_wrote [OF rec quit(1)] by simp
  moreover have "on_socket [] wr (transport c3) = on_socket [] wr (transport c2) @
      envelope_bytes (format_mail_from user) ?to @ dot_stuff_and_terminate ?b"
    using client_recorder.send_mail_wrote [OF cloudflare_records [OF rec], of user ?to ?b c2] send by simp
  ultimately show ?thesis using c1 login quit(2) send_mail_valid [OF send] by simp
qed

subsection \<open>Properties\<close>

text \<open>
  C23: the gate is closed unless everything has been passed: a submission is delivered only if it
  came by POST with a form whose honeypot is empty and whose challenge token is not, the
  verification service has answered for that token with success, and the name and the address of
  the submitter have no line break and the address is valid; in every other case, an unreachable
  verification service included, the answer is an error and nothing is delivered.
\<close>

theorem contact_form_gate:
  "case admit rt req of
     Inl r \<Rightarrow> handle W rt req = r \<and> (\<nexists>m. r = Ok (ResponseOk m))
   | Inr s \<Rightarrow> rq_is_post req \<and>
       (\<exists>form secret v. rq_form_data req = Ok form \<and> form_field form (lit ''website'') = [] \<and>
          form_field form (lit ''cf-turnstile-response'') \<noteq> [] \<and>
          env_secret rt (lit ''TURNSTILE_SECRET'') = Ok secret \<and>
          verify_challenge rt secret (form_field form (lit ''cf-turnstile-response''))
            (remote_ip req) = Ok v \<and>
          sv_success v \<and> su_name s = form_field form (lit ''name'') \<and>
          su_email s = form_field form (lit ''email'') \<and>
          su_message s = form_field form (lit ''message'')) \<and>
       \<not> has_line_break (su_name s) \<and> validate_address (su_email s) = Ok ()"
proof (cases "admit rt req")
  case (Inl r)
  then have "\<nexists>m. r = Ok (ResponseOk m)" using admit_no_success [of rt req] by auto
  then show ?thesis using Inl by (simp add: handle_def)
next
  case (Inr s)
  then show ?thesis
    by (auto simp: admit_def refuse_def try_rt_def Let_def split: if_splits sum.splits)
qed

text \<open>
  C22: no header injection: when the handler reports success, what it has written to the socket after
  the login is one transaction and QUIT.  A server that follows the protocol reads it as the configured
  sender, the one fixed recipient and a message; and that message, read as a mail reader does, has
  exactly the six headers of the code, each of them one line, whatever name, address and text were
  submitted and whatever sender is configured, and the rest is the body with the submitted text.
\<close>

theorem contact_form_headers:
  assumes "workers_record (kw_workers W) wr"
  shows "case handle W rt req of
     Ok (ResponseOk _) \<Rightarrow>
       \<exists>s c1 c2 d bytes message. admit rt req = Inr s \<and>
         cf_connect_smtps W (su_host s) (su_port s) (lit ''worker.example.com'') = (Ok (), Some c1) \<and>
         login (cloudflare_env W) (su_user s) (su_pass s) c1 = (Ok (), c2) \<and>
         contact_session W (su_host s) (su_port s) (su_user s) (su_pass s) (su_name s) (su_email s)
           (su_message s) = (Ok (), Some d) \<and>
         on_socket [] wr (transport d) = on_socket [] wr (transport c2) @ bytes \<and>
         server_view bytes =
           Some ([mail_line (su_user s), rcpt_line (lit ''support@example.com'')], message,
             format_command (lit ''QUIT'')) \<and>
         list_all (\<lambda>h. \<not> has_line_break h) (contact_headers (su_user s) (su_name s) (su_email s)) \<and>
         read_message message =
           (contact_headers (su_user s) (su_name s) (su_email s),
            lit ''From: '' @ su_name s @ lit '' <'' @ su_email s @ lit ''>'' @ CRLF @ CRLF @
            normalize_crlf (su_message s) @ CRLF)
   | _ \<Rightarrow> True"
proof (cases "\<exists>m. handle W rt req = Ok (ResponseOk m)")
  case True
  then obtain s where s: "admit rt req = Inr s"
    and ok: "contact_deliver W (su_host s) (su_port s) (su_user s) (su_pass s) (su_name s) (su_email s)
      (su_message s) = Ok ()"
    using admit_no_success [of rt req] by (auto simp: handle_def split: sum.splits)
  have clean: "\<not> has_line_break (su_name s)" "\<not> has_line_break (su_email s)"
    using s by (auto simp: admit_def refuse_def try_rt_def Let_def split: if_splits sum.splits)
  let ?m = "contact_message (su_user s) (su_name s) (su_email s) (normalize_crlf (su_message s))"
  let ?to = "[lit ''support@example.com'']"
  obtain c where c: "contact_session W (su_host s) (su_port s) (su_user s) (su_pass s) (su_name s)
      (su_email s) (su_message s) = (Ok (), c)"
    using ok by (cases "contact_session W (su_host s) (su_port s) (su_user s) (su_pass s) (su_name s)
      (su_email s) (su_message s)") (simp add: contact_deliver_def)
  obtain c1 c2 d where d: "c = Some d"
    "cf_connect_smtps W (su_host s) (su_port s) (lit ''worker.example.com'') = (Ok (), Some c1)"
    "login (cloudflare_env W) (su_user s) (su_pass s) c1 = (Ok (), c2)"
    and valid: "validate_envelope validate_address (su_user s) ?to = Ok ()"
    and wrote: "on_socket [] wr (transport d) = on_socket [] wr (transport c2) @
       envelope_bytes (format_mail_from (su_user s)) ?to @ dot_stuff_and_terminate ?m @
       format_command (lit ''QUIT'')"
    using contact_session_sends [OF assms c] by blast
  note user = valid_sender_clean [OF valid]
  have "crlf_terminated ?m = ?m" by (rule contact_message_terminated)
  then have "server_view (envelope_bytes (format_mail_from (su_user s)) ?to @
      dot_stuff_and_terminate ?m @ format_command (lit ''QUIT'')) =
      Some ([mail_line (su_user s), rcpt_line (lit ''support@example.com'')], ?m,
        format_command (lit ''QUIT''))"
    using server_view_mail [OF valid, of ?m "format_command (lit ''QUIT'')"] by simp
  then show ?thesis
    using True s c d wrote contact_headers_clean [OF user clean] contact_message_read [OF user clean]
    by fastforce
qed (auto split: sum.splits response.splits)

text \<open>A runtime whose sockets answer with a script and remember what they are written.\<close>

definition scripted_workers :: "byte list \<Rightarrow> (byte list \<times> byte list) workers" where
  "scripted_workers script =
     \<lparr>socket_connect = (\<lambda>_ _ _. Ok (script, [])), socket_opened = (\<lambda>s. (Ok (), s)),
      socket_read = (\<lambda>(i, o') n. (Ok (take n i), (drop n i, o'))),
      socket_write_all = (\<lambda>(i, o') b. (Ok (), (i, o' @ b))),
      socket_close = (\<lambda>s. (Ok (), s)), start_tls = id\<rparr>"

lemma scripted_workers_record: "workers_record (scripted_workers script) snd"
  by (auto simp: workers_record_def scripted_workers_def)

lemma scripted_workers_talk:
  assumes "kw_workers W = scripted_workers script"
  shows "client_talk (cloudflare_env W) (on_socket [] fst) (on_socket False (\<lambda>_. True)) (on_socket [] snd)"
proof
  fix t :: "(byte list \<times> byte list) cloudflare" and n :: nat and b
  assume "on_socket False (\<lambda>_. True) t"
  then obtain i u where t: "cf_socket t = Some (i, u)" by (auto simp: on_socket_def split: option.splits)
  show "\<exists>bs t'. t_read (e_ops (cloudflare_env W)) t n = (Ok bs, t') \<and> on_socket False (\<lambda>_. True) t' \<and>
      on_socket [] snd t' = on_socket [] snd t \<and> on_socket [] fst t = bs @ on_socket [] fst t' \<and>
      (bs = [] \<longleftrightarrow> on_socket [] fst t = [])" if "0 < n"
    using t that
    by (auto simp: assms cloudflare_read_def socket_mut_def read_async_io_def scripted_workers_def on_socket_def)
  show "\<exists>t'. t_write_all (e_ops (cloudflare_env W)) t b = (Ok (), t') \<and> on_socket False (\<lambda>_. True) t' \<and>
      on_socket [] fst t' = on_socket [] fst t \<and> on_socket [] snd t' = on_socket [] snd t @ b"
    using t
    by (auto simp: assms cloudflare_write_all_def socket_mut_def write_all_async_io_def scripted_workers_def
        on_socket_def)
  show "\<exists>t'. t_flush (e_ops (cloudflare_env W)) t = (Ok (), t') \<and> on_socket False (\<lambda>_. True) t' \<and>
      on_socket [] fst t' = on_socket [] fst t \<and> on_socket [] snd t' = on_socket [] snd t"
    using t by (auto simp: default_flush_def on_socket_def)
qed

text \<open>A server that takes one message for one recipient, and a submission that passes.\<close>

definition contact_ehlo :: reply_text where
  "contact_ehlo = (250, [lit ''mx'', lit ''AUTH PLAIN''])"

definition contact_transaction :: transaction where
  "contact_transaction =
     \<lparr>to_mail = (250, [lit ''ok'']), to_rcpts = [(250, [lit ''ok''])], to_data = (354, [lit ''ok'']),
      to_message = (250, [lit ''ok''])\<rparr>"

definition contact_script :: "byte list" where
  "contact_script = say (220, [lit ''ok'']) @ say contact_ehlo @ render_reply 235 [lit ''ok''] @
     server_says contact_transaction @ say (221, [lit ''ok'']) @ []"

definition contact_world :: "(byte list \<times> byte list) workers_world" where
  "contact_world = \<lparr>kw_workers = scripted_workers contact_script, kw_features = default_features,
     kw_crypto = toy_crypto, kw_entropy = None\<rparr>"

definition contact_runtime :: worker_runtime where
  "contact_runtime =
     \<lparr>env_secret = (\<lambda>k. Ok (if k = lit ''SMTP_USER'' then lit ''site@b'' else lit ''p'')),
      env_var = (\<lambda>k. Ok (if k = lit ''SMTP_PORT'' then lit ''465'' else lit ''mx'')),
      post_form = (\<lambda>_ _ _. Ok \<lparr>sv_success = True, sv_error_codes = []\<rparr>)\<rparr>"

definition contact_form :: "str \<Rightarrow> form_entry option" where
  "contact_form =
     map_of [(lit ''cf-turnstile-response'', FieldEntry (lit ''t'')), (lit ''name'', FieldEntry (lit ''Ann'')),
       (lit ''email'', FieldEntry (lit ''ann@b'')),
       (lit ''message'', FieldEntry (lit ''Bcc: x@y'' @ [LF, 46, LF]))]"

definition contact_request :: form_request where
  "contact_request =
     \<lparr>rq_is_post = True, rq_form_data = Ok contact_form, rq_header = (\<lambda>_. Ok None)\<rparr>"

definition contact_submission :: submission where
  "contact_submission =
     \<lparr>su_host = lit ''mx'', su_port = 465, su_user = lit ''site@b'', su_pass = lit ''p'',
      su_name = lit ''Ann'', su_email = lit ''ann@b'', su_message = lit ''Bcc: x@y'' @ [LF, 46, LF]\<rparr>"

lemma contact_fields:
  "form_field contact_form (lit ''website'') = []"
  "form_field contact_form (lit ''cf-turnstile-response'') = lit ''t''"
  "form_field contact_form (lit ''name'') = lit ''Ann''"
  "form_field contact_form (lit ''email'') = lit ''ann@b''"
  "form_field contact_form (lit ''message'') = lit ''Bcc: x@y'' @ [LF, 46, LF]"
  by (simp_all add: form_field_def contact_form_def lit_def)

lemma contact_settings:
  "env_secret contact_runtime (lit ''SMTP_USER'') = Ok (lit ''site@b'')"
  "env_secret contact_runtime (lit ''SMTP_PASS'') = Ok (lit ''p'')"
  "env_var contact_runtime (lit ''SMTP_HOST'') = Ok (lit ''mx'')"
  "env_var contact_runtime (lit ''SMTP_PORT'') = Ok (lit ''465'')"
  "\<exists>k. env_secret contact_runtime (lit ''TURNSTILE_SECRET'') = Ok k"
  "verify_challenge contact_runtime k token ip = Ok \<lparr>sv_success = True, sv_error_codes = []\<rparr>"
  by (simp_all add: contact_runtime_def verify_challenge_def lit_def)

lemma contact_admitted: "admit contact_runtime contact_request = Inr contact_submission"
proof -
  obtain k where "env_secret contact_runtime (lit ''TURNSTILE_SECRET'') = Ok k"
    using contact_settings(5) by blast
  moreover have "parse_uint 65535 (lit ''465'') = Some 465"
    by (simp add: parse_uint_def lit_def is_ascii_digit_def)
  moreover have "validate_address (lit ''ann@b'') = Ok ()" by code_simp
  moreover have "\<not> has_line_break (lit ''Ann'')" "\<not> has_line_break (lit ''ann@b'')" "lit ''t'' \<noteq> []"
    by (simp_all add: has_line_break_def lit_def)
  ultimately show ?thesis
    by (simp add: admit_def try_rt_def contact_request_def contact_fields contact_settings
        contact_submission_def)
qed

lemma contact_lines: "list_all line_ok [lit ''ok'', lit ''mx'', lit ''AUTH PLAIN'']"
  by (simp add: line_ok_def valid_utf8_ascii is_ascii_def lit_def MAX_REPLY_LINE_LEN_def)

lemma contact_delivered:
  assumes "validate_envelope validate_address user [lit ''support@example.com''] = Ok ()"
    and "validate_credentials default_features auth_mechanism.Plain user pass = Ok ()"
  shows "contact_deliver contact_world host port user pass name email message = Ok ()"
proof -
  let ?env = "cloudflare_env contact_world" and ?to = "[lit ''support@example.com'']"
  let ?b = "contact_message user name email (normalize_crlf message)"
  let ?t = "from_socket (contact_script, [] :: byte list)" and ?dm = "lit ''worker.example.com''"
  let ?rest = "render_reply 235 [lit ''ok''] @ server_says contact_transaction @ say (221, [lit ''ok'']) @ []"
  have K: "kw_workers contact_world = scripted_workers contact_script"
    and f: "e_features ?env = default_features"
    by (simp_all add: contact_world_def cloudflare_env_def)
  note talk = scripted_workers_talk [OF K]
  have srv: "accepts (220, [lit ''ok''])" "accepts contact_ehlo" "accepting ?to contact_transaction"
    "sayable (221, [lit ''ok''])"
    using contact_lines
    by (simp_all add: accepts_def sayable_def accepting_def contact_ehlo_def contact_transaction_def
        MAX_REPLY_LINES_def)
  have hello: "[lit ''ok''] \<noteq> []" "list_all line_ok [lit ''ok'']" "length [lit ''ok''] \<le> MAX_REPLY_LINES"
    using contact_lines by (simp_all add: MAX_REPLY_LINES_def)
  have t: "on_socket False (\<lambda>_. True) ?t" "on_socket [] fst ?t = say (220, [lit ''ok'']) @ say contact_ehlo @ ?rest"
    by (simp_all add: from_socket_def on_socket_def contact_script_def)
  have dm: "validate_ehlo_domain ?dm = Ok ()" by code_simp
  have mech: "select_auth_mechanism default_features (drop 1 (snd contact_ehlo)) = Some auth_mechanism.Plain"
    and adv: "ehlo_advertises_auth (drop 1 (snd contact_ehlo)) (mechanism_name auth_mechanism.Plain)"
    by code_simp+
  let ?c0 = "ehlo_client (heard False contact_ehlo)
    (told [Connected, GreetingReceived (code_of_text (220, [lit ''ok'']))]
      ((client_new ?t ?dm default_policy [])\<lparr>state := Ehlo\<rparr>))"
  obtain c w where c: "connect ?env ?t ?dm = (Ok (), c)"
    and at: "follows (on_socket [] fst) (on_socket False (\<lambda>_. True)) (on_socket [] snd) ?c0 ?rest w c"
    using client_talk.connect_completes [OF talk t srv(1,2) dm]
    by (auto simp: holds_def split: prod.splits sum.splits)
  have c0: "state ?c0 = Authentication" "policy ?c0 = default_policy"
    "capabilities ?c0 = drop 1 (snd contact_ehlo)"
    by (simp_all add: ehlo_client_def on_event_def told_def heard_def client_new_def store_capabilities_def)
  have "capabilities c = capabilities ?c0" using at unfolding follows_def quiet_def by blast
  then have login: "login ?env user pass c = login_with ?env auth_mechanism.Plain user pass c"
    using mech c0(3) f by (simp add: login_def)
  obtain c1 c2 w' where d: "login_with ?env auth_mechanism.Plain user pass c = (Ok (), c1)"
    "\<exists>r. send_mail ?env user ?to ?b c1 = (Ok r, c2)" "state c2 = MailFrom"
    and at2: "follows (on_socket [] fst) (on_socket False (\<lambda>_. True)) (on_socket [] snd) c2
      (say (221, [lit ''ok'']) @ []) w' c2"
    by (rule client_talk.mail_talk [OF talk at c0(1) hello srv(3) _ assms(1) _ c0(2)])
       (use adv c0(3) f assms(2) in auto)
  have "fst (quit ?env c2) = Ok ()"
    using client_talk.quit_talk [OF talk at2 _ srv(4)] d(3)
    by (auto simp: K cloudflare_close_def socket_mut_def scripted_workers_def on_socket_def
        split: option.splits)
  moreover have "cf_connect_smtps contact_world host port ?dm = (Ok (), Some c)"
    using c by (simp add: cf_connect_smtps_def cf_connect_implicit_tls_def K scripted_workers_def from_socket_def)
  ultimately show ?thesis
    using login d(1,2) by (auto simp: contact_deliver_def contact_session_def Let_def)
qed

theorem contact_form_headers_witness:
  "(\<exists>m. handle contact_world contact_runtime contact_request = Ok (ResponseOk m)) \<and>
   (\<exists>bytes message body. server_view bytes =
       Some ([lit ''MAIL FROM:<site@b>'', lit ''RCPT TO:<support@example.com>''], message, lit ''QUIT'' @ CRLF) \<and>
     read_message message = (contact_headers (lit ''site@b'') (lit ''Ann'') (lit ''ann@b''), body))"
proof -
  have ok: "validate_envelope validate_address (lit ''site@b'') [lit ''support@example.com''] = Ok ()"
    "validate_credentials default_features auth_mechanism.Plain (lit ''site@b'') (lit ''p'') = Ok ()"
    by code_simp+
  have m: "\<exists>m. handle contact_world contact_runtime contact_request = Ok (ResponseOk m)"
    using contact_delivered [OF ok] by (simp add: handle_def contact_admitted) (simp add: contact_submission_def)
  have sub: "su_user contact_submission = lit ''site@b''" "su_name contact_submission = lit ''Ann''"
    "su_email contact_submission = lit ''ann@b''"
    by (simp_all add: contact_submission_def)
  have "workers_record (kw_workers contact_world) snd"
    by (simp add: contact_world_def scripted_workers_record)
  from contact_form_headers [OF this, of contact_runtime contact_request]
  have "\<exists>bytes message body. server_view bytes =
      Some ([mail_line (lit ''site@b''), rcpt_line (lit ''support@example.com'')], message,
        format_command (lit ''QUIT'')) \<and>
      read_message message = (contact_headers (lit ''site@b'') (lit ''Ann'') (lit ''ann@b''), body)"
    using m by (elim exE) (simp add: contact_admitted sub, blast)
  moreover have "mail_line (lit ''site@b'') = lit ''MAIL FROM:<site@b>''"
    "rcpt_line (lit ''support@example.com'') = lit ''RCPT TO:<support@example.com>''"
    by (simp_all add: mail_line_def rcpt_line_def lit_def)
  ultimately show ?thesis using m by (simp add: format_command_def)
qed

text \<open>
  What the verification service reads is what the handler meant: the form body it is sent has
  exactly the three fields with the values given, whatever bytes they hold.
\<close>

theorem siteverify_fields_read:
  "form_pairs (siteverify_body secret token ip) =
     [(lit ''secret'', secret), (lit ''response'', token), (lit ''remoteip'', ip)]"
proof -
  have amp: "38 \<notin> set (lit k @ 61 # urlencode v)" if "k \<in> {''secret'', ''response'', ''remoteip''}" for k v
    using that urlencode_clean [of v] by (auto simp: lit_def)
  have eq: "split_once 61 (lit k @ 61 # urlencode v) = Some (lit k, urlencode v)"
    if "k \<in> {''secret'', ''response'', ''remoteip''}" for k v
    using that by (auto simp: lit_def intro!: split_once_append)
  have "siteverify_body secret token ip =
      (lit ''secret'' @ 61 # urlencode secret) @ 38 # (lit ''response'' @ 61 # urlencode token) @ 38 #
      (lit ''remoteip'' @ 61 # urlencode ip)"
    by (simp add: siteverify_body_def lit_def)
  then have "split_char 38 (siteverify_body secret token ip) =
      [lit ''secret'' @ 61 # urlencode secret, lit ''response'' @ 61 # urlencode token,
       lit ''remoteip'' @ 61 # urlencode ip]"
    using amp by (simp only: split_char_append split_char_id insert_iff simp_thms)
  then show ?thesis by (simp add: form_pairs_def eq percent_roundtrip)
qed

text \<open>
  Line breaks are normalized and nothing else changes: the result has only CRLF line breaks, the
  lines are those of the input, and an input that has only CRLF line breaks is left as it is.
\<close>

theorem normalize_crlf_exact:
  "crlf_only (normalize_crlf s) \<and> text_lines (normalize_crlf s) = text_lines s \<and>
   (normalize_crlf s = s \<longleftrightarrow> crlf_only s)"
  using normalize_crlf_only [of s] normalize_crlf_id [of s] text_lines_normalize [of s]
  by (metis normalize_crlf_bytes)

end
