(* ===== verification/Smoke.thy ===== *)
theory Smoke
  imports Utf8 Errors
begin

text \<open>
  The scripted responder of the on-target harnesses (\<open>tools/smoke/src/lib.rs\<close>) and the assertions
  on what it has recorded.

  The responder is generic in its stream; a stream is a parameter that reads one byte at a time,
  writes and flushes.  Its loops follow what the peer sends and may not end: they are partial.
  Certificates and the TLS server are parameters.  Error texts that print values for \<open>Debug\<close> are
  given by their parts.
\<close>

datatype leg = PlainLeg | TlsLeg

record recording =
  rec_lines :: "(leg \<times> str) list"
  rec_body :: str

definition recording_default :: recording where
  "recording_default = \<lparr>rec_lines = [], rec_body = []\<rparr>"

definition commands :: "recording \<Rightarrow> str list" where
  "commands r = map snd (rec_lines r)"

definition push_line :: "leg \<Rightarrow> str \<Rightarrow> recording \<Rightarrow> recording" where
  "push_line l s r = r\<lparr>rec_lines := rec_lines r @ [(l, s)]\<rparr>"

subsection \<open>Lines\<close>

record 's byte_io =
  get_byte :: "'s \<Rightarrow> (std_error + byte option) \<times> 's"
  put_bytes :: "'s \<Rightarrow> byte list \<Rightarrow> (std_error + unit) \<times> 's"
  flush_bytes :: "'s \<Rightarrow> (std_error + unit) \<times> 's"

text \<open>\<open>ErrorKind::Other\<close> and \<open>ErrorKind::Interrupted\<close>.\<close>

definition other_error :: "str \<Rightarrow> std_error" where
  "other_error msg = StdIoError (OtherKind 0) msg None"

definition interrupted :: "std_error \<Rightarrow> bool" where
  "interrupted e = (case e of StdIoError k _ _ \<Rightarrow> k = OtherKind 1 | OtherError _ _ \<Rightarrow> False)"

definition MAX_SMOKE_LINE :: nat where "MAX_SMOKE_LINE = 64 * 1024"

text \<open>The loop of \<open>read_line\<close>, with its local \<open>line\<close>.\<close>

partial_function (option) smoke_read_loop ::
    "'s byte_io \<Rightarrow> byte list \<Rightarrow> 's \<Rightarrow> ((std_error + str option) \<times> 's) option" where
  "smoke_read_loop I line s =
     (case get_byte I s of
        (Ok None, s) \<Rightarrow>
          Some (Ok (if line = [] then None else Some (from_utf8_lossy line)), s)
      | (Ok (Some b), s) \<Rightarrow>
          if b = LF then
            (let line = (if line \<noteq> [] \<and> last line = CR then butlast line else line)
             in Some (Ok (Some (from_utf8_lossy line)), s))
          else
            (let line = line @ [b]
             in if MAX_SMOKE_LINE < length line then Some (Err (other_error (lit ''line too long'')), s)
                else smoke_read_loop I line s)
      | (Err e, s) \<Rightarrow> if interrupted e then smoke_read_loop I line s else Some (Err e, s))"

definition smoke_read_line :: "'s byte_io \<Rightarrow> 's \<Rightarrow> ((std_error + str option) \<times> 's) option" where
  "smoke_read_line I s = smoke_read_loop I [] s"

definition smoke_write_all :: "'s byte_io \<Rightarrow> byte list \<Rightarrow> 's \<Rightarrow> (std_error + unit) \<times> 's" where
  "smoke_write_all I b s = and_then (put_bytes I s b) (\<lambda>_ s. flush_bytes I s)"

definition reply_lines :: "string list \<Rightarrow> byte list" where
  "reply_lines ls = concat (map (\<lambda>l. lit l @ CRLF) ls)"

subsection \<open>The script\<close>

definition GREETING_LINES :: "byte list" where
  "GREETING_LINES = reply_lines [''220 smoke.test ESMTP ready'']"

definition EHLO_PLAIN_LINES :: "byte list" where
  "EHLO_PLAIN_LINES =
     reply_lines [''250-smoke.test'', ''250-PIPELINING'', ''250-STARTTLS'', ''250 SMTPUTF8'']"

definition EHLO_TLS_LINES :: "byte list" where
  "EHLO_TLS_LINES =
     reply_lines [''250-smoke.test'', ''250-PIPELINING'', ''250-AUTH PLAIN LOGIN'', ''250 SMTPUTF8'']"

definition greet :: "'s byte_io \<Rightarrow> 's \<Rightarrow> (std_error + unit) \<times> 's" where
  "greet I s = smoke_write_all I GREETING_LINES s"

partial_function (option) smoke_read_data ::
    "'s byte_io \<Rightarrow> str \<Rightarrow> 's \<Rightarrow> ((std_error + str) \<times> 's) option" where
  "smoke_read_data I body s =
     (case smoke_read_line I s of
        None \<Rightarrow> None
      | Some (Err e, s) \<Rightarrow> Some (Err e, s)
      | Some (Ok None, s) \<Rightarrow> Some (Ok body, s)
      | Some (Ok (Some line), s) \<Rightarrow>
          if line = [DOT] then Some (Ok body, s) else smoke_read_data I (body @ line @ CRLF) s)"

text \<open>What the responder answers to a line, and whether the session goes on.\<close>

datatype smoke_action = Answer "byte list" | TakeData | Finish "byte list"

definition smoke_action_for :: "str \<Rightarrow> smoke_action" where
  "smoke_action_for line =
     (if starts_with line (lit ''EHLO'') then Answer EHLO_TLS_LINES
      else if starts_with line (lit ''AUTH PLAIN'') then
        Answer (reply_lines [''235 2.7.0 Authentication successful''])
      else if starts_with line (lit ''MAIL FROM'') then Answer (reply_lines [''250 2.1.0 Ok''])
      else if starts_with line (lit ''RCPT TO'') then Answer (reply_lines [''250 2.1.5 Ok''])
      else if line = lit ''DATA'' then TakeData
      else if line = lit ''QUIT'' then Finish (reply_lines [''221 2.0.0 Bye''])
      else Finish (reply_lines [''500 5.5.2 Command unrecognized'']))"

partial_function (option) smtp_phase ::
    "'s byte_io \<Rightarrow> recording \<Rightarrow> 's \<Rightarrow> ((std_error + unit) \<times> recording \<times> 's) option" where
  "smtp_phase I r s =
     (case smoke_read_line I s of
        None \<Rightarrow> None
      | Some (Err e, s) \<Rightarrow> Some (Err e, r, s)
      | Some (Ok None, s) \<Rightarrow> Some (Ok (), r, s)
      | Some (Ok (Some line), s) \<Rightarrow>
          (let r = push_line TlsLeg line r
           in case smoke_action_for line of
                Answer b \<Rightarrow>
                  (case smoke_write_all I b s of
                     (Err e, s) \<Rightarrow> Some (Err e, r, s)
                   | (Ok _, s) \<Rightarrow> smtp_phase I r s)
              | Finish b \<Rightarrow>
                  (case smoke_write_all I b s of (e, s) \<Rightarrow> Some (e, r, s))
              | TakeData \<Rightarrow>
                  (case smoke_write_all I (reply_lines [''354 End data with <CR><LF>.<CR><LF>'']) s of
                     (Err e, s) \<Rightarrow> Some (Err e, r, s)
                   | (Ok _, s) \<Rightarrow>
                       (case smoke_read_data I [] s of
                          None \<Rightarrow> None
                        | Some (Err e, s) \<Rightarrow> Some (Err e, r, s)
                        | Some (Ok body, s) \<Rightarrow>
                            (case smoke_write_all I (reply_lines [''250 2.0.0 OK: queued as SMOKE0001'']) s of
                               (Err e, s) \<Rightarrow> Some (Err e, r\<lparr>rec_body := body\<rparr>, s)
                             | (Ok _, s) \<Rightarrow> smtp_phase I (r\<lparr>rec_body := body\<rparr>) s)))))"

subsection \<open>Serving\<close>

datatype serve_error =
    GreetingFailed std_error | PlaintextReadFailed std_error | ClosedBeforeStarttls
  | EhloReplyFailed std_error | StarttlsReplyFailed std_error | UnexpectedPlaintext str
  | ServerConnectionFailed str | TlsLegFailed std_error

text \<open>The plaintext leg after the greeting, up to STARTTLS.\<close>

partial_function (option) plaintext_leg ::
    "'s byte_io \<Rightarrow> recording \<Rightarrow> 's \<Rightarrow> ((serve_error + unit) \<times> recording \<times> 's) option" where
  "plaintext_leg I r s =
     (case smoke_read_line I s of
        None \<Rightarrow> None
      | Some (Err e, s) \<Rightarrow> Some (Err (PlaintextReadFailed e), r, s)
      | Some (Ok None, s) \<Rightarrow> Some (Err ClosedBeforeStarttls, r, s)
      | Some (Ok (Some line), s) \<Rightarrow>
          (let r = push_line PlainLeg line r
           in if starts_with line (lit ''EHLO'') then
                (case smoke_write_all I EHLO_PLAIN_LINES s of
                   (Err e, s) \<Rightarrow> Some (Err (EhloReplyFailed e), r, s)
                 | (Ok _, s) \<Rightarrow> plaintext_leg I r s)
              else if line = lit ''STARTTLS'' then
                (case smoke_write_all I (reply_lines [''220 2.0.0 Ready to start TLS'']) s of
                   (Err e, s) \<Rightarrow> Some (Err (StarttlsReplyFailed e), r, s)
                 | (Ok _, s) \<Rightarrow> Some (Ok (), r, s))
              else Some (Err (UnexpectedPlaintext line), r, s)))"

text \<open>\<open>T\<close> reads and writes the TLS session that \<open>accept\<close> starts on the socket.\<close>

definition tls_leg ::
    "'s byte_io \<Rightarrow> 't byte_io \<Rightarrow> ('s \<Rightarrow> str + 't) \<Rightarrow> bool \<Rightarrow> recording \<Rightarrow> 's \<Rightarrow>
     ((serve_error + unit) \<times> recording) option" where
  "tls_leg P T accept upgrading r sock =
     (case accept sock of
        Err e \<Rightarrow> Some (Err (ServerConnectionFailed e), r)
      | Ok tls \<Rightarrow>
          (case (if upgrading then (Ok (), tls) else greet T tls) of
             (Err e, tls) \<Rightarrow> Some (Err (GreetingFailed e), r)
           | (Ok _, tls) \<Rightarrow>
               map_option (\<lambda>(e, r, tls). (map_err TlsLegFailed e, r)) (smtp_phase T r tls)))"

definition serve_inner ::
    "'s byte_io \<Rightarrow> 't byte_io \<Rightarrow> ('s \<Rightarrow> str + 't) \<Rightarrow> bool \<Rightarrow> recording \<Rightarrow> 's \<Rightarrow>
     ((serve_error + unit) \<times> recording) option" where
  "serve_inner P T accept upgrading r sock =
     (if upgrading then
        (case greet P sock of
           (Err e, sock) \<Rightarrow> Some (Err (GreetingFailed e), r)
         | (Ok _, sock) \<Rightarrow>
             (case plaintext_leg P r sock of
                None \<Rightarrow> None
              | Some (Err e, r, sock) \<Rightarrow> Some (Err e, r)
              | Some (Ok _, r, sock) \<Rightarrow> tls_leg P T accept upgrading r sock))
      else tls_leg P T accept upgrading r sock)"

definition serve ::
    "'s byte_io \<Rightarrow> 't byte_io \<Rightarrow> ('s \<Rightarrow> str + 't) \<Rightarrow> bool \<Rightarrow> 's \<Rightarrow>
     (recording \<times> (serve_error + unit)) option" where
  "serve P T accept upgrading sock =
     map_option (\<lambda>(e, r). (r, e)) (serve_inner P T accept upgrading recording_default sock)"

definition serve_implicit ::
    "'s byte_io \<Rightarrow> 't byte_io \<Rightarrow> ('s \<Rightarrow> str + 't) \<Rightarrow> 's \<Rightarrow> (recording \<times> (serve_error + unit)) option" where
  "serve_implicit P T accept sock = serve P T accept False sock"

definition serve_starttls ::
    "'s byte_io \<Rightarrow> 't byte_io \<Rightarrow> ('s \<Rightarrow> str + 't) \<Rightarrow> 's \<Rightarrow> (recording \<times> (serve_error + unit)) option" where
  "serve_starttls P T accept sock = serve P T accept True sock"

subsection \<open>Assertions\<close>

record expected =
  exp_ehlo :: str
  exp_from :: str
  exp_rcpt :: str

datatype check_error =
    WrongNumber nat nat "str list" | WrongCommand nat str str "str list" | NotDotStuffed str
  | HasTerminator | LegsNotPlain "leg list" | LegsNotTls "leg list" | PlaintextCommands
  | SpokenAfterRefusal "str list" "str list" | CommandAfterHandshake

definition ehlo_line :: "str \<Rightarrow> str" where "ehlo_line d = lit ''EHLO '' @ d"

definition expected_commands :: "bool \<Rightarrow> expected \<Rightarrow> str list" where
  "expected_commands upgrading e =
     (if upgrading then [ehlo_line (exp_ehlo e), lit ''STARTTLS''] else []) @
     [ehlo_line (exp_ehlo e), lit ''AUTH PLAIN'', lit ''MAIL FROM:<'' @ exp_from e @ lit ''>'',
      lit ''RCPT TO:<'' @ exp_rcpt e @ lit ''>'', lit ''DATA'', lit ''QUIT'']"

definition command_ok :: "str \<Rightarrow> str \<Rightarrow> bool" where
  "command_ok want got =
     (if want = lit ''AUTH PLAIN'' then starts_with got (lit ''AUTH PLAIN '') else got = want)"

text \<open>The loop over the commands, counting from \<open>i\<close>.\<close>

fun check_commands :: "str list \<Rightarrow> nat \<Rightarrow> (str \<times> str) list \<Rightarrow> check_error + unit" where
  "check_commands all i [] = Ok ()"
| "check_commands all i ((want, got) # ps) =
     (if command_ok want got then check_commands all (i + 1) ps
      else Err (WrongCommand i want got all))"

definition check_legs :: "bool \<Rightarrow> recording \<Rightarrow> check_error + unit" where
  "check_legs upgrading r =
     (let legs = map fst (rec_lines r)
      in if upgrading then
           if legs ! 0 \<noteq> PlainLeg \<or> legs ! 1 \<noteq> PlainLeg then Err (LegsNotPlain legs)
           else if list_ex (\<lambda>l. l \<noteq> TlsLeg) (drop 2 legs) then Err (LegsNotTls legs)
           else Ok ()
         else if list_ex (\<lambda>(l, _). l \<noteq> TlsLeg) (rec_lines r) then Err PlaintextCommands else Ok ())"

definition check_session :: "recording \<Rightarrow> bool \<Rightarrow> expected \<Rightarrow> check_error + unit" where
  "check_session r upgrading e =
     (let cmds = commands r; want = expected_commands upgrading e
      in if length cmds \<noteq> length want then Err (WrongNumber (length want) (length cmds) cmds)
         else case check_commands cmds 0 (zip want cmds) of
                Err x \<Rightarrow> Err x
              | Ok _ \<Rightarrow>
                  if \<not> contains (rec_body r) (lit ''..leading-dot'' @ CRLF) then
                    Err (NotDotStuffed (rec_body r))
                  else if contains (rec_body r) (CRLF @ [DOT] @ CRLF) then Err HasTerminator
                  else check_legs upgrading r)"

definition check_refused :: "recording \<Rightarrow> bool \<Rightarrow> str \<Rightarrow> check_error + unit" where
  "check_refused r upgrading ehlo =
     (let allowed = (if upgrading then [ehlo_line ehlo, lit ''STARTTLS''] else [])
      in if commands r \<noteq> allowed then Err (SpokenAfterRefusal allowed (commands r))
         else if list_ex (\<lambda>(l, _). l = TlsLeg) (rec_lines r) then Err CommandAfterHandshake
         else Ok ())"

subsection \<open>What the assertions assert\<close>

lemma check_commands_ok:
  "check_commands all i ps = Ok () \<longleftrightarrow> list_all (\<lambda>(want, got). command_ok want got) ps"
  by (induction all i ps rule: check_commands.induct) auto

lemma command_ok_auth: "command_ok (lit ''AUTH PLAIN'') got \<longleftrightarrow> (\<exists>p. got = lit ''AUTH PLAIN '' @ p)"
  by (simp add: command_ok_def starts_with_iff)

lemma command_ok_other: "want \<noteq> lit ''AUTH PLAIN'' \<Longrightarrow> command_ok want got \<longleftrightarrow> got = want"
  by (simp add: command_ok_def)

lemma command_ok_fixed [simp]:
  "command_ok (ehlo_line d) got \<longleftrightarrow> got = ehlo_line d"
  "command_ok (lit ''STARTTLS'') got \<longleftrightarrow> got = lit ''STARTTLS''"
  "command_ok (lit ''MAIL FROM:<'' @ x) got \<longleftrightarrow> got = lit ''MAIL FROM:<'' @ x"
  "command_ok (lit ''RCPT TO:<'' @ x) got \<longleftrightarrow> got = lit ''RCPT TO:<'' @ x"
  "command_ok (lit ''DATA'') got \<longleftrightarrow> got = lit ''DATA''"
  "command_ok (lit ''QUIT'') got \<longleftrightarrow> got = lit ''QUIT''"
  by (rule command_ok_other; simp add: ehlo_line_def lit_def)+

text \<open>The commands of a session in order, with the client's answer to \<open>AUTH PLAIN\<close>.\<close>

definition session_lines :: "bool \<Rightarrow> expected \<Rightarrow> str \<Rightarrow> str list" where
  "session_lines upgrading e auth =
     (if upgrading then [ehlo_line (exp_ehlo e), lit ''STARTTLS''] else []) @
     [ehlo_line (exp_ehlo e), lit ''AUTH PLAIN '' @ auth, lit ''MAIL FROM:<'' @ exp_from e @ lit ''>'',
      lit ''RCPT TO:<'' @ exp_rcpt e @ lit ''>'', lit ''DATA'', lit ''QUIT'']"

definition session_legs :: "bool \<Rightarrow> leg list" where
  "session_legs upgrading = (if upgrading then [PlainLeg, PlainLeg] else []) @ replicate 6 TlsLeg"

lemma expected_commands_match:
  "length cmds = length (expected_commands u e) \<and>
     check_commands all 0 (zip (expected_commands u e) cmds) = Ok () \<longleftrightarrow>
   (\<exists>auth. cmds = session_lines u e auth)"
proof -
  have matched: "length cmds = length want \<and> list_all (\<lambda>(want, got). command_ok want got) (zip want cmds) \<longleftrightarrow>
      list_all2 command_ok want cmds" for want cmds
    by (auto simp: list_all2_iff list_all_iff)
  have six: "list_all2 command_ok (expected_commands False e) cmds \<longleftrightarrow>
      (\<exists>auth. cmds = session_lines False e auth)" for cmds
    by (auto simp: expected_commands_def session_lines_def list_all2_Cons1 command_ok_auth)
  have "expected_commands True e = ehlo_line (exp_ehlo e) # lit ''STARTTLS'' # expected_commands False e"
    and "session_lines True e auth = ehlo_line (exp_ehlo e) # lit ''STARTTLS'' # session_lines False e auth"
    for auth by (simp_all add: expected_commands_def session_lines_def)
  then have "list_all2 command_ok (expected_commands u e) cmds \<longleftrightarrow> (\<exists>auth. cmds = session_lines u e auth)"
    using six by (cases u) (auto simp: list_all2_Cons1)
  then show ?thesis by (simp add: check_commands_ok matched)
qed

lemma check_legs_ok:
  assumes "length (rec_lines r) = length (session_legs u)"
  shows "check_legs u r = Ok () \<longleftrightarrow> map fst (rec_lines r) = session_legs u"
proof -
  have tls: "map fst ls = replicate (length ls) TlsLeg \<longleftrightarrow> \<not> list_ex (\<lambda>(l, _). l \<noteq> TlsLeg) ls"
    for ls :: "(leg \<times> str) list" by (induction ls) auto
  show ?thesis
  proof (cases u)
    case False
    then show ?thesis
      using assms tls [of "rec_lines r"] by (simp add: check_legs_def session_legs_def Let_def)
  next
    case True
    then have "2 \<le> length (rec_lines r)" "length (rec_lines r) = 8"
      using assms by (simp_all add: session_legs_def)
    then obtain a b ls where ls: "rec_lines r = a # b # ls" "length ls = 6"
      by (cases "rec_lines r"; cases "tl (rec_lines r)") auto
    have "list_ex (\<lambda>l. l \<noteq> TlsLeg) (map fst ls) = list_ex (\<lambda>(l, _). l \<noteq> TlsLeg) ls"
      by (induction ls) auto
    with tls [of ls] have "map fst ls = replicate 6 TlsLeg \<longleftrightarrow> \<not> list_ex (\<lambda>l. l \<noteq> TlsLeg) (map fst ls)"
      by (simp only: ls(2) simp_thms)
    moreover have "session_legs True = [PlainLeg, PlainLeg] @ replicate 6 TlsLeg"
      by (simp only: session_legs_def if_True)
    ultimately show ?thesis
      using True by (auto simp: check_legs_def Let_def ls)
  qed
qed

lemma lines_length:
  "length (session_lines u e auth) = length (expected_commands u e)"
  "length (session_legs u) = length (expected_commands u e)"
  by (simp_all add: session_lines_def expected_commands_def session_legs_def)

subsection \<open>What the responder records\<close>

lemma set_from_utf8_lossy: "set (from_utf8_lossy bs) \<subseteq> set bs \<union> {0xEF, 0xBF, 0xBD}"
proof (induction bs rule: from_utf8_lossy.induct)
  case (1 bs)
  show ?case
  proof (cases "bs = []")
    case True
    then show ?thesis by (simp add: from_utf8_lossy.simps)
  next
    case False
    obtain ok n where st: "utf8_step bs = (ok, n)" by fastforce
    have "set (from_utf8_lossy (drop n bs)) \<subseteq> set (drop n bs) \<union> {0xEF, 0xBF, 0xBD}"
      using 1 False st by simp
    moreover have "set (drop n bs) \<subseteq> set bs" "set (take n bs) \<subseteq> set bs"
      by (simp_all add: set_drop_subset set_take_subset)
    ultimately show ?thesis
      using False st by (subst from_utf8_lossy.simps) auto
  qed
qed

lemma lossy_no_LF: "LF \<notin> set bs \<Longrightarrow> LF \<notin> set (from_utf8_lossy bs)"
  using set_from_utf8_lossy [of bs] by auto

lemma smoke_read_loop_line:
  assumes "smoke_read_loop I acc s = Some y" and "LF \<notin> set acc"
  shows "case y of (Ok (Some l), _) \<Rightarrow> LF \<notin> set l | _ \<Rightarrow> True"
proof (rule mp [OF smoke_read_loop.raw_induct
    [where P = "\<lambda>I acc s y. LF \<notin> set acc \<longrightarrow> (case y of (Ok (Some l), _) \<Rightarrow> LF \<notin> set l | _ \<Rightarrow> True)",
     OF _ assms(1)] assms(2)], goal_cases)
  case (1 rd I acc s y)
  show ?case
  proof
    assume acc: "LF \<notin> set acc"
    have strip: "LF \<notin> set (from_utf8_lossy (butlast acc))"
      using acc by (auto intro!: lossy_no_LF dest: in_set_butlastD)
    show "case y of (Ok (Some l), _) \<Rightarrow> LF \<notin> set l | _ \<Rightarrow> True"
      using 1(2) acc strip
      by (auto simp: Let_def lossy_no_LF split: prod.splits sum.splits option.splits if_splits
            dest!: 1(1) [rule_format])
  qed
qed

lemma smoke_read_line_line:
  "smoke_read_line I s = Some (Ok (Some l), s') \<Longrightarrow> LF \<notin> set l"
  using smoke_read_loop_line [of I "[]" s] by (fastforce simp: smoke_read_line_def)

text \<open>Lines as the responder stores them, none of them the end of the data.\<close>

definition crlf_text :: "str list \<Rightarrow> str" where
  "crlf_text ls = concat (map (\<lambda>l. l @ CRLF) ls)"

definition body_line :: "str \<Rightarrow> bool" where
  "body_line l \<longleftrightarrow> LF \<notin> set l \<and> l \<noteq> [DOT]"

definition body_text :: "str \<Rightarrow> bool" where
  "body_text b \<longleftrightarrow> (\<exists>ls. b = crlf_text ls \<and> list_all body_line ls)"

lemma crlf_text_simps [simp]:
  "crlf_text [] = []" "crlf_text (l # ls) = l @ CRLF @ crlf_text ls"
  "crlf_text (ls @ ms) = crlf_text ls @ crlf_text ms"
  by (simp_all add: crlf_text_def)

lemma body_text_Nil [simp]: "body_text []"
  by (auto simp: body_text_def intro: exI [of _ "[]"])

lemma body_text_snoc: "body_text b \<Longrightarrow> body_line l \<Longrightarrow> body_text (b @ l @ CRLF)"
  unfolding body_text_def by clarify (rule_tac x = "ls @ [l]" in exI, simp)

lemma first_LF:
  "x @ LF # z = l @ LF # z' \<Longrightarrow> LF \<notin> set x \<Longrightarrow> LF \<notin> set l \<Longrightarrow> x = l \<and> z = z'"
proof (induction x arbitrary: l)
  case Nil
  then show ?case by (cases l) auto
next
  case (Cons a x)
  then show ?case by (cases l) auto
qed

lemma end_in_line:
  assumes "DOT # CR # LF # y = m @ CR # LF # z" and "LF \<notin> set m"
  shows "m = [DOT]"
proof (cases m)
  case (Cons a n)
  then show ?thesis using assms by (cases n; cases "tl n") auto
qed (use assms in simp)

lemma crlf_text_no_end:
  "list_all body_line ls \<Longrightarrow> x @ LF # DOT # CR # LF # y \<noteq> crlf_text ls"
proof (induction ls arbitrary: x)
  case (Cons l ls)
  have l: "LF \<notin> set (l @ [CR])" and ls: "list_all body_line ls"
    using Cons(2) by (simp_all, simp add: body_line_def)
  have no_end: "DOT # CR # LF # y \<noteq> crlf_text ls"
    using ls end_in_line by (cases ls) (auto simp: body_line_def)
  show ?case
  proof
    assume "x @ LF # DOT # CR # LF # y = crlf_text (l # ls)"
    then have eq: "x @ LF # DOT # CR # LF # y = (l @ [CR]) @ LF # crlf_text ls" by simp
    show False
    proof (cases "LF \<in> set x")
      case True
      then obtain x1 x2 where x: "x = x1 @ LF # x2" "LF \<notin> set x1"
        by (auto dest: split_list_first)
      have "x1 @ LF # x2 @ LF # DOT # CR # LF # y = (l @ [CR]) @ LF # crlf_text ls"
        using eq by (simp only: x(1) append.simps append_assoc)
      then have "x2 @ LF # DOT # CR # LF # y = crlf_text ls"
        using first_LF [OF _ x(2) l] by blast
      then show False using Cons(1) [OF ls] by blast
    next
      case False
      then show False using first_LF [OF eq False l] no_end by blast
    qed
  qed
qed (simp add: crlf_text_def)

lemma body_text_no_end: "body_text b \<Longrightarrow> \<not> contains b (CRLF @ [DOT] @ CRLF)"
  using crlf_text_no_end [where x = "_ @ [CR]"] by (force simp: body_text_def contains_iff)

lemma smoke_read_data_text:
  assumes "smoke_read_data I b s = Some y" and "body_text b"
  shows "case y of (Ok body, _) \<Rightarrow> body_text body | _ \<Rightarrow> True"
proof (rule mp [OF smoke_read_data.raw_induct
    [where P = "\<lambda>I b s y. body_text b \<longrightarrow> (case y of (Ok body, _) \<Rightarrow> body_text body | _ \<Rightarrow> True)",
     OF _ assms(1)] assms(2)], goal_cases)
  case (1 rd I b s y)
  show ?case
  proof
    assume b: "body_text b"
    have "body_text (b @ l @ CRLF)" if "smoke_read_line I s = Some (Ok (Some l), s')" "l \<noteq> [DOT]" for l s'
      using that b by (intro body_text_snoc) (simp_all add: body_line_def smoke_read_line_line)
    then show "case y of (Ok body, _) \<Rightarrow> body_text body | _ \<Rightarrow> True"
      using 1(2) b by (auto split: option.splits prod.splits sum.splits if_splits
          dest!: 1(1) [rule_format])
  qed
qed

text \<open>What the TLS leg adds: lines of that leg, and a body of data lines.\<close>

definition tls_adds :: "recording \<Rightarrow> recording \<Rightarrow> bool" where
  "tls_adds r r' \<longleftrightarrow> (\<exists>ts. rec_lines r' = rec_lines r @ map (Pair TlsLeg) ts) \<and>
     (body_text (rec_body r) \<longrightarrow> body_text (rec_body r'))"

lemma tls_adds_refl [simp]: "tls_adds r r"
  by (simp add: tls_adds_def exI [of _ "[]"])

lemma tls_adds_trans: "tls_adds r r' \<Longrightarrow> tls_adds r' r'' \<Longrightarrow> tls_adds r r''"
  by (auto simp: tls_adds_def simp flip: map_append)

lemma tls_adds_line [simp]: "tls_adds r (push_line TlsLeg l r)"
  by (auto simp: tls_adds_def push_line_def intro: exI [of _ "[l]"])

lemma tls_adds_body: "tls_adds r r' \<Longrightarrow> body_text b \<Longrightarrow> tls_adds r (r'\<lparr>rec_body := b\<rparr>)"
  by (auto simp: tls_adds_def)

lemma smtp_phase_adds:
  assumes "smtp_phase I r s = Some y"
  shows "tls_adds r (fst (snd y))"
proof (rule smtp_phase.raw_induct [where P = "\<lambda>I r s y. tls_adds r (fst (snd y))", OF _ assms],
    goal_cases)
  case (1 rd I r s y)
  have body: "body_text b" if "smoke_read_data I [] s = Some (Ok b, s')" for s b s'
    using smoke_read_data_text [OF that] by simp
  have rec: "tls_adds r (fst (snd y))" if "rd I r' s = Some y" "tls_adds r r'" for r' s y
    using 1(1) [OF that(1)] that(2) tls_adds_trans by blast
  show ?case
    using 1(2)
    by (auto simp: Let_def tls_adds_body dest!: body rec
          split: option.splits prod.splits sum.splits smoke_action.splits)
qed

text \<open>What the plaintext leg adds, by its result.\<close>

definition plain_adds :: "recording \<Rightarrow> (serve_error + unit) \<times> recording \<times> 's \<Rightarrow> bool" where
  "plain_adds r y \<longleftrightarrow> rec_body (fst (snd y)) = rec_body r \<and>
     (\<exists>es ps. rec_lines (fst (snd y)) = rec_lines r @ map (Pair PlainLeg) (es @ ps) \<and>
        list_all (\<lambda>l. starts_with l (lit ''EHLO'')) es \<and>
        (\<not> isl (fst y) \<longrightarrow> ps = [lit ''STARTTLS'']))"

lemma plain_adds_stop:
  "plain_adds r (Err e, r, s)" "plain_adds r (Err e, push_line PlainLeg l r, s)"
  "plain_adds r (Ok (), push_line PlainLeg (lit ''STARTTLS'') r, s)"
proof -
  show "plain_adds r (Err e, r, s)"
    unfolding plain_adds_def by (intro conjI exI [of _ "[]"]) simp_all
  show "plain_adds r (Err e, push_line PlainLeg l r, s)"
    unfolding plain_adds_def
    by (intro conjI exI [of _ "[]"] exI [of _ "[l]"]) (simp_all add: push_line_def)
  show "plain_adds r (Ok (), push_line PlainLeg (lit ''STARTTLS'') r, s)"
    unfolding plain_adds_def
    by (intro conjI exI [of _ "[]"] exI [of _ "[lit ''STARTTLS'']"]) (simp_all add: push_line_def)
qed

lemma plain_adds_line:
  assumes "plain_adds (push_line PlainLeg l r) y" and "starts_with l (lit ''EHLO'')"
  shows "plain_adds r y"
proof -
  obtain es ps where "rec_body (fst (snd y)) = rec_body r"
    "rec_lines (fst (snd y)) = rec_lines r @ (PlainLeg, l) # map (Pair PlainLeg) (es @ ps)"
    "list_all (\<lambda>l. starts_with l (lit ''EHLO'')) es" "\<not> isl (fst y) \<longrightarrow> ps = [lit ''STARTTLS'']"
    using assms(1) by (auto simp: plain_adds_def push_line_def)
  then show ?thesis
    unfolding plain_adds_def using assms(2) by (intro conjI exI [of _ "l # es"] exI [of _ ps]) simp_all
qed

lemma plaintext_leg_adds:
  assumes "plaintext_leg I r s = Some y"
  shows "plain_adds r y"
proof (rule plaintext_leg.raw_induct [where P = "\<lambda>I r s y. plain_adds r y", OF _ assms], goal_cases)
  case (1 rd I r s y)
  show ?case
    using 1(2) plain_adds_stop plain_adds_line [OF 1(1)]
    by (auto simp: Let_def split: option.splits prod.splits sum.splits if_splits)
qed

lemma tls_leg_adds:
  "tls_leg P T accept u r sock = Some (e, r') \<Longrightarrow> tls_adds r r'"
  by (auto simp: tls_leg_def dest: smtp_phase_adds split: sum.splits prod.splits if_splits)

lemma check_session_iff:
  "check_session r upgrading e = Ok () \<longleftrightarrow>
     (\<exists>auth. rec_lines r = zip (session_legs upgrading) (session_lines upgrading e auth)) \<and>
     (\<exists>a b. rec_body r = a @ lit ''..leading-dot'' @ CRLF @ b) \<and>
     (\<nexists>a b. rec_body r = a @ CRLF @ [DOT] @ CRLF @ b)"
proof -
  have zip: "rec_lines r = zip (session_legs upgrading) (session_lines upgrading e auth) \<longleftrightarrow>
      map fst (rec_lines r) = session_legs upgrading \<and> commands r = session_lines upgrading e auth" for auth
    using zip_map_fst_snd [of "rec_lines r"] lines_length(1) [of upgrading e auth] lines_length(2) [of upgrading e]
    by (auto simp: commands_def)
  have len: "length (rec_lines r) = length (session_legs upgrading)"
    if "commands r = session_lines upgrading e auth" for auth
    using that lines_length(1) [of upgrading e auth] lines_length(2) [of upgrading e] by (metis commands_def length_map)
  show ?thesis
    using expected_commands_match [of "commands r" upgrading e "commands r"]
    unfolding check_session_def Let_def zip
    by (auto simp: contains_iff check_legs_ok dest: len split: sum.splits)
qed

text \<open>What a run records, before the drain that \<open>serve\<close> adds; first the two legs of STARTTLS.\<close>

definition leg_order :: "bool \<Rightarrow> recording \<Rightarrow> bool" where
  "leg_order upgrading r \<longleftrightarrow> (\<exists>es ps ts. rec_lines r = map (Pair PlainLeg) (es @ ps) @ map (Pair TlsLeg) ts \<and>
     list_all (\<lambda>l. starts_with l (lit ''EHLO'')) es \<and>
     (if \<not> upgrading then es @ ps = [] else ts = [] \<or> ps = [lit ''STARTTLS'']))"

lemma starttls_legs:
  assumes leg: "plaintext_leg P recording_default s1 = Some (q, r1, s2)"
    and tls: "\<not> isl q \<Longrightarrow> tls_adds r1 r" "isl q \<Longrightarrow> r = r1"
  shows "body_text (rec_body r) \<and> leg_order True r"
proof -
  obtain es ps where plain: "rec_body r1 = []"
    "rec_lines r1 = map (Pair PlainLeg) (es @ ps)" "list_all (\<lambda>l. starts_with l (lit ''EHLO'')) es"
    "\<not> isl q \<longrightarrow> ps = [lit ''STARTTLS'']"
    using plaintext_leg_adds [OF leg] by (auto simp: plain_adds_def recording_default_def)
  show ?thesis
  proof (cases "isl q")
    case True
    then show ?thesis using tls(2) plain unfolding leg_order_def
      by (intro conjI exI [of _ es] exI [of _ ps] exI [of _ "[]"]) simp_all
  next
    case False
    then obtain ts where "rec_lines r = rec_lines r1 @ map (Pair TlsLeg) ts" "body_text (rec_body r)"
      using plain(1) tls(1) by (auto simp: tls_adds_def)
    then show ?thesis using False plain unfolding leg_order_def
      by (intro conjI exI [of _ es] exI [of _ ps] exI [of _ ts]) simp_all
  qed
qed

lemma serve_inner_records:
  assumes "serve_inner P T accept upgrading recording_default sock = Some (e, r)"
  shows "body_text (rec_body r) \<and> leg_order upgrading r"
proof (cases upgrading)
  case False
  then have "tls_adds recording_default r"
    using assms by (simp add: serve_inner_def tls_leg_adds)
  then show ?thesis
    using False by (auto simp: tls_adds_def recording_default_def leg_order_def)
next
  case True
  obtain g s1 where g: "greet P sock = (g, s1)" by fastforce
  show ?thesis
  proof (cases g)
    case (Inl x)
    then have "r = recording_default" using assms g True by (simp add: serve_inner_def)
    then show ?thesis using True
      by (auto simp: recording_default_def leg_order_def intro!: exI [of _ "[]"])
  next
    case (Inr u)
    then obtain q r1 s2 where leg: "plaintext_leg P recording_default s1 = Some (q, r1, s2)"
      using assms g True by (auto simp: serve_inner_def split: option.splits)
    have "\<not> isl q \<Longrightarrow> tls_adds r1 r" "isl q \<Longrightarrow> r = r1"
      using assms g True Inr leg tls_leg_adds
      by (cases q; fastforce simp: serve_inner_def)+
    from starttls_legs [OF leg this] show ?thesis using True by simp
  qed
qed

subsection \<open>Properties\<close>

text \<open>
  C24: what the responder records, whatever the client does and however the session ends: the
  stored body never holds the end of the data; the lines of the plaintext leg come before those of
  the TLS leg; with implicit TLS there are none, and with STARTTLS there is a TLS leg only after
  plaintext lines that are EHLO commands and then exactly STARTTLS.
\<close>

theorem responder_records:
  "case serve P T accept upgrading sock of
     None \<Rightarrow> True
   | Some (r, result) \<Rightarrow>
       \<not> contains (rec_body r) (CRLF @ [DOT] @ CRLF) \<and>
       (\<exists>es ps ts. rec_lines r = map (Pair PlainLeg) (es @ ps) @ map (Pair TlsLeg) ts \<and>
          list_all (\<lambda>l. starts_with l (lit ''EHLO'')) es \<and>
          (if \<not> upgrading then es @ ps = [] else ts = [] \<or> ps = [lit ''STARTTLS'']))"
proof (cases "serve_inner P T accept upgrading recording_default sock")
  case None
  then show ?thesis by (simp add: serve_def)
next
  case (Some p)
  then have "body_text (rec_body (snd p)) \<and> leg_order upgrading (snd p)"
    by (intro serve_inner_records [of P T accept upgrading sock "fst p"]) simp
  then show ?thesis
    using Some body_text_no_end unfolding leg_order_def by (cases p) (simp add: serve_def)
qed

text \<open>
  What the shared assertion on a refused certificate asserts: nothing at all was spoken with implicit
  TLS, and exactly EHLO and STARTTLS, both on the plaintext leg, with STARTTLS.
\<close>

lemma check_refused_exact:
  "check_refused r upgrading ehlo = Ok () \<longleftrightarrow>
     rec_lines r = (if upgrading then [(PlainLeg, ehlo_line ehlo), (PlainLeg, lit ''STARTTLS'')] else [])"
proof -
  have plain: "map snd ls = cs \<and> \<not> list_ex (\<lambda>(l, _). l = TlsLeg) ls \<longleftrightarrow> ls = map (Pair PlainLeg) cs"
    for ls :: "(leg \<times> str) list" and cs
  proof (induction ls arbitrary: cs)
    case (Cons l ls)
    have "fst l \<noteq> TlsLeg \<longleftrightarrow> fst l = PlainLeg" by (cases "fst l") simp_all
    then show ?case using Cons by (cases cs; cases l) auto
  qed auto
  have "check_refused r upgrading ehlo = Ok () \<longleftrightarrow>
      map snd (rec_lines r) = (if upgrading then [ehlo_line ehlo, lit ''STARTTLS''] else []) \<and>
      \<not> list_ex (\<lambda>(l, _). l = TlsLeg) (rec_lines r)"
    by (simp add: check_refused_def commands_def Let_def)
  then show ?thesis by (simp add: plain)
qed

end
