(* ===== verification/Smoke_Session.thy ===== *)
theory Smoke_Session
  imports Smoke Client_Session
begin

text \<open>
  The client against the scripted responder: the two are run on each other's bytes, the client
  on what the responder says and the responder on what the client writes, and the recording is put
  to the shared assertion.
\<close>

subsection \<open>The responder on given bytes\<close>

text \<open>A stream with what is still to be read and what has been written.\<close>

definition wire_io :: "(byte list \<times> byte list) byte_io" where
  "wire_io =
     \<lparr>get_byte = (\<lambda>(i, o'). case i of [] \<Rightarrow> (Ok None, (i, o')) | b # i \<Rightarrow> (Ok (Some b), (i, o'))),
      put_bytes = (\<lambda>(i, o') b. (Ok (), (i, o' @ b))),
      flush_bytes = (\<lambda>s. (Ok (), s))\<rparr>"

lemma wire_io_simps [simp]:
  "get_byte wire_io ([], o') = (Ok None, ([], o'))"
  "get_byte wire_io (b # i, o') = (Ok (Some b), (i, o'))"
  "smoke_write_all wire_io bs (i, o') = (Ok (), (i, o' @ bs))"
  by (simp_all add: wire_io_def smoke_write_all_def)

lemma wire_read_loop:
  "LF \<notin> set l \<Longrightarrow> length acc + length l \<le> MAX_SMOKE_LINE \<Longrightarrow>
   smoke_read_loop wire_io acc (l @ LF # rest, o') =
     (let line = acc @ l; line = (if line \<noteq> [] \<and> last line = CR then butlast line else line)
      in Some (Ok (Some (from_utf8_lossy line)), (rest, o')))"
proof (induction l arbitrary: acc)
  case Nil
  then show ?case by (subst smoke_read_loop.simps) simp
next
  case (Cons b l)
  then have "smoke_read_loop wire_io (acc @ [b]) (l @ LF # rest, o') =
     (let line = (acc @ [b]) @ l; line = (if line \<noteq> [] \<and> last line = CR then butlast line else line)
      in Some (Ok (Some (from_utf8_lossy line)), (rest, o')))"
    by (intro Cons(1)) simp_all
  moreover have "smoke_read_loop wire_io acc ((b # l) @ LF # rest, o') =
      smoke_read_loop wire_io (acc @ [b]) (l @ LF # rest, o')"
    using Cons(2,3) by (subst smoke_read_loop.simps) (simp add: Let_def)
  ultimately show ?case by simp
qed

definition wire_line :: "str \<Rightarrow> bool" where
  "wire_line l \<longleftrightarrow> LF \<notin> set l \<and> length l < MAX_SMOKE_LINE \<and> valid_utf8 l"

lemma wire_read_line:
  "wire_line l \<Longrightarrow>
   smoke_read_line wire_io (l @ CR # LF # rest, o') = Some (Ok (Some l), (rest, o'))"
  using wire_read_loop [of "l @ [CR]" "[]" rest o']
  by (simp add: smoke_read_line_def wire_line_def Let_def from_utf8_lossy_id butlast_append)

lemma phase_answer:
  assumes "wire_line l" and "smoke_action_for l = Answer b"
  shows "smtp_phase wire_io r (l @ CR # LF # rest, o') =
     smtp_phase wire_io (push_line TlsLeg l r) (rest, o' @ b)"
  by (subst smtp_phase.simps) (simp add: wire_read_line [OF assms(1)] assms(2))

lemma phase_finish:
  assumes "wire_line l" and "smoke_action_for l = Finish b"
  shows "smtp_phase wire_io r (l @ CR # LF # rest, o') =
     Some (Ok (), push_line TlsLeg l r, (rest, o' @ b))"
  by (subst smtp_phase.simps) (simp add: wire_read_line [OF assms(1)] assms(2))

lemma wire_read_data:
  "list_all wire_line ls \<Longrightarrow> [DOT] \<notin> set ls \<Longrightarrow>
   smoke_read_data wire_io body (crlf_text ls @ DOT # CR # LF # rest, o') =
     Some (Ok (body @ crlf_text ls), (rest, o'))"
proof (induction ls arbitrary: body)
  case Nil
  have dot: "wire_line [DOT]"
    by (simp add: wire_line_def MAX_SMOKE_LINE_def valid_utf8_ascii is_ascii_def)
  show ?case
    using wire_read_line [OF dot] by (subst smoke_read_data.simps) simp
next
  case (Cons l ls)
  have l: "wire_line l" "l \<noteq> [DOT]" using Cons(2,3) by auto
  have "smoke_read_data wire_io body (crlf_text (l # ls) @ DOT # CR # LF # rest, o') =
      smoke_read_data wire_io (body @ l @ CRLF) (crlf_text ls @ DOT # CR # LF # rest, o')"
    using l by (subst smoke_read_data.simps) (simp add: wire_read_line)
  then show ?case using Cons by simp
qed

lemma phase_data:
  assumes "wire_line (lit ''DATA'')" and "list_all wire_line ls" and "[DOT] \<notin> set ls"
  shows "smtp_phase wire_io r (lit ''DATA'' @ CR # LF # crlf_text ls @ DOT # CR # LF # rest, o') =
     smtp_phase wire_io ((push_line TlsLeg (lit ''DATA'') r)\<lparr>rec_body := crlf_text ls\<rparr>)
       (rest, o' @ reply_lines [''354 End data with <CR><LF>.<CR><LF>''] @
         reply_lines [''250 2.0.0 OK: queued as SMOKE0001''])"
proof -
  have "smoke_action_for (lit ''DATA'') = TakeData"
    by (simp add: smoke_action_for_def starts_with_def lit_def)
  then show ?thesis
    using assms
    by (subst smtp_phase.simps) (simp add: wire_read_line wire_read_data)
qed

subsection \<open>The client's body on the wire\<close>

definition dotted :: "str \<Rightarrow> str" where
  "dotted l = (if l \<noteq> [] \<and> hd l = DOT then DOT # l else l)"

lemma stuff_in_line:
  "LF \<notin> set l \<Longrightarrow> stuff_loop False prev (l @ CR # LF # rest) = l @ CR # LF # stuff_loop True LF rest"
  by (induction l arbitrary: prev) auto

lemma stuff_line:
  "LF \<notin> set l \<Longrightarrow> stuff_loop True prev (l @ CR # LF # rest) = dotted l @ CR # LF # stuff_loop True LF rest"
  by (cases l) (auto simp: dotted_def stuff_in_line)

lemma stuff_lines:
  "list_all (\<lambda>l. LF \<notin> set l) ls \<Longrightarrow>
   stuff_loop True prev (crlf_text ls) = crlf_text (map dotted ls)"
proof (induction ls arbitrary: prev)
  case (Cons l ls)
  then show ?case using stuff_line [of l prev "crlf_text ls"] by simp
qed simp

lemma ends_crlf_text: "ls \<noteq> [] \<Longrightarrow> ends_with_crlf (crlf_text ls)"
  unfolding ends_with_crlf_iff by (cases ls rule: rev_cases) simp_all

lemma stuffed_lines:
  assumes "list_all (\<lambda>l. LF \<notin> set l) ls" and "ls \<noteq> []"
  shows "dot_stuff_and_terminate (crlf_text ls) = crlf_text (map dotted ls) @ DOT # CRLF"
  using assms ends_crlf_text [of "map dotted ls"]
  by (simp add: dot_stuff_and_terminate_def stuff_lines Let_def)

lemma dotted_line:
  assumes "wire_line l" and "length l + 1 < MAX_SMOKE_LINE"
  shows "wire_line (dotted l)" and "dotted l \<noteq> [DOT]"
proof -
  have "valid_utf8 [DOT]" by (simp add: valid_utf8_ascii is_ascii_def)
  then have "valid_utf8 (DOT # l)"
    using valid_utf8_append [of "[DOT]" l] assms(1) by (simp add: wire_line_def)
  then show "wire_line (dotted l)" using assms by (simp add: wire_line_def dotted_def)
  show "dotted l \<noteq> [DOT]" by (cases l) (auto simp: dotted_def)
qed

subsection \<open>The responder's part\<close>

text \<open>What the responder says inside TLS, as replies.\<close>

definition smoke_caps :: "str list" where
  "smoke_caps = map lit [''PIPELINING'', ''AUTH PLAIN LOGIN'', ''SMTPUTF8'']"

definition smoke_transaction :: transaction where
  "smoke_transaction =
     \<lparr>to_mail = (250, [lit ''2.1.0 Ok'']), to_rcpts = [(250, [lit ''2.1.5 Ok''])],
      to_data = (354, [lit ''End data with <CR><LF>.<CR><LF>'']),
      to_message = (250, [lit ''2.0.0 OK: queued as SMOKE0001''])\<rparr>"

definition after_ehlo :: "byte list" where
  "after_ehlo = render_reply 235 [lit ''2.7.0 Authentication successful''] @
     server_says smoke_transaction @ say (221, [lit ''2.0.0 Bye''])"

lemma smoke_replies:
  "GREETING_LINES = say (220, [lit ''smoke.test ESMTP ready''])"
  "EHLO_TLS_LINES = say (250, lit ''smoke.test'' # smoke_caps)"
  "EHLO_PLAIN_LINES = say (250, map lit [''smoke.test'', ''PIPELINING'', ''STARTTLS'', ''SMTPUTF8''])"
  "reply_lines [''220 2.0.0 Ready to start TLS''] = say (220, [lit ''2.0.0 Ready to start TLS''])"
  "reply_lines [''235 2.7.0 Authentication successful''] =
     render_reply 235 [lit ''2.7.0 Authentication successful'']"
  "reply_lines [''250 2.1.0 Ok''] = say (to_mail smoke_transaction)"
  "reply_lines [''250 2.1.5 Ok''] = concat (map say (to_rcpts smoke_transaction))"
  "reply_lines [''354 End data with <CR><LF>.<CR><LF>''] = say (to_data smoke_transaction)"
  "reply_lines [''250 2.0.0 OK: queued as SMOKE0001''] = say (to_message smoke_transaction)"
  "reply_lines [''221 2.0.0 Bye''] = say (221, [lit ''2.0.0 Bye''])"
  by (simp_all add: GREETING_LINES_def EHLO_TLS_LINES_def EHLO_PLAIN_LINES_def reply_lines_def
        smoke_caps_def smoke_transaction_def say_def code_digits_def lit_def)

lemma smoke_lines_ok:
  "list_all (\<lambda>l. line_ok (lit l)) [''smoke.test ESMTP ready'', ''smoke.test'', ''PIPELINING'',
     ''AUTH PLAIN LOGIN'', ''SMTPUTF8'', ''STARTTLS'', ''2.0.0 Ready to start TLS'',
     ''2.7.0 Authentication successful'', ''2.1.0 Ok'', ''2.1.5 Ok'',
     ''End data with <CR><LF>.<CR><LF>'', ''2.0.0 OK: queued as SMOKE0001'', ''2.0.0 Bye'']"
  by (simp add: line_ok_def lit_def MAX_REPLY_LINE_LEN_def valid_utf8_ascii is_ascii_def)

lemma smoke_accepts:
  "accepts (220, [lit ''smoke.test ESMTP ready''])"
  "accepts (250, lit ''smoke.test'' # smoke_caps)"
  "accepts (250, map lit [''smoke.test'', ''PIPELINING'', ''STARTTLS'', ''SMTPUTF8''])"
  "sayable (220, [lit ''2.0.0 Ready to start TLS''])"
  "sayable (221, [lit ''2.0.0 Bye''])"
  "accepting [a] smoke_transaction"
  using smoke_lines_ok
  by (simp_all add: accepts_def sayable_def MAX_REPLY_LINES_def smoke_caps_def accepting_def
        smoke_transaction_def)

lemma smoke_actions:
  "smoke_action_for (ehlo_line d) = Answer EHLO_TLS_LINES"
  "smoke_action_for (lit ''AUTH PLAIN '' @ p) =
     Answer (reply_lines [''235 2.7.0 Authentication successful''])"
  "smoke_action_for (lit ''MAIL FROM:<'' @ x) = Answer (reply_lines [''250 2.1.0 Ok''])"
  "smoke_action_for (lit ''RCPT TO:<'' @ x) = Answer (reply_lines [''250 2.1.5 Ok''])"
  "smoke_action_for (lit ''QUIT'') = Finish (reply_lines [''221 2.0.0 Bye''])"
  by (simp_all add: smoke_action_for_def starts_with_def lit_def ehlo_line_def)

text \<open>The client's bytes inside TLS, given the lines of its body; the first line is EHLO.\<close>

definition after_ehlo_bytes :: "expected \<Rightarrow> str \<Rightarrow> str list \<Rightarrow> byte list" where
  "after_ehlo_bytes e auth ls =
     crlf_text (tl (butlast (session_lines False e auth))) @ crlf_text (map dotted ls) @
     DOT # CR # LF # lit ''QUIT'' @ CRLF"

definition tls_bytes :: "expected \<Rightarrow> str \<Rightarrow> str list \<Rightarrow> byte list" where
  "tls_bytes e auth ls = ehlo_line (exp_ehlo e) @ CRLF @ after_ehlo_bytes e auth ls"

text \<open>The arguments of a session that the responder can read.\<close>

definition wire_args :: "expected \<Rightarrow> str \<Rightarrow> str list \<Rightarrow> bool" where
  "wire_args e auth ls \<longleftrightarrow> list_all wire_line (session_lines False e auth) \<and>
     list_all (\<lambda>l. wire_line l \<and> length l + 1 < MAX_SMOKE_LINE) ls"

lemma responder_session:
  assumes "wire_args e auth ls"
  shows "smtp_phase wire_io r (tls_bytes e auth ls, o') =
     Some (Ok (), \<lparr>rec_lines = rec_lines r @ map (Pair TlsLeg) (session_lines False e auth),
        rec_body = crlf_text (map dotted ls)\<rparr>,
      ([], o' @ EHLO_TLS_LINES @ after_ehlo))"
proof -
  have "list_all wire_line (session_lines False e auth)" using assms by (simp add: wire_args_def)
  then have w: "wire_line (ehlo_line (exp_ehlo e))" "wire_line (lit ''AUTH PLAIN '' @ auth)"
    "wire_line (lit ''MAIL FROM:<'' @ exp_from e @ lit ''>'')"
    "wire_line (lit ''RCPT TO:<'' @ exp_rcpt e @ lit ''>'')" "wire_line (lit ''DATA'')"
    "wire_line (lit ''QUIT'')"
    by (simp_all add: session_lines_def)
  have ls: "list_all wire_line (map dotted ls)" "[DOT] \<notin> set (map dotted ls)"
    using assms dotted_line by (auto simp: wire_args_def list_all_iff) metis+
  show ?thesis
    unfolding tls_bytes_def after_ehlo_bytes_def session_lines_def after_ehlo_def server_says_def
    using phase_answer [OF w(1) smoke_actions(1)] phase_answer [OF w(2) smoke_actions(2)]
      phase_answer [OF w(3) smoke_actions(3)] phase_answer [OF w(4) smoke_actions(4)]
      phase_data [OF w(5) ls] phase_finish [OF w(6) smoke_actions(5)]
    by (simp add: push_line_def smoke_replies(5-10))
qed

subsection \<open>The client's part\<close>

lemma client_line_bytes:
  assumes "list_all (\<lambda>l. LF \<notin> set l) ls" and "ls \<noteq> []"
  shows "lit ''AUTH PLAIN '' @ auth @ CRLF @
     envelope_bytes (format_mail_from (exp_from e)) [exp_rcpt e] @
     dot_stuff_and_terminate (crlf_text ls) @ format_command (lit ''QUIT'') = after_ehlo_bytes e auth ls"
  using assms
  by (simp add: stuffed_lines ehlo_line_def lit_def envelope_bytes_def after_ehlo_bytes_def
        format_mail_from_def format_rcpt_to_def format_command_def session_lines_def)

lemma smoke_auth_advertised: "ehlo_advertises_auth smoke_caps (mechanism_name Plain)"
  unfolding smoke_caps_def by code_simp

lemma client_session:
  assumes at: "hears c after_ehlo w c" and c: "state c = Authentication"
    "capabilities c = smoke_caps" "policy c = default_policy"
    and ok: "validate_credentials f Plain user pass = Ok ()"
    "validate_envelope validate_address (exp_from e) [exp_rcpt e] = Ok ()"
    and ls: "list_all (\<lambda>l. LF \<notin> set l) ls" "ls \<noteq> []"
  obtains c1 c2 c3 where "login_with (mock_env f k ent um) Plain user pass c = (Ok (), c1)"
    and "send_mail (mock_env f k ent um) (exp_from e) [exp_rcpt e] (crlf_text ls) c1 =
       (Ok (send_outcome_new 250 (lit ''2.0.0 OK: queued as SMOKE0001'')), c2)"
    and "quit (mock_env f k ent um) c2 = (Ok (), c3)"
    and "m_written (transport c3) = w @ after_ehlo_bytes e (build_auth_plain_initial_response user pass) ls"
proof -
  let ?env = "mock_env f k ent um" and ?auth = "build_auth_plain_initial_response user pass"
  let ?hello = "[lit ''2.7.0 Authentication successful'']"
  have hello: "?hello \<noteq> []" "list_all line_ok ?hello" "length ?hello \<le> MAX_REPLY_LINES"
    using smoke_lines_ok by (simp_all add: MAX_REPLY_LINES_def)
  have valid: "validate_credentials (e_features ?env) Plain user pass = Ok ()"
    and adv: "ehlo_advertises_auth (capabilities c) (mechanism_name Plain)"
    using ok(1) c(2) smoke_auth_advertised by (simp_all add: mock_env_def)
  obtain c1 c2 where login: "login_with ?env Plain user pass c = (Ok (), c1)"
    and send: "send_mail ?env (exp_from e) [exp_rcpt e] (crlf_text ls) c1 =
       (Ok (send_outcome_new (code_of_text (to_message smoke_transaction))
          (join [LF] (snd (to_message smoke_transaction)))), c2)"
    and h2: "hears c2 (say (221, [lit ''2.0.0 Bye''])) (w @ lit ''AUTH PLAIN '' @ ?auth @ CRLF @
       envelope_bytes (format_mail_from (exp_from e)) [exp_rcpt e] @ dot_stuff_and_terminate (crlf_text ls)) c2"
    and c2: "state c2 = MailFrom"
    by (rule mock_talk.mail_talk [OF at [unfolded after_ehlo_def] c(1) hello smoke_accepts(6) valid ok(2) adv c(3)])
  from h2 have "hears c2 (say (221, [lit ''2.0.0 Bye'']) @ []) (w @ lit ''AUTH PLAIN '' @ ?auth @ CRLF @
      envelope_bytes (format_mail_from (exp_from e)) [exp_rcpt e] @ dot_stuff_and_terminate (crlf_text ls)) c2"
    by simp
  from mock_talk.quit_talk [OF this _ smoke_accepts(5), where f = f and k = k and ent = ent and um = um]
  obtain d :: "mock client" where d: "m_written (transport d) = w @ after_ehlo_bytes e ?auth ls"
    and quit: "transport (snd (quit ?env c2)) = snd (mock_close (transport d))"
      "fst (quit ?env c2) = map_err Io (fst (mock_close (transport d)))"
    using c2 client_line_bytes [OF ls, of ?auth e] by (auto simp: mock_env_def)
  have "m_written (transport (snd (quit ?env c2))) = w @ after_ehlo_bytes e ?auth ls"
    and "fst (quit ?env c2) = Ok ()"
    using quit d by (simp_all add: mock_close_def)
  then show thesis
    using that [OF login, of c2 "snd (quit ?env c2)"] send
    by (simp add: prod_eq_iff smoke_transaction_def code_of_text_def)
qed

subsection \<open>Both together\<close>

text \<open>What may be sent through the responder.\<close>

definition smoke_mail :: "features \<Rightarrow> expected \<Rightarrow> str \<Rightarrow> str \<Rightarrow> str list \<Rightarrow> bool" where
  "smoke_mail f e user pass ls \<longleftrightarrow>
     validate_ehlo_domain (exp_ehlo e) = Ok () \<and> length (exp_ehlo e) \<le> 65000 \<and>
     validate_address (exp_from e) = Ok () \<and> validate_address (exp_rcpt e) = Ok () \<and>
     validate_credentials f Plain user pass = Ok () \<and> length user + length pass \<le> 45000 \<and>
     list_all (\<lambda>l. LF \<notin> set l \<and> valid_utf8 l \<and> length l \<le> 65000) ls \<and>
     lit ''.leading-dot'' \<in> set ls"

lemma smoke_mail_args:
  assumes "smoke_mail f e user pass ls"
  shows "wire_args e (build_auth_plain_initial_response user pass) ls"
    and "validate_envelope validate_address (exp_from e) [exp_rcpt e] = Ok ()"
    and "list_all (\<lambda>l. LF \<notin> set l) ls" and "ls \<noteq> []"
proof -
  let ?auth = "build_auth_plain_initial_response user pass"
  have ascii: "wire_line (p @ x @ q)"
    if "is_ascii x" "LF \<notin> set x" "length x \<le> 65300" "is_ascii p" "is_ascii q" "LF \<notin> set p" "LF \<notin> set q"
      "length p + length q \<le> 20" for p x q
    using that by (simp add: wire_line_def MAX_SMOKE_LINE_def valid_utf8_ascii is_ascii_def)
  have "is_ascii (exp_ehlo e)" "LF \<notin> set (exp_ehlo e)" "length (exp_ehlo e) \<le> 65300"
    using assms by (auto simp: smoke_mail_def validate_ehlo_domain_def list_ex_iff split: if_splits)
  then have "wire_line (ehlo_line (exp_ehlo e))"
    using ascii [of "exp_ehlo e" "lit ''EHLO ''" "[]"] by (simp add: ehlo_line_def is_ascii_def lit_def)
  moreover have "is_ascii ?auth" "LF \<notin> set ?auth" "length ?auth \<le> 65300"
    using assms base64_encode_clean [of "plain_payload user pass"]
    by (auto simp: build_auth_plain_initial_response_def is_ascii_base64_encode length_base64_encode
          smoke_mail_def plain_payload_def)
  then have "wire_line (lit ''AUTH PLAIN '' @ ?auth)"
    using ascii [of ?auth "lit ''AUTH PLAIN ''" "[]"] by (simp add: is_ascii_def lit_def)
  moreover have adr: "wire_line (p @ a @ lit ''>'')"
    if "validate_address a = Ok ()" "is_ascii p" "LF \<notin> set p" "length p \<le> 12" for a p
    using ascii [of a p "lit ''>''"] that validate_address_Ok [of a]
    by (auto simp: is_ascii_def lit_def)
  have p: "is_ascii (lit ''MAIL FROM:<'')" "LF \<notin> set (lit ''MAIL FROM:<'')"
    "is_ascii (lit ''RCPT TO:<'')" "LF \<notin> set (lit ''RCPT TO:<'')"
    "length (lit ''MAIL FROM:<'') \<le> 12" "length (lit ''RCPT TO:<'') \<le> 12"
    by (simp_all add: is_ascii_def lit_def)
  have "validate_address (exp_from e) = Ok ()" "validate_address (exp_rcpt e) = Ok ()"
    using assms by (simp_all add: smoke_mail_def)
  then have "wire_line (lit ''MAIL FROM:<'' @ exp_from e @ lit ''>'')"
    "wire_line (lit ''RCPT TO:<'' @ exp_rcpt e @ lit ''>'')"
    using adr p by blast+
  moreover have "wire_line (lit ''DATA'')" "wire_line (lit ''QUIT'')"
    by (simp_all add: wire_line_def MAX_SMOKE_LINE_def valid_utf8_ascii is_ascii_def lit_def)
  moreover have "list_all (\<lambda>l. wire_line l \<and> length l + 1 < MAX_SMOKE_LINE) ls"
    using assms by (auto simp: smoke_mail_def list_all_iff wire_line_def MAX_SMOKE_LINE_def)
  ultimately show "wire_args e ?auth ls"
    by (simp add: wire_args_def session_lines_def)
  show "validate_envelope validate_address (exp_from e) [exp_rcpt e] = Ok ()"
    "list_all (\<lambda>l. LF \<notin> set l) ls" "ls \<noteq> []"
    using assms by (auto simp: smoke_mail_def validate_envelope_def list_all_iff)
qed

text \<open>What has been recorded then passes.\<close>

lemma smoke_recording_passes:
  assumes "smoke_mail f e user pass ls"
    and "rec_lines r = zip (session_legs u) (session_lines u e auth)"
    and "rec_body r = crlf_text (map dotted ls)"
  shows "check_session r u e = Ok ()"
proof -
  have "lit ''.leading-dot'' \<in> set ls" using assms(1) by (simp add: smoke_mail_def)
  then obtain xs ys where "ls = xs @ lit ''.leading-dot'' # ys" by (meson split_list)
  then have "rec_body r = crlf_text (map dotted xs) @ lit ''..leading-dot'' @ CRLF @
      crlf_text (map dotted ys)"
    using assms(3) by (simp add: dotted_def lit_def)
  moreover have "body_text (rec_body r)"
    unfolding body_text_def assms(3)
  proof (intro exI [of _ "map dotted ls"] conjI refl)
    show "list_all body_line (map dotted ls)"
      using smoke_mail_args(3) [OF assms(1)]
      by (auto simp: list_all_iff body_line_def dotted_def)
  qed
  then have "\<not> contains (rec_body r) (CRLF @ [DOT] @ CRLF)" by (rule body_text_no_end)
  ultimately show ?thesis
    using assms(2) unfolding check_session_iff contains_iff append_assoc by blast
qed

lemma mock_start:
  "S \<noteq> [] \<Longrightarrow> mock_ready (mock_new [S]) \<and> mock_bytes (mock_new [S]) = S \<and> m_written (mock_new [S]) = []"
  by (simp add: mock_new_def mock_build_def mock_ready_def mock_bytes_def)

lemma session_lines_parts:
  "session_lines True e auth = [ehlo_line (exp_ehlo e), lit ''STARTTLS''] @ session_lines False e auth"
  "zip (session_legs False) (session_lines False e auth) = map (Pair TlsLeg) (session_lines False e auth)"
  "zip (session_legs True) (session_lines True e auth) =
     [(PlainLeg, ehlo_line (exp_ehlo e)), (PlainLeg, lit ''STARTTLS'')] @
     map (Pair TlsLeg) (session_lines False e auth)"
  by (simp_all add: session_lines_def session_legs_def eval_nat_numeral)

text \<open>
  C11: the client passes its own harness with implicit TLS: on what the scripted responder says, it
  connects, logs in, sends and quits without an error; and the responder, run on what the client
  has written, says exactly that, ends without an error, and has recorded a session that the shared
  assertion accepts.
\<close>

theorem harness_accepts_client:
  assumes "smoke_mail f e user pass ls"
  shows "\<exists>c1 c2 c3 c4 r.
     connect (mock_env f k ent um) (mock_new [GREETING_LINES @ EHLO_TLS_LINES @ after_ehlo])
       (exp_ehlo e) = (Ok (), c1) \<and>
     login_with (mock_env f k ent um) Plain user pass c1 = (Ok (), c2) \<and>
     send_mail (mock_env f k ent um) (exp_from e) [exp_rcpt e] (crlf_text ls) c2 =
       (Ok (send_outcome_new 250 (lit ''2.0.0 OK: queued as SMOKE0001'')), c3) \<and>
     quit (mock_env f k ent um) c3 = (Ok (), c4) \<and>
     greet wire_io (m_written (transport c4), []) = (Ok (), (m_written (transport c4), GREETING_LINES)) \<and>
     smtp_phase wire_io recording_default (m_written (transport c4), GREETING_LINES) =
       Some (Ok (), r, ([], GREETING_LINES @ EHLO_TLS_LINES @ after_ehlo)) \<and>
     check_session r False e = Ok ()"
proof -
  let ?env = "mock_env f k ent um" and ?auth = "build_auth_plain_initial_response user pass"
  let ?S = "GREETING_LINES @ EHLO_TLS_LINES @ after_ehlo"
  have "?S \<noteq> []" by (simp add: GREETING_LINES_def reply_lines_def)
  note m = mock_start [OF this]
  have "mock_bytes (mock_new [?S]) = say (220, [lit ''smoke.test ESMTP ready'']) @
      say (250, lit ''smoke.test'' # smoke_caps) @ after_ehlo"
    using m smoke_replies(1,2) by simp
  from mock_talk.connect_completes [OF conjunct1 [OF m] this smoke_accepts(1,2),
      where dm = "exp_ehlo e" and f = f and k = k and ent = ent and um = um]
  obtain c1 where c1: "connect ?env (mock_new [?S]) (exp_ehlo e) = (Ok (), c1)"
    and h: "hears c1 after_ehlo (ehlo_line (exp_ehlo e) @ CRLF) c1"
    and st: "state c1 = Authentication" "capabilities c1 = smoke_caps" "policy c1 = default_policy"
    using assms m
    by (auto simp: smoke_mail_def holds_def follows_def quiet_def ehlo_client_def on_event_def
          told_def store_capabilities_def client_new_def heard_def format_command_arg_def ehlo_line_def
          lit_def split: prod.splits sum.splits)
  have cred: "validate_credentials f Plain user pass = Ok ()" using assms by (simp add: smoke_mail_def)
  obtain c2 c3 c4 where c: "login_with ?env Plain user pass c1 = (Ok (), c2)"
    "send_mail ?env (exp_from e) [exp_rcpt e] (crlf_text ls) c2 =
       (Ok (send_outcome_new 250 (lit ''2.0.0 OK: queued as SMOKE0001'')), c3)"
    "quit ?env c3 = (Ok (), c4)"
    "m_written (transport c4) = (ehlo_line (exp_ehlo e) @ CRLF) @ after_ehlo_bytes e ?auth ls"
    by (rule client_session [OF h st cred smoke_mail_args(2-4) [OF assms], where k = k and ent = ent and um = um])
  then have w: "m_written (transport c4) = tls_bytes e ?auth ls" by (simp add: tls_bytes_def)
  let ?r = "\<lparr>rec_lines = rec_lines recording_default @ map (Pair TlsLeg) (session_lines False e ?auth),
      rec_body = crlf_text (map dotted ls)\<rparr>"
  have "check_session ?r False e = Ok ()"
    by (rule smoke_recording_passes [OF assms])
       (simp_all add: recording_default_def session_lines_parts)
  then have "greet wire_io (tls_bytes e ?auth ls, []) = (Ok (), (tls_bytes e ?auth ls, GREETING_LINES)) \<and>
      smtp_phase wire_io recording_default (tls_bytes e ?auth ls, GREETING_LINES) =
        Some (Ok (), ?r, ([], ?S)) \<and> check_session ?r False e = Ok ()"
    using responder_session [OF smoke_mail_args(1) [OF assms], of recording_default GREETING_LINES]
    by (simp add: greet_def)
  then show ?thesis
    using c1 c(1-3) unfolding w [symmetric] by (intro exI conjI) (assumption | erule conjE)+
qed

definition sample_expected :: expected where
  "sample_expected =
     \<lparr>exp_ehlo = lit ''smoke.example.com'', exp_from = lit ''smoke@example.com'',
      exp_rcpt = lit ''rcpt@example.org''\<rparr>"

lemma sample_smoke_mail:
  "smoke_mail default_features sample_expected (lit ''smoke@example.com'') (lit ''secret'')
     [lit ''Subject: smoke'', [], lit ''first line'', lit ''.leading-dot'', lit ''last line'']"
proof -
  have "validate_ehlo_domain (exp_ehlo sample_expected) = Ok ()"
    "validate_address (exp_from sample_expected) = Ok ()"
    "validate_address (exp_rcpt sample_expected) = Ok ()"
    "validate_credentials default_features Plain (lit ''smoke@example.com'') (lit ''secret'') = Ok ()"
    by code_simp+
  then show ?thesis
    by (simp add: smoke_mail_def valid_utf8_ascii is_ascii_def)
       (simp add: sample_expected_def lit_def valid_utf8_ascii is_ascii_def)
qed

theorem harness_accepts_client_witness:
  "\<exists>(c :: mock client) r. check_session r False sample_expected = Ok () \<and>
     smtp_phase wire_io recording_default (m_written (transport c), GREETING_LINES) =
       Some (Ok (), r, ([], GREETING_LINES @ EHLO_TLS_LINES @ after_ehlo))"
  using harness_accepts_client [OF sample_smoke_mail, of toy_crypto None 0] by blast

text \<open>The plaintext leg on the client's bytes before the upgrade.\<close>

definition plain_bytes :: "expected \<Rightarrow> byte list" where
  "plain_bytes e = ehlo_line (exp_ehlo e) @ CRLF @ lit ''STARTTLS'' @ CRLF"

definition before_tls :: "byte list" where
  "before_tls = GREETING_LINES @ EHLO_PLAIN_LINES @ reply_lines [''220 2.0.0 Ready to start TLS'']"

lemma responder_plain:
  assumes "wire_line (ehlo_line (exp_ehlo e))"
  shows "plaintext_leg wire_io recording_default (plain_bytes e @ rest, GREETING_LINES) =
     Some (Ok (), \<lparr>rec_lines = [(PlainLeg, ehlo_line (exp_ehlo e)), (PlainLeg, lit ''STARTTLS'')],
       rec_body = []\<rparr>, (rest, before_tls))"
proof -
  have st: "wire_line (lit ''STARTTLS'')"
    by (simp add: wire_line_def MAX_SMOKE_LINE_def valid_utf8_ascii is_ascii_def lit_def)
  have leg: "starts_with (ehlo_line d) (lit ''EHLO'')" "\<not> starts_with (lit ''STARTTLS'') (lit ''EHLO'')"
    for d by (simp_all add: starts_with_def lit_def ehlo_line_def)
  have "plaintext_leg wire_io r (lit ''STARTTLS'' @ CR # LF # rest, o') =
      Some (Ok (), push_line PlainLeg (lit ''STARTTLS'') r,
        (rest, o' @ reply_lines [''220 2.0.0 Ready to start TLS'']))" for r o'
    by (subst plaintext_leg.simps) (simp add: wire_read_line [OF st] leg)
  moreover have "plaintext_leg wire_io r (ehlo_line (exp_ehlo e) @ CR # LF # x, o') =
      plaintext_leg wire_io (push_line PlainLeg (ehlo_line (exp_ehlo e)) r) (x, o' @ EHLO_PLAIN_LINES)"
    for r x o'
    by (subst plaintext_leg.simps) (simp add: wire_read_line [OF assms] leg)
  ultimately show ?thesis
    by (simp add: plain_bytes_def before_tls_def push_line_def recording_default_def)
qed

text \<open>The client up to the end of the upgrade, on the responder's plaintext replies.\<close>

lemma client_upgrades:
  assumes "smoke_mail f e user pass ls"
  obtains c1 where
    "connect_starttls (mock_env f k ent um)
       (mock_with_starttls [before_tls] [EHLO_TLS_LINES @ after_ehlo] Succeed) (exp_ehlo e) = (Ok (), c1)"
    "state c1 = Authentication" "capabilities c1 = smoke_caps" "policy c1 = default_policy"
    "hears c1 after_ehlo (ehlo_line (exp_ehlo e) @ CRLF @ format_command (lit ''STARTTLS'') @
       ehlo_line (exp_ehlo e) @ CRLF) c1"
proof -
  let ?env = "mock_env f k ent um"
  let ?t = "mock_with_starttls [before_tls] [EHLO_TLS_LINES @ after_ehlo] Succeed"
  let ?caps = "map lit [''PIPELINING'', ''STARTTLS'', ''SMTPUTF8'']"
  have ne: "[] \<notin> set [before_tls]" "[] \<notin> set [EHLO_TLS_LINES @ after_ehlo]"
    by (simp_all add: before_tls_def GREETING_LINES_def EHLO_TLS_LINES_def reply_lines_def)
  have script: "concat [before_tls] = say (220, [lit ''smoke.test ESMTP ready'']) @
      say (250, lit ''smoke.test'' # ?caps) @ say (220, [lit ''2.0.0 Ready to start TLS''])"
    "concat [EHLO_TLS_LINES @ after_ehlo] = say (250, lit ''smoke.test'' # smoke_caps) @ after_ehlo"
    by (simp_all add: before_tls_def smoke_replies)
  have adv: "ehlo_advertises_starttls (drop 1 (snd (250 :: nat, lit ''smoke.test'' # ?caps)))"
    by simp code_simp
  have ok: "accepts (250, lit ''smoke.test'' # ?caps)" using smoke_accepts(3) by simp
  have dm: "validate_ehlo_domain (exp_ehlo e) = Ok ()" using assms by (simp add: smoke_mail_def)
  obtain c0 c1 where c0: "connect ?env ?t (exp_ehlo e) = (Ok (), c0)" "starttls ?env c0 = (Ok (), c1)"
    and st: "state c1 = Authentication" "capabilities c1 = drop 1 (lit ''smoke.test'' # smoke_caps)"
      "policy c1 = default_policy"
    and h: "hears c1 after_ehlo (format_command_arg (lit ''EHLO'') (exp_ehlo e) @
       format_command (lit ''STARTTLS'') @ format_command_arg (lit ''EHLO'') (exp_ehlo e)) c1"
    by (rule connect_starttls_hears [OF refl ne script smoke_accepts(1) ok smoke_accepts(4) _
          smoke_accepts(2) adv dm, of f k ent um]) auto
  have ehlo: "format_command_arg (lit ''EHLO'') (exp_ehlo e) = ehlo_line (exp_ehlo e) @ CRLF"
    by (simp add: format_command_arg_def ehlo_line_def lit_def)
  show ?thesis
    using that [of c1] c0 st h by (simp add: connect_starttls_def ehlo)
qed

text \<open>The responder on the bytes of both legs.\<close>

lemma responder_starttls:
  assumes "smoke_mail f e user pass ls"
  defines "auth \<equiv> build_auth_plain_initial_response user pass"
  defines "r0 \<equiv> \<lparr>rec_lines = [(PlainLeg, ehlo_line (exp_ehlo e)), (PlainLeg, lit ''STARTTLS'')], rec_body = []\<rparr>"
  defines "r \<equiv> \<lparr>rec_lines = rec_lines r0 @ map (Pair TlsLeg) (session_lines False e auth),
      rec_body = crlf_text (map dotted ls)\<rparr>"
  defines "b \<equiv> tls_bytes e auth ls"
  shows "plaintext_leg wire_io recording_default (plain_bytes e @ b, GREETING_LINES) =
      Some (Ok (), r0, (b, before_tls))"
    and "smtp_phase wire_io r0 (b, []) = Some (Ok (), r, ([], EHLO_TLS_LINES @ after_ehlo))"
    and "serve_starttls wire_io wire_io (\<lambda>(i, _). Ok (i, [])) (plain_bytes e @ b, []) = Some (r, Ok ())"
    and "check_session r True e = Ok ()"
proof -
  note args = smoke_mail_args(1) [OF assms(1)]
  then have "wire_line (ehlo_line (exp_ehlo e))" by (simp add: wire_args_def session_lines_def)
  from responder_plain [OF this, of b]
  show plain: "plaintext_leg wire_io recording_default (plain_bytes e @ b, GREETING_LINES) =
      Some (Ok (), r0, (b, before_tls))" by (simp add: r0_def)
  show tls: "smtp_phase wire_io r0 (b, []) = Some (Ok (), r, ([], EHLO_TLS_LINES @ after_ehlo))"
    using responder_session [OF args, of r0 "[]"] by (simp add: r_def b_def auth_def)
  show "serve_starttls wire_io wire_io (\<lambda>(i, _). Ok (i, [])) (plain_bytes e @ b, []) = Some (r, Ok ())"
    by (simp add: serve_starttls_def serve_def serve_inner_def greet_def plain tls_leg_def tls)
  show "check_session r True e = Ok ()"
  proof (rule smoke_recording_passes [OF assms(1)])
    show "rec_lines r = zip (session_legs True) (session_lines True e auth)"
      unfolding session_lines_parts(3) by (simp add: r_def r0_def)
  qed (simp_all add: r_def auth_def)
qed

text \<open>
  C10: and with STARTTLS: on the responder's greeting, plaintext replies and, after the upgrade, TLS
  replies, the client connects, upgrades, logs in, sends and quits without an error; the responder
  on what the client has written says exactly that on each leg, ends without an error, and has
  recorded a session that the assertion accepts, with nothing but EHLO and STARTTLS in plaintext.
\<close>

theorem harness_accepts_starttls:
  assumes "smoke_mail f e user pass ls"
  shows "\<exists>c1 c2 c3 c4 b r.
     connect_starttls (mock_env f k ent um)
       (mock_with_starttls [before_tls] [EHLO_TLS_LINES @ after_ehlo] Succeed) (exp_ehlo e) = (Ok (), c1) \<and>
     login_with (mock_env f k ent um) Plain user pass c1 = (Ok (), c2) \<and>
     send_mail (mock_env f k ent um) (exp_from e) [exp_rcpt e] (crlf_text ls) c2 =
       (Ok (send_outcome_new 250 (lit ''2.0.0 OK: queued as SMOKE0001'')), c3) \<and>
     quit (mock_env f k ent um) c3 = (Ok (), c4) \<and>
     m_written (transport c4) = plain_bytes e @ b \<and>
     plaintext_leg wire_io recording_default (plain_bytes e @ b, GREETING_LINES) =
       Some (Ok (), \<lparr>rec_lines = take 2 (rec_lines r), rec_body = []\<rparr>, (b, before_tls)) \<and>
     smtp_phase wire_io \<lparr>rec_lines = take 2 (rec_lines r), rec_body = []\<rparr> (b, []) =
       Some (Ok (), r, ([], EHLO_TLS_LINES @ after_ehlo)) \<and>
     serve_starttls wire_io wire_io (\<lambda>(i, _). Ok (i, [])) (m_written (transport c4), []) =
       Some (r, Ok ()) \<and>
     check_session r True e = Ok ()"
proof -
  let ?env = "mock_env f k ent um" and ?auth = "build_auth_plain_initial_response user pass"
  let ?b = "tls_bytes e ?auth ls"
  obtain c1 where c1: "connect_starttls ?env
       (mock_with_starttls [before_tls] [EHLO_TLS_LINES @ after_ehlo] Succeed) (exp_ehlo e) = (Ok (), c1)"
    and st: "state c1 = Authentication" "capabilities c1 = smoke_caps" "policy c1 = default_policy"
    and h: "hears c1 after_ehlo (ehlo_line (exp_ehlo e) @ CRLF @ format_command (lit ''STARTTLS'') @
       ehlo_line (exp_ehlo e) @ CRLF) c1"
    by (rule client_upgrades [OF assms])
  have cred: "validate_credentials f Plain user pass = Ok ()" using assms by (simp add: smoke_mail_def)
  obtain c2 c3 c4 where c: "login_with ?env Plain user pass c1 = (Ok (), c2)"
    "send_mail ?env (exp_from e) [exp_rcpt e] (crlf_text ls) c2 =
       (Ok (send_outcome_new 250 (lit ''2.0.0 OK: queued as SMOKE0001'')), c3)"
    "quit ?env c3 = (Ok (), c4)" and "m_written (transport c4) = (ehlo_line (exp_ehlo e) @ CRLF @
      format_command (lit ''STARTTLS'') @ ehlo_line (exp_ehlo e) @ CRLF) @ after_ehlo_bytes e ?auth ls"
    by (rule client_session [OF h st cred smoke_mail_args(2-4) [OF assms],
          where k = k and ent = ent and um = um])
  then have w: "m_written (transport c4) = plain_bytes e @ ?b"
    by (simp add: tls_bytes_def plain_bytes_def format_command_def)
  let ?plain = "\<lparr>rec_lines = [(PlainLeg, ehlo_line (exp_ehlo e)), (PlainLeg, lit ''STARTTLS'')], rec_body = []\<rparr>"
  let ?r = "\<lparr>rec_lines = rec_lines ?plain @ map (Pair TlsLeg) (session_lines False e ?auth),
      rec_body = crlf_text (map dotted ls)\<rparr>"
  have r0: "\<lparr>rec_lines = take 2 (rec_lines ?r), rec_body = []\<rparr> = ?plain" by simp
  show ?thesis
    using responder_starttls [OF assms]
    by (intro exI [of _ c1] exI [of _ c2] exI [of _ c3] exI [of _ c4] exI [of _ ?b] exI [of _ ?r] conjI)
       (simp_all only: c1 c w r0)
qed

theorem harness_accepts_starttls_witness:
  "\<exists>(c :: mock client) r. check_session r True sample_expected = Ok () \<and>
     serve_starttls wire_io wire_io (\<lambda>(i, _). Ok (i, [])) (m_written (transport c), []) = Some (r, Ok ())"
  using harness_accepts_starttls [OF sample_smoke_mail, of toy_crypto None 0] by blast

end
