(* ===== verification/Smoke_Driver.thy ===== *)
theory Smoke_Driver
  imports Smoke Wasi_Transport
begin

text \<open>
  The driver of the on-target smoke test (\<open>tools/smoke/src/main.rs\<close>), the guest it runs
  (\<open>wasm-smtp-wasi/examples/smoke.rs\<close>), and the certificates and server configuration of the shared
  library (\<open>tools/smoke/src/lib.rs\<close>).

  The guest runs in another process while the responder serves the socket that it connects to; both
  its output and that socket are parameters of the driver, which judges the two when they have
  ended.  A driver whose responder does not end has no outcome: the code waits at most thirty
  seconds for the responder to be done, but then joins its thread, and that wait has no bound.
  Error texts are given by their parts, as in the responder.
\<close>

subsection \<open>Text\<close>

definition trim_start :: "str \<Rightarrow> str" where
  "trim_start s = concat (dropWhile (\<lambda>c. is_whitespace (code_point c)) (chars s))"

definition trim :: "str \<Rightarrow> str" where
  "trim s = trim_end (trim_start s)"

text \<open>
  \<open>str::to_lowercase\<close>.  Beside the ASCII letters, exactly two characters have ASCII letters in their
  lower case: the Kelvin sign and the dotted capital I.  The lower case of the others, which can
  depend on their neighbours, is a parameter.
\<close>

definition lower_at :: "(str list \<Rightarrow> nat \<Rightarrow> str) \<Rightarrow> str list \<Rightarrow> nat \<Rightarrow> str" where
  "lower_at other cs i =
     (case cs ! i of
        [b] \<Rightarrow> [to_ascii_lowercase b]
      | c \<Rightarrow> if c = [0xE2, 0x84, 0xAA] then lit ''k''
            else if c = [0xC4, 0xB0] then lit ''i'' @ [0xCC, 0x87]
            else other cs i)"

definition to_lowercase :: "(str list \<Rightarrow> nat \<Rightarrow> str) \<Rightarrow> str \<Rightarrow> str" where
  "to_lowercase other s = (let cs = chars s in concat (map (lower_at other cs) [0..<length cs]))"

lemma to_lowercase_ascii: "is_ascii s \<Longrightarrow> to_lowercase other s = map to_ascii_lowercase s"
proof -
  assume "is_ascii s"
  then have "map (lower_at other (chars s)) [0..<length (chars s)] = map (\<lambda>b. [to_ascii_lowercase b]) s"
    by (intro nth_equalityI) (simp_all add: chars_ascii lower_at_def)
  then show ?thesis by (simp add: to_lowercase_def Let_def concat_map_singleton)
qed

definition names_any :: "string list \<Rightarrow> str \<Rightarrow> bool" where
  "names_any needles s = list_ex (\<lambda>n. contains s (lit n)) needles"

subsection \<open>Certificates and the server's configuration\<close>

text \<open>\<open>rcgen\<close>'s certificate and key, for the two names.\<close>

definition generate_cert :: "(str list \<Rightarrow> str + (str \<times> str)) \<Rightarrow> str + (str \<times> str)" where
  "generate_cert simple_self_signed =
     map_err (\<lambda>e. lit ''rcgen: '' @ e) (simple_self_signed [lit ''localhost'', lit ''127.0.0.1''])"

record ('der, 'key, 'cfg) server_lib =
  pem_slice_iter :: "str \<Rightarrow> (str + 'der) list"
  key_from_pem_slice :: "str \<Rightarrow> str + 'key"
  default_protocol_versions :: "str + unit"
  with_single_cert :: "'der list \<Rightarrow> 'key \<Rightarrow> str + 'cfg"

fun collect_results :: "('e + 'a) list \<Rightarrow> 'e + 'a list" where
  "collect_results [] = Ok []"
| "collect_results (Inl e # rs) = Err e"
| "collect_results (Inr a # rs) = map_sum id ((#) a) (collect_results rs)"

definition server_config :: "('der, 'key, 'cfg) server_lib \<Rightarrow> str \<Rightarrow> str \<Rightarrow> str + 'cfg" where
  "server_config S cert_pem key_pem =
     (case collect_results (pem_slice_iter S cert_pem) of
        Err e \<Rightarrow> Err (lit ''parsing certificate PEM: '' @ e)
      | Ok certs \<Rightarrow>
          (case key_from_pem_slice S key_pem of
             Err e \<Rightarrow> Err (lit ''parsing key PEM: '' @ e)
           | Ok key \<Rightarrow>
               (case default_protocol_versions S of
                  Err e \<Rightarrow> Err (lit ''rustls protocol versions: '' @ e)
                | Ok _ \<Rightarrow>
                    map_err (\<lambda>e. lit ''rustls server config: '' @ e) (with_single_cert S certs key))))"

subsection \<open>Modes\<close>

definition SMOKE :: expected where
  "SMOKE = \<lparr>exp_ehlo = lit ''smoke.example.com'', exp_from = lit ''smoke@example.com'',
     exp_rcpt = lit ''rcpt@example.org''\<rparr>"

datatype smoke_mode = SmokeImplicit | SmokeStartTls | SmokeUntrusted | SmokeUntrustedStartTls

definition guest_arg :: "smoke_mode \<Rightarrow> str" where
  "guest_arg m = (case m of
     SmokeImplicit \<Rightarrow> lit ''implicit'' | SmokeUntrusted \<Rightarrow> lit ''implicit''
   | SmokeStartTls \<Rightarrow> lit ''starttls'' | SmokeUntrustedStartTls \<Rightarrow> lit ''starttls'')"

definition is_negative :: "smoke_mode \<Rightarrow> bool" where
  "is_negative m = (m = SmokeUntrusted \<or> m = SmokeUntrustedStartTls)"

definition speaks_starttls :: "smoke_mode \<Rightarrow> bool" where
  "speaks_starttls m = (m = SmokeStartTls \<or> m = SmokeUntrustedStartTls)"

primrec mode_name :: "smoke_mode \<Rightarrow> str" where
  "mode_name SmokeImplicit = lit ''implicit''"
| "mode_name SmokeStartTls = lit ''starttls''"
| "mode_name SmokeUntrusted = lit ''untrusted''"
| "mode_name SmokeUntrustedStartTls = lit ''untrusted-starttls''"

subsection \<open>Judging a run\<close>

datatype exit_status = Exited int | Signalled int

definition success :: "exit_status \<Rightarrow> bool" where
  "success s = (s = Exited 0)"

record guest_output =
  out_status :: exit_status
  out_stderr :: "byte list"

datatype untrusted_error =
    AcceptedUntrusted exit_status "str list" | NotTlsError str | SpokeAfter check_error

definition TLS_WORDS :: "string list" where
  "TLS_WORDS = [''certificate'', ''handshake'', ''tls'', ''unknownissuer'', ''invalidcertificate'']"

definition check_untrusted ::
    "(str list \<Rightarrow> nat \<Rightarrow> str) \<Rightarrow> smoke_mode \<Rightarrow> exit_status \<Rightarrow> str \<Rightarrow> recording \<Rightarrow> untrusted_error + unit" where
  "check_untrusted other mode status guest_stderr r =
     (if success status then Err (AcceptedUntrusted status (commands r))
      else if \<not> names_any TLS_WORDS (to_lowercase other guest_stderr) then Err (NotTlsError guest_stderr)
      else map_err SpokeAfter (check_refused r (speaks_starttls mode) (exp_ehlo SMOKE)))"

definition check_smoke :: "smoke_mode \<Rightarrow> recording \<Rightarrow> check_error + unit" where
  "check_smoke mode r = check_session r (mode = SmokeStartTls) SMOKE"

datatype responder_error =
    AcceptFailed str | ServeFailed serve_error | SetBlockingFailed str | NeverConnected

datatype run_failure =
    ResponderFailed responder_error | GuestFailed "str list" | UntrustedFailed untrusted_error
  | SessionFailed check_error

datatype run_error =
    ConfigFailed str | BindFailed str | LocalAddrFailed str | WasmtimeFailed str str
  | RunFailed run_failure exit_status str

definition judge ::
    "(str list \<Rightarrow> nat \<Rightarrow> str) \<Rightarrow> smoke_mode \<Rightarrow> guest_output \<Rightarrow> recording \<times> (responder_error + unit) \<Rightarrow>
     run_error + unit" where
  "judge other mode output served =
     (let (r, result) = served;
          guest_stderr = trim (from_utf8_lossy (out_stderr output));
          ctx = (\<lambda>what. RunFailed what (out_status output) guest_stderr)
      in if is_negative mode then
           map_err (\<lambda>e. ctx (UntrustedFailed e))
             (check_untrusted other mode (out_status output) guest_stderr r)
         else case result of
                Err e \<Rightarrow> Err (ctx (ResponderFailed e))
              | Ok _ \<Rightarrow>
                  if \<not> success (out_status output) then Err (ctx (GuestFailed (commands r)))
                  else map_err (\<lambda>e. ctx (SessionFailed e)) (check_smoke mode r))"

subsection \<open>Running a mode\<close>

text \<open>
  What the driver uses of its host.  Listening gives the port.  Running a program with arguments
  gives its output and what the listener accepts meanwhile, if anything connects.
\<close>

record ('der, 'key, 'cfg, 'sock, 'tls) smoke_host =
  sh_server :: "('der, 'key, 'cfg) server_lib"
  sh_bind :: "str + (str + u16)"
  sh_run :: "str \<Rightarrow> str list \<Rightarrow> (str + guest_output) \<times> (str + 'sock) option"
  sh_plain :: "'sock byte_io"
  sh_tls :: "'tls byte_io"
  sh_accept :: "'cfg \<Rightarrow> 'sock \<Rightarrow> str + 'tls"
  sh_parent :: "str \<Rightarrow> str option"
  sh_wasmtime :: "str option"
  sh_lower :: "str list \<Rightarrow> nat \<Rightarrow> str"

definition wasmtime_program :: "('der, 'key, 'cfg, 'sock, 'tls) smoke_host \<Rightarrow> str" where
  "wasmtime_program H = (case sh_wasmtime H of Some w \<Rightarrow> w | None \<Rightarrow> lit ''wasmtime'')"

definition wasmtime_args ::
    "('der, 'key, 'cfg, 'sock, 'tls) smoke_host \<Rightarrow> str \<Rightarrow> smoke_mode \<Rightarrow> u16 \<Rightarrow> str \<Rightarrow> str list" where
  "wasmtime_args H guest mode port ca_path =
     (let dir = (case sh_parent H ca_path of Some d \<Rightarrow> d | None \<Rightarrow> lit ''/'')
      in map lit [''run'', ''--wasi'', ''inherit-network'', ''--wasi'', ''allow-ip-name-lookup'', ''--dir''] @
         [dir @ lit ''::'' @ dir, guest, guest_arg mode, lit ''127.0.0.1'', show_nat (unat port), ca_path])"

text \<open>The responder's thread; it has no outcome when nothing connects.\<close>

definition responder ::
    "('der, 'key, 'cfg, 'sock, 'tls) smoke_host \<Rightarrow> smoke_mode \<Rightarrow> 'cfg \<Rightarrow> (str + 'sock) option \<Rightarrow>
     (recording \<times> (responder_error + unit)) option" where
  "responder H mode cfg accepted =
     (case accepted of
        None \<Rightarrow> None
      | Some (Err e) \<Rightarrow> Some (recording_default, Err (AcceptFailed e))
      | Some (Ok sock) \<Rightarrow>
          map_option (map_prod id (map_err ServeFailed))
            (if speaks_starttls mode then serve_starttls (sh_plain H) (sh_tls H) (sh_accept H cfg) sock
             else serve_implicit (sh_plain H) (sh_tls H) (sh_accept H cfg) sock))"

definition run_mode ::
    "('der, 'key, 'cfg, 'sock, 'tls) smoke_host \<Rightarrow> smoke_mode \<Rightarrow> str \<Rightarrow> str \<Rightarrow> str \<Rightarrow> str \<Rightarrow>
     (run_error + unit) option" where
  "run_mode H mode guest ca_path cert_pem key_pem =
     (case server_config (sh_server H) cert_pem key_pem of
        Err e \<Rightarrow> Some (Err (ConfigFailed e))
      | Ok cfg \<Rightarrow>
          (case sh_bind H of
             Err e \<Rightarrow> Some (Err (BindFailed e))
           | Ok (Err e) \<Rightarrow> Some (Err (LocalAddrFailed e))
           | Ok (Ok port) \<Rightarrow>
               (case sh_run H (wasmtime_program H) (wasmtime_args H guest mode port ca_path) of
                  (Err e, _) \<Rightarrow> Some (Err (WasmtimeFailed (wasmtime_program H) e))
                | (Ok output, accepted) \<Rightarrow>
                    map_option (judge (sh_lower H) mode output) (responder H mode cfg accepted))))"

subsection \<open>The whole run\<close>

text \<open>The reports, in order; a mode without an outcome leaves the whole run without one.\<close>

fun run_all :: "('m \<Rightarrow> 'r option) \<Rightarrow> 'm list \<Rightarrow> ('m \<times> 'r) list option" where
  "run_all run [] = Some []"
| "run_all run (m # ms) =
     (case run m of
        None \<Rightarrow> None
      | Some r \<Rightarrow> map_option ((#) (m, r)) (run_all run ms))"

definition ALL_MODES :: "smoke_mode list" where
  "ALL_MODES = [SmokeImplicit, SmokeStartTls, SmokeUntrusted, SmokeUntrustedStartTls]"

text \<open>
  \<open>main\<close>: the exit code and the reports.  \<open>first\<close> and \<open>second\<close> are the two certificates made, \<open>write\<close>
  the outcome of writing a file.
\<close>

definition smoke_main ::
    "('der, 'key, 'cfg, 'sock, 'tls) smoke_host \<Rightarrow> str option \<Rightarrow> (str \<Rightarrow> bool) \<Rightarrow>
     str + (str \<times> str) \<Rightarrow> str + (str \<times> str) \<Rightarrow> (str \<Rightarrow> str \<Rightarrow> bool) \<Rightarrow> str \<Rightarrow> str \<Rightarrow>
     (nat \<times> (smoke_mode \<times> (run_error + unit)) list) option" where
  "smoke_main H guest_var exists first second write ca_path other_ca_path =
     (let guest = (case guest_var of Some g \<Rightarrow> g
                   | None \<Rightarrow> lit ''target/wasm32-wasip2/debug/examples/smoke.wasm'')
      in if \<not> exists guest then Some (2, [])
         else case first of
                Err _ \<Rightarrow> Some (2, [])
              | Ok (cert_pem, key_pem) \<Rightarrow>
                  if \<not> write ca_path cert_pem then Some (2, [])
                  else case second of
                         Err _ \<Rightarrow> Some (2, [])
                       | Ok (other_cert_pem, _) \<Rightarrow>
                           if \<not> write other_ca_path other_cert_pem then Some (2, [])
                           else map_option
                             (\<lambda>reports. (if list_ex (\<lambda>(_, r). isl r) reports then 1 else 0, reports))
                             (run_all (\<lambda>mode.
                                run_mode H mode guest (if is_negative mode then other_ca_path else ca_path)
                                  cert_pem key_pem) ALL_MODES))"

subsection \<open>The guest\<close>

datatype guest_error =
    GuestUsage | BadPort | BadCaFile str | BadCert str | CertNotAdded | UnknownMode str
  | GuestSmtp smtp_error

text \<open>The loop over the certificates of the CA file, each parsed and added to the store.\<close>

fun add_ca_certs ::
    "('der, 'store, 'anchor, 'config, 'name) tls_lib \<Rightarrow> (str + 'der) list \<Rightarrow> 'store \<Rightarrow>
     guest_error + 'store" where
  "add_ca_certs L [] roots = Ok roots"
| "add_ca_certs L (Inl e # cs) roots = Err (BadCert e)"
| "add_ca_certs L (Inr der # cs) roots =
     (case store_add L roots der of
        None \<Rightarrow> Err CertNotAdded
      | Some roots \<Rightarrow> add_ca_certs L cs roots)"

definition GUEST_MESSAGE :: str where
  "GUEST_MESSAGE = concat (map (\<lambda>l. lit l @ CRLF)
     [''From: smoke@example.com'', ''To: rcpt@example.org'', ''Subject: smoke'', [], ''first line'',
      ''.leading-dot'', ''last line''])"

text \<open>With a connected client; the error of quitting counts here.\<close>

definition guest_session :: "'t env \<Rightarrow> 't client \<Rightarrow> (smtp_error + unit) \<times> 't client" where
  "guest_session env c =
     and_then (login_with env auth_mechanism.Plain (lit ''smoke@example.com'') (lit ''secret'') c) (\<lambda>_ c.
     and_then (send_mail env (lit ''smoke@example.com'') [lit ''rcpt@example.org''] GUEST_MESSAGE c) (\<lambda>_ c.
       quit env c))"

definition guest_connected ::
    "('der, 'store, 'anchor, 'config, 'name, 'conn, 'h, 'w, 'q, 's) wasi_world \<Rightarrow>
     ((smtp_error + ('conn, 'h, 'config, 'name) wasi_transport client) \<times> 'w) option \<Rightarrow>
     ((guest_error + unit) \<times> ('conn, 'h, 'config, 'name) wasi_transport client option) option" where
  "guest_connected W result =
     (case result of
        None \<Rightarrow> None
      | Some (Err e, w) \<Rightarrow> Some (Err (GuestSmtp e), None)
      | Some (Ok c, w) \<Rightarrow> Some (map_prod (map_err GuestSmtp) Some (guest_session (wasi_env W) c)))"

definition guest_run ::
    "('der, 'store, 'anchor, 'config, 'name, 'conn, 'h, 'w, 'q, 's) wasi_world \<Rightarrow>
     (str \<Rightarrow> str + (str + 'der) list) \<Rightarrow> str list \<Rightarrow> 'w \<Rightarrow>
     ((guest_error + unit) \<times> ('conn, 'h, 'config, 'name) wasi_transport client option) option" where
  "guest_run W pem_file_iter args w =
     (case args of
        [_, mode, host, port, ca_path] \<Rightarrow>
          (case parse_uint 65535 port of
             None \<Rightarrow> Some (Err BadPort, None)
           | Some port \<Rightarrow>
               (case pem_file_iter ca_path of
                  Err e \<Rightarrow> Some (Err (BadCaFile e), None)
                | Ok certs \<Rightarrow>
                    (case add_ca_certs (ww_lib W) certs (store_empty (ww_lib W)) of
                       Err e \<Rightarrow> Some (Err e, None)
                     | Ok roots \<Rightarrow>
                         let options = wasi_with_root_store roots connect_options_default
                         in if mode = lit ''implicit'' then
                              guest_connected W (connect_smtps_with W host (of_nat port)
                                (lit ''smoke.example.com'') options w)
                            else if mode = lit ''starttls'' then
                              guest_connected W (connect_smtp_starttls_with W host (of_nat port)
                                (lit ''smoke.example.com'') options w)
                            else Some (Err (UnknownMode mode), None))))
      | _ \<Rightarrow> Some (Err GuestUsage, None))"

text \<open>\<open>main\<close>: the exit code.\<close>

definition guest_exit :: "guest_error + unit \<Rightarrow> int" where
  "guest_exit r = (if isl r then 1 else 0)"

subsection \<open>What the driver accepts\<close>

lemma judge_negative:
  "is_negative mode \<Longrightarrow>
   judge other mode output served = Ok () \<longleftrightarrow>
     check_untrusted other mode (out_status output) (trim (from_utf8_lossy (out_stderr output)))
       (fst served) = Ok ()"
  by (simp add: judge_def Let_def split: prod.split)

lemma judge_positive:
  "\<not> is_negative mode \<Longrightarrow>
   judge other mode output served = Ok () \<longleftrightarrow>
     snd served = Ok () \<and> success (out_status output) \<and> check_smoke mode (fst served) = Ok ()"
  by (cases served; cases "snd served") (simp_all add: judge_def Let_def)

lemma run_mode_Ok:
  "run_mode H mode guest ca_path cert_pem key_pem = Some (Ok ()) \<longleftrightarrow>
     (\<exists>cfg port output accepted served.
        server_config (sh_server H) cert_pem key_pem = Ok cfg \<and> sh_bind H = Ok (Ok port) \<and>
        sh_run H (wasmtime_program H) (wasmtime_args H guest mode port ca_path) = (Ok output, accepted) \<and>
        responder H mode cfg accepted = Some served \<and> judge (sh_lower H) mode output served = Ok ())"
  by (auto simp: run_mode_def split: sum.splits prod.splits)

text \<open>The driver exits with 0 just if every mode passes, the untrusted ones with the other CA.\<close>

lemma smoke_main_zero:
  assumes "exists guest" and "write ca cert" and "write other_ca other_cert"
  shows "(\<exists>reports. smoke_main H (Some guest) exists (Ok (cert, key)) (Ok (other_cert, other_key)) write
       ca other_ca = Some (0, reports)) \<longleftrightarrow>
     run_mode H SmokeImplicit guest ca cert key = Some (Ok ()) \<and>
     run_mode H SmokeStartTls guest ca cert key = Some (Ok ()) \<and>
     run_mode H SmokeUntrusted guest other_ca cert key = Some (Ok ()) \<and>
     run_mode H SmokeUntrustedStartTls guest other_ca cert key = Some (Ok ())"
proof -
  have ok: "\<not> isl x \<longleftrightarrow> x = Ok ()" for x :: "run_error + unit" by (cases x) simp_all
  show ?thesis
    using assms
    by (auto simp: smoke_main_def Let_def ALL_MODES_def is_negative_def ok split: option.splits if_splits
        intro!: exI [of _ "map (\<lambda>m. (m, Ok ())) ALL_MODES"])
qed

lemma check_smoke_Ok:
  "check_smoke mode r = Ok () \<longleftrightarrow>
     (\<exists>auth. rec_lines r = zip (session_legs (mode = SmokeStartTls))
        (session_lines (mode = SmokeStartTls) SMOKE auth)) \<and>
     contains (rec_body r) (lit ''..leading-dot'' @ CRLF) \<and>
     \<not> contains (rec_body r) (CRLF @ [DOT] @ CRLF)"
  by (simp add: check_smoke_def check_session_iff contains_iff)

lemma check_untrusted_Ok:
  "check_untrusted other mode status err r = Ok () \<longleftrightarrow>
     status \<noteq> Exited 0 \<and> names_any TLS_WORDS (to_lowercase other err) \<and>
     rec_lines r = (if speaks_starttls mode
       then [(PlainLeg, lit ''EHLO smoke.example.com''), (PlainLeg, lit ''STARTTLS'')] else [])"
proof -
  have "ehlo_line (exp_ehlo SMOKE) = lit ''EHLO smoke.example.com''"
    by (simp add: ehlo_line_def SMOKE_def lit_def)
  then show ?thesis by (simp add: check_untrusted_def success_def check_refused_exact)
qed

subsection \<open>Properties\<close>

text \<open>
  When a mode of the smoke test passes.  A positive mode: the responder ended without an error,
  the guest exited with 0, and the recording is exactly the expected session, with a doubled leading
  dot and no end of data in the body.  A negative mode: the guest failed, its error output names a
  certificate or TLS in any letter case, and the responder has seen nothing at all, or with STARTTLS
  exactly EHLO and STARTTLS in plaintext.
\<close>

theorem smoke_verdict:
  "run_mode H mode guest ca_path cert_pem key_pem = Some (Ok ()) \<longleftrightarrow>
     (\<exists>cfg port output accepted r result.
        server_config (sh_server H) cert_pem key_pem = Ok cfg \<and> sh_bind H = Ok (Ok port) \<and>
        sh_run H (wasmtime_program H) (wasmtime_args H guest mode port ca_path) = (Ok output, accepted) \<and>
        responder H mode cfg accepted = Some (r, result) \<and>
        (if mode \<in> {SmokeImplicit, SmokeStartTls}
         then result = Ok () \<and> out_status output = Exited 0 \<and>
           (\<exists>auth. rec_lines r = zip (session_legs (mode = SmokeStartTls))
              (session_lines (mode = SmokeStartTls) SMOKE auth)) \<and>
           contains (rec_body r) (lit ''..leading-dot'' @ CRLF) \<and>
           \<not> contains (rec_body r) (CRLF @ [DOT] @ CRLF)
         else out_status output \<noteq> Exited 0 \<and>
           names_any TLS_WORDS (to_lowercase (sh_lower H) (trim (from_utf8_lossy (out_stderr output)))) \<and>
           rec_lines r = (if mode = SmokeUntrusted then []
             else [(PlainLeg, lit ''EHLO smoke.example.com''), (PlainLeg, lit ''STARTTLS'')])))"
proof -
  have judged: "judge (sh_lower H) mode ran (r, result) = Ok () \<longleftrightarrow>
      (if mode \<in> {SmokeImplicit, SmokeStartTls}
       then result = Ok () \<and> out_status ran = Exited 0 \<and>
         (\<exists>auth. rec_lines r = zip (session_legs (mode = SmokeStartTls))
            (session_lines (mode = SmokeStartTls) SMOKE auth)) \<and>
         contains (rec_body r) (lit ''..leading-dot'' @ CRLF) \<and>
         \<not> contains (rec_body r) (CRLF @ [DOT] @ CRLF)
       else out_status ran \<noteq> Exited 0 \<and>
         names_any TLS_WORDS (to_lowercase (sh_lower H) (trim (from_utf8_lossy (out_stderr ran)))) \<and>
         rec_lines r = (if mode = SmokeUntrusted then []
           else [(PlainLeg, lit ''EHLO smoke.example.com''), (PlainLeg, lit ''STARTTLS'')]))" for ran r result
  proof (cases "is_negative mode")
    case True
    then have "mode \<notin> {SmokeImplicit, SmokeStartTls}" "speaks_starttls mode \<longleftrightarrow> mode \<noteq> SmokeUntrusted"
      by (auto simp: is_negative_def speaks_starttls_def)
    then show ?thesis using judge_negative [OF True] check_untrusted_Ok by simp
  next
    case False
    then have "mode \<in> {SmokeImplicit, SmokeStartTls}" by (cases mode) (simp_all add: is_negative_def)
    then show ?thesis using judge_positive [OF False] check_smoke_Ok [of mode r] by (simp add: success_def)
  qed
  show ?thesis
    unfolding run_mode_Ok split_paired_Ex judged ..
qed

end
