(* ===== verification/Client_Strings.thy ===== *)
theory Client_Strings
  imports Client_Session
begin

text \<open>
  What a server can put into the client: the texts it hears are strings (Rust's \<open>String\<close> is valid
  UTF-8, and slices of one must start and end at characters), and there is a bound on all of them.
\<close>

definition caps_ok :: "'t client \<Rightarrow> bool" where
  "caps_ok c \<longleftrightarrow> list_all received_text (capabilities c) \<and> length (capabilities c) \<le> MAX_REPLY_LINES"

definition caps_keep :: "'t client \<Rightarrow> 't client \<Rightarrow> bool" where
  "caps_keep c d \<longleftrightarrow> (caps_ok c \<longrightarrow> caps_ok d)"

interpretation heard_caps: client_relation env caps_keep for env
  by unfold_locales
     (simp_all add: caps_keep_def caps_ok_def on_event_def compact_rx_def store_capabilities_def)

lemma session_caps:
  assumes "connect_with env t dm options = (Ok (), c0)" and "reachable rc env c0 c"
  shows "caps_ok c"
proof -
  have "caps_ok (client_new t dm (o_policy options) (o_audit options))"
    by (simp add: caps_ok_def client_new_def)
  then show ?thesis
    using heard_caps.R_connect [of t dm options env] heard_caps.R_reachable [OF assms(2)] assms(1)
    by (simp add: caps_keep_def)
qed

subsection \<open>Texts\<close>

lemma valid_LF [simp]: "valid_utf8 [LF]"
  by (simp add: valid_utf8_ascii is_ascii_def)

lemma received_valid: "list_all received_text ls \<Longrightarrow> list_all valid_utf8 ls"
  by (auto simp: list_all_iff received_text_def)

lemma length_join:
  "list_all (\<lambda>l. length l \<le> n) ls \<Longrightarrow> length (join [LF] ls) \<le> length ls * Suc n"
  by (induction "[LF] :: str" ls rule: join.induct) auto

lemma received_joined:
  assumes "received r"
  shows "valid_utf8 (joined_text r) \<and> valid_utf8 (message_text r) \<and> length (joined_text r) \<le> 381824"
proof -
  have "list_all (\<lambda>l. length l \<le> 2982) (r_lines r)"
    using assms by (auto simp: received_def received_text_def list_all_iff)
  then have "length (joined_text r) \<le> length (r_lines r) * 2983"
    using length_join [of 2982 "r_lines r"] by (simp add: joined_text_def)
  also have "\<dots> \<le> 128 * 2983" using assms by (simp add: received_def MAX_REPLY_LINES_def)
  finally show ?thesis
    using assms received_valid [of "r_lines r"]
    by (simp add: received_def valid_message_text joined_text_def valid_utf8_join)
qed

lemma queue_id_valid: "extract_queue_id msg = Some i \<Longrightarrow> is_ascii i \<and> 6 \<le> length i"
proof -
  assume "extract_queue_id msg = Some i"
  then obtain m where "marked_id msg m i"
    using scan_from_sound by (fastforce simp: extract_queue_id_def scan_after_def split: option.splits)
  then show ?thesis
    using queue_id_byte_char by (auto simp: marked_id_def is_ascii_def list_all_iff)
qed

definition outcome_strings :: "send_outcome \<Rightarrow> bool" where
  "outcome_strings out \<longleftrightarrow> valid_utf8 (so_server_message out) \<and> length (so_server_message out) \<le> 381824 \<and>
     (case so_queue_id out of None \<Rightarrow> True | Some i \<Rightarrow> valid_utf8 i \<and> 6 \<le> length i)"

lemma outcome_strings_new:
  "received r \<Longrightarrow> outcome_strings (send_outcome_new n (joined_text r))"
  using received_joined [of r] queue_id_valid [of "joined_text r"]
  by (auto simp: outcome_strings_def send_outcome_new_def valid_utf8_ascii split: option.splits)

lemma expect_class_received: "holds (expect_class env n during c) (\<lambda>r _. received r) (\<lambda>_ _. True)"
  unfolding expect_class_def
  by (cases "read_reply env c"; cases "fst (read_reply env c)")
     (auto simp: abort_with_def dest: read_reply_received)

lemma finish_data_strings: "holds (finish_data env c) (\<lambda>out _. outcome_strings out) (\<lambda>_ _. True)"
  unfolding finish_data_def Let_def
  by (rule holds_and_then [OF expect_class_received])
     (auto simp: emit_def transition_def outcome_strings_new)

lemma ends_strings:
  "(\<And>a d. holds (k a d) (\<lambda>out _. outcome_strings out) (\<lambda>_ _. True)) \<Longrightarrow>
   holds (and_then p k) (\<lambda>out _. outcome_strings out) (\<lambda>_ _. True)"
  by (rule holds_and_then [where R = "\<lambda>_ _. True"]) (auto simp: holds_def split: prod.splits sum.splits)

lemma sent_strings:
  "holds (send_mail env s to b c) (\<lambda>out _. outcome_strings out) (\<lambda>_ _. True)"
  "holds (send_mail_bytes env s to b c) (\<lambda>out _. outcome_strings out) (\<lambda>_ _. True)"
  "holds (send_mail_smtputf8 env s to b c) (\<lambda>out _. outcome_strings out) (\<lambda>_ _. True)"
  unfolding send_mail_def send_mail_bytes_def send_mail_smtputf8_def
  by (intro ends_strings holds_if finish_data_strings | simp add: abort_with_def)+

lemma streamed_strings:
  "send_mail_stream rc env s to body c = Some ((r, d), rest) \<Longrightarrow>
   holds (r, d) (\<lambda>out _. outcome_strings out) (\<lambda>_ _. True)"
proof -
  have end_: "holds (end_stream env st c) (\<lambda>out _. outcome_strings out) (\<lambda>_ _. True)" for st c
    unfolding end_stream_def by (intro ends_strings finish_data_strings)
  have "holds (and_then p (end_stream env)) (\<lambda>out _. outcome_strings out) (\<lambda>_ _. True)" for p
    by (intro ends_strings end_)
  moreover assume "send_mail_stream rc env s to body c = Some ((r, d), rest)"
  ultimately show ?thesis
    by (auto simp: send_mail_stream_def apfst_def map_prod_def split: prod.splits sum.splits) metis
qed

subsection \<open>Properties\<close>

text \<open>
  C26: every text a server makes the client keep or return is a string: at any point of a session the
  advertised capabilities are valid UTF-8, and so are the server's message and the queue id of every
  successful send, in one piece or streamed, whatever bytes the server sends.
\<close>

theorem client_strings_valid:
  fixes c :: "'t client"
  assumes "connect_with env t dm options = (Ok (), c0)" and "reachable rc env c0 c"
  shows "list_all valid_utf8 (capabilities c) \<and>
     (\<forall>out d. send_mail env s to b c = (Ok out, d) \<or> send_mail_bytes env s to b c = (Ok out, d) \<or>
          send_mail_smtputf8 env s to b c = (Ok out, d) \<or>
          (\<exists>rest. send_mail_stream rc env s to body c = Some ((Ok out, d), rest)) \<longrightarrow>
        valid_utf8 (so_server_message out) \<and> list_all valid_utf8 (capabilities d) \<and>
        (case so_queue_id out of None \<Rightarrow> True | Some i \<Rightarrow> valid_utf8 i))"
proof -
  have c: "caps_ok c" by (rule session_caps [OF assms])
  have "caps_ok d \<and> outcome_strings out"
    if "send_mail env s to b c = (Ok out, d) \<or> send_mail_bytes env s to b c = (Ok out, d) \<or>
          send_mail_smtputf8 env s to b c = (Ok out, d) \<or>
          (\<exists>rest. send_mail_stream rc env s to body c = Some ((Ok out, d), rest))" for out d
  proof -
    have "api_step rc env c d"
      using that step_send_mail [of rc env c s to b] step_send_mail_bytes [of rc env c s to b]
        step_send_mail_smtputf8 [of rc env c s to b] step_send_mail_stream [of rc env s to body c]
      by auto
    then have "reachable rc env c0 d" by (rule reach_step [OF assms(2)])
    then show ?thesis
      using session_caps [OF assms(1)] that sent_strings [of env s to b c]
        streamed_strings [of rc env s to body c] by auto
  qed
  moreover have "valid_utf8 (so_server_message out) \<and> list_all valid_utf8 (capabilities d) \<and>
      (case so_queue_id out of None \<Rightarrow> True | Some i \<Rightarrow> valid_utf8 i)"
    if "caps_ok d \<and> outcome_strings out" for out and d :: "'t client"
    using that by (auto simp: caps_ok_def outcome_strings_def received_valid split: option.splits)
  moreover have "list_all valid_utf8 (capabilities c)"
    using c by (simp add: caps_ok_def received_valid)
  ultimately show ?thesis by blast
qed

theorem client_strings_valid_witness:
  "\<exists>c. connect plain_env sample_mock (lit ''c'') = (Ok (), c) \<and> list_all valid_utf8 (capabilities c)"
proof -
  obtain c where c: "connect plain_env sample_mock (lit ''c'') = (Ok (), c)"
    using sample_connected by blast
  then show ?thesis
    using client_strings_valid [OF c [unfolded connect_def]
        reach_start [of slice_read_chunk plain_env c]] by blast
qed

text \<open>
  C25: a server can make the client hold only so much: at any point of a session, over any transport
  whose reads fit their buffer, there are fewer than 7117 bytes in the receive buffer, and at most
  128 capabilities of at most 2982 bytes each; and a reply that is read then has one to 128 lines of
  that size, a code of three digits, and a joined text of at most 381824 bytes.
\<close>

theorem client_memory_bounded:
  assumes "transport_contract (e_ops env)" and "connect_with env t dm options = (Ok (), c0)"
    and "reachable rc env c0 c"
  shows "length (rx_buf c) < 7117 \<and> length (capabilities c) \<le> 128 \<and>
     list_all (\<lambda>l. length l \<le> 2982) (capabilities c) \<and>
     (case read_reply env c of
        (Err e, d) \<Rightarrow> True
      | (Ok r, d) \<Rightarrow> 1 \<le> length (r_lines r) \<and> length (r_lines r) \<le> 128 \<and>
          list_all (\<lambda>l. length l \<le> 2982) (r_lines r) \<and> r_code r < 1000 \<and>
          length (joined_text r) \<le> 381824)"
proof -
  have size: "list_all received_text ls \<Longrightarrow> list_all (\<lambda>l. length l \<le> 2982) ls" for ls
    by (auto simp: list_all_iff received_text_def)
  have "rx_ok c"
    using client_env.session_rx [OF _ assms(2,3)] assms(1) by (simp add: client_env_def)
  then have "length (rx_buf c) < 7117"
    by (auto simp: rx_ok_def RX_BUF_COMPACT_THRESHOLD_def RX_BUF_HARD_LIMIT_def MAX_REPLY_LINE_LEN_def
        READ_CHUNK_def)
  moreover have "length (capabilities c) \<le> 128 \<and> list_all (\<lambda>l. length l \<le> 2982) (capabilities c)"
    using session_caps [OF assms(2,3)] size by (simp add: caps_ok_def MAX_REPLY_LINES_def)
  moreover have "1 \<le> length (r_lines r) \<and> length (r_lines r) \<le> 128 \<and>
      list_all (\<lambda>l. length l \<le> 2982) (r_lines r) \<and> r_code r < 1000 \<and> length (joined_text r) \<le> 381824"
    if "received r" for r
    using that size [of "r_lines r"] received_joined [OF that]
    by (auto simp: received_def MAX_REPLY_LINES_def Suc_le_eq)
  ultimately show ?thesis
    using read_reply_received [of env c] by (auto split: prod.splits sum.splits)
qed

theorem client_memory_bounded_witness:
  "\<exists>c. connect plain_env sample_mock (lit ''c'') = (Ok (), c) \<and> length (capabilities c) \<le> 128"
proof -
  obtain c where c: "connect plain_env sample_mock (lit ''c'') = (Ok (), c)"
    using sample_connected by blast
  moreover have "transport_contract (e_ops plain_env)"
    using mock_contract.transport_contract_axioms by (simp add: mock_env_ops)
  ultimately show ?thesis
    using client_memory_bounded [OF _ c [unfolded connect_def]
        reach_start [of slice_read_chunk plain_env c]] by blast
qed

end
