(* ===== verification/Component_Session.thy ===== *)
theory Component_Session
  imports Component
begin

text \<open>
  A send of the component that succeeds: on a TLS session whose peer answers, against a server that
  accepts.  What rustls does with a session once it is established is a named hypothesis
  (\<open>tls_answers\<close>): reading gives the server's bytes in order, in pieces of any size, and writing and
  flushing succeed.
\<close>

subsection \<open>Delivering to a server that accepts\<close>

text \<open>What the server says from the login on, and what the client writes.\<close>

definition delivery_script :: "str list \<Rightarrow> transaction \<Rightarrow> reply_text \<Rightarrow> byte list" where
  "delivery_script hello tr bye = render_reply 235 hello @ server_says tr @ say bye"

definition delivery_bytes :: "smtp_credentials \<Rightarrow> smtp_message \<Rightarrow> byte list" where
  "delivery_bytes cr m =
     lit ''AUTH PLAIN '' @ build_auth_plain_initial_response (cr_username cr) (cr_password cr) @ CRLF @
     envelope_bytes (format_mail_from (msg_from m)) (msg_to m) @ dot_stuff_and_terminate (msg_raw m) @
     format_command (lit ''QUIT'')"

definition delivery_accepts :: "str list \<Rightarrow> transaction \<Rightarrow> reply_text \<Rightarrow> str list \<Rightarrow> bool" where
  "delivery_accepts hello tr bye to \<longleftrightarrow>
     hello \<noteq> [] \<and> list_all line_ok hello \<and> length hello \<le> MAX_REPLY_LINES \<and>
     accepting to tr \<and> sayable bye \<and> fst bye = 221"

definition delivery_valid :: "features \<Rightarrow> smtp_credentials \<Rightarrow> smtp_message \<Rightarrow> bool" where
  "delivery_valid f cr m \<longleftrightarrow>
     validate_credentials f auth_mechanism.Plain (cr_username cr) (cr_password cr) = Ok () \<and>
     validate_envelope validate_address (msg_from m) (msg_to m) = Ok ()"

context client_talk
begin

lemma deliver_completes:
  assumes at: "at c0 (delivery_script hello tr bye @ s) w c" and c0: "state c0 = Authentication"
    and mech: "select_auth_mechanism (e_features env) (capabilities c0) = Some auth_mechanism.Plain"
    and ok: "delivery_valid (e_features env) cr m" and policy: "policy c0 = default_policy"
    and srv: "delivery_accepts hello tr bye (msg_to m)"
  shows "\<exists>d (e :: 't client). deliver env cr m c = (Ok (code_of_text (to_message tr)), d) \<and>
     ready (transport e) \<and> written (transport e) = w @ delivery_bytes cr m \<and>
     transport d = snd (t_close (e_ops env) (transport e)) \<and> state d = Closed \<and>
     audit d = audit c0 @ AuthCompleted (mechanism_name auth_mechanism.Plain) # events_of tr @
       [MessageAccepted (code_of_text (to_message tr)),
        if isl (fst (t_close (e_ops env) (transport e))) then SessionAborted else QuitCompleted]"
proof -
  let ?u = "cr_username cr" and ?p = "cr_password cr" and ?code = "code_of_text (to_message tr)"
  have hello: "hello \<noteq> []" "list_all line_ok hello" "length hello \<le> MAX_REPLY_LINES"
    and tr: "accepting (msg_to m) tr" and bye: "sayable bye" "fst bye = 221"
    and valid: "validate_credentials (e_features env) auth_mechanism.Plain ?u ?p = Ok ()"
      "validate_envelope validate_address (msg_from m) (msg_to m) = Ok ()"
    using srv ok by (simp_all add: delivery_accepts_def delivery_valid_def)
  have adv: "ehlo_advertises_auth (capabilities c0) (mechanism_name auth_mechanism.Plain)"
    using mech by (simp add: select_auth_mechanism_def split: if_splits)
  have "capabilities c = capabilities c0" using at by (simp add: follows_def quiet_def)
  then have login: "login env ?u ?p c = login_with env auth_mechanism.Plain ?u ?p c"
    using mech by (simp add: login_def Let_def)
  obtain c1 c2 where c: "login_with env auth_mechanism.Plain ?u ?p c = (Ok (), c1)"
    "send_mail env (msg_from m) (msg_to m) (msg_raw m) c1 =
       (Ok (send_outcome_new ?code (join [LF] (snd (to_message tr)))), c2)"
    and at2: "at c2 (say bye @ s) (w @ lit ''AUTH PLAIN '' @ build_auth_plain_initial_response ?u ?p @ CRLF @
      envelope_bytes (format_mail_from (msg_from m)) (msg_to m) @ dot_stuff_and_terminate (msg_raw m)) c2"
    and c2: "state c2 = MailFrom" "audit c2 = audit c0 @ AuthCompleted (mechanism_name auth_mechanism.Plain) #
      events_of tr @ [MessageAccepted ?code]"
    by (rule mail_talk [OF at [unfolded delivery_script_def append_assoc] c0 hello tr valid adv policy])
  have "deliver env cr m c = (Ok ?code, snd (quit env c2))"
    using login c by (simp add: deliver_def send_outcome_new_def Let_def)
  then show ?thesis
    using quit_talk [OF at2 _ bye] c2 by (auto simp: delivery_bytes_def)
qed

end

subsection \<open>A TLS session whose peer answers\<close>

text \<open>
  \<open>inc\<close> is what the server's bytes still are, \<open>rd\<close> that the session is established, and \<open>wr\<close> what has
  been written to it.
\<close>

definition tls_answers ::
    "('der, 'store, 'anchor, 'config, 'name, 'conn, 'h, 'w, 'q, 's) wasi_world \<Rightarrow>
     ('conn \<times> 'h \<Rightarrow> byte list) \<Rightarrow> ('conn \<times> 'h \<Rightarrow> bool) \<Rightarrow> ('conn \<times> 'h \<Rightarrow> byte list) \<Rightarrow> bool" where
  "tls_answers W inc rd wr \<longleftrightarrow>
     (let T = ww_tls W; io = wasi_stream_io (ww_io W)
      in (\<forall>s n. rd s \<longrightarrow> 0 < n \<longrightarrow>
            (\<exists>bs s'. tls_read T io s n = (Ok bs, s') \<and> rd s' \<and> wr s' = wr s \<and>
               inc s = bs @ inc s' \<and> (bs = [] \<longleftrightarrow> inc s = []))) \<and>
         (\<forall>s b. rd s \<longrightarrow>
            (\<exists>s'. tls_write_all T io s b = (Ok (), s') \<and> rd s' \<and> inc s' = inc s \<and> wr s' = wr s @ b)) \<and>
         (\<forall>s. rd s \<longrightarrow>
            (\<exists>s'. tls_flush T io s = (Ok (), s') \<and> rd s' \<and> inc s' = inc s \<and> wr s' = wr s)))"

definition on_session ::
    "'a \<Rightarrow> ('conn \<times> 'h \<Rightarrow> 'a) \<Rightarrow> ('conn, 'h, 'config, 'name) wasi_transport \<Rightarrow> 'a" where
  "on_session z f t = (case wt_inner t of Plain _ \<Rightarrow> z | Tls s \<Rightarrow> f s | NoStream \<Rightarrow> z)"

lemma on_session_Tls [simp]: "wt_inner t = Tls s \<Longrightarrow> on_session z f t = f s"
  by (simp add: on_session_def)

lemma on_session_ready: "on_session False rd t \<longleftrightarrow> (\<exists>s. wt_inner t = Tls s \<and> rd s)"
  by (simp add: on_session_def split: wasi_inner.split)

text \<open>A transport over such a session is a connection that answers.\<close>

lemma tls_talk:
  fixes W :: "('der, 'store, 'anchor, 'config, 'name, 'conn, 'h, 'w, 'q, 's) wasi_world"
  assumes "tls_answers W inc rd wr"
  shows "client_talk (wasi_env W) (on_session [] inc) (on_session False rd) (on_session [] wr)"
proof
  fix t :: "('conn, 'h, 'config, 'name) wasi_transport" and n :: nat
  assume "on_session False rd t" and "0 < n"
  then obtain s where s: "wt_inner t = Tls s" "rd s" by (auto simp: on_session_ready)
  obtain bs s' where "tls_read (ww_tls W) (wasi_stream_io (ww_io W)) s n = (Ok bs, s')" "rd s'"
    "wr s' = wr s" "inc s = bs @ inc s'" "bs = [] \<longleftrightarrow> inc s = []"
    using assms s(2) \<open>0 < n\<close> unfolding tls_answers_def Let_def by metis
  then show "\<exists>bs t'. t_read (e_ops (wasi_env W)) t n = (Ok bs, t') \<and> on_session False rd t' \<and>
      on_session [] wr t' = on_session [] wr t \<and> on_session [] inc t = bs @ on_session [] inc t' \<and>
      (bs = [] \<longleftrightarrow> on_session [] inc t = [])"
    using s(1) by (intro exI [of _ bs] exI [of _ "t\<lparr>wt_inner := Tls s'\<rparr>"])
      (simp add: wasi_transport_read_def on_session_def)
next
  fix t :: "('conn, 'h, 'config, 'name) wasi_transport" and b
  assume "on_session False rd t"
  then obtain s where s: "wt_inner t = Tls s" "rd s" by (auto simp: on_session_ready)
  obtain s' where "tls_write_all (ww_tls W) (wasi_stream_io (ww_io W)) s b = (Ok (), s')" "rd s'"
    "inc s' = inc s" "wr s' = wr s @ b"
    using assms s(2) unfolding tls_answers_def Let_def by metis
  then show "\<exists>t'. t_write_all (e_ops (wasi_env W)) t b = (Ok (), t') \<and> on_session False rd t' \<and>
      on_session [] inc t' = on_session [] inc t \<and> on_session [] wr t' = on_session [] wr t @ b"
    using s(1) by (intro exI [of _ "t\<lparr>wt_inner := Tls s'\<rparr>"])
      (simp add: wasi_transport_write_all_def on_session_def)
next
  fix t :: "('conn, 'h, 'config, 'name) wasi_transport"
  assume "on_session False rd t"
  then obtain s where s: "wt_inner t = Tls s" "rd s" by (auto simp: on_session_ready)
  obtain s' where "tls_flush (ww_tls W) (wasi_stream_io (ww_io W)) s = (Ok (), s')" "rd s'"
    "inc s' = inc s" "wr s' = wr s"
    using assms s(2) unfolding tls_answers_def Let_def by metis
  then show "\<exists>t'. t_flush (e_ops (wasi_env W)) t = (Ok (), t') \<and> on_session False rd t' \<and>
      on_session [] inc t' = on_session [] inc t \<and> on_session [] wr t' = on_session [] wr t"
    using s(1) by (intro exI [of _ "t\<lparr>wt_inner := Tls s'\<rparr>"])
      (simp add: wasi_transport_flush_def on_session_def)
qed

subsection \<open>The whole send\<close>

definition delivery_events :: "transaction \<Rightarrow> audit_event list" where
  "delivery_events tr = AuthCompleted (mechanism_name auth_mechanism.Plain) #
     events_of tr @ [MessageAccepted (code_of_text (to_message tr))]"

definition session_events :: "reply_text \<Rightarrow> transaction \<Rightarrow> audit_event list" where
  "session_events greeting tr =
     [Connected, GreetingReceived (code_of_text greeting), EhloCompleted] @ delivery_events tr"

text \<open>Delivering with a client of such a session.\<close>

lemma session_delivers:
  fixes W :: "('der, 'store, 'anchor, 'config, 'name, 'conn, 'h, 'w, 'q, 's) wasi_world"
  assumes tls: "tls_answers W inc rd wr"
    and at: "follows (on_session [] inc) (on_session False rd) (on_session [] wr) c
       (delivery_script hello tr bye @ rest) w c"
    and c: "state c = Authentication" "policy c = default_policy"
      "select_auth_mechanism (ww_features W) (capabilities c) = Some auth_mechanism.Plain"
    and srv: "delivery_accepts hello tr bye (msg_to m)" and ok: "delivery_valid (ww_features W) cr m"
  shows "\<exists>d s' t'. deliver (wasi_env W) cr m c = (Ok (code_of_text (to_message tr)), d) \<and>
     wt_inner t' = Tls s' \<and> wr s' = w @ delivery_bytes cr m \<and>
     transport d = snd (wasi_transport_close (ww_tls W) (ww_io W) t') \<and> state d = Closed \<and>
     audit d = audit c @ delivery_events tr @
       [if isl (fst (wasi_transport_close (ww_tls W) (ww_io W) t')) then SessionAborted else QuitCompleted]"
proof -
  have feat: "e_features (wasi_env W) = ww_features W" by (simp add: wasi_env_def)
  from client_talk.deliver_completes [OF tls_talk [OF tls] at c(1) _ _ c(2) srv]
  obtain d and e :: "('conn, 'h, 'config, 'name) wasi_transport client"
    where d: "deliver (wasi_env W) cr m c = (Ok (code_of_text (to_message tr)), d)"
      and e: "on_session False rd (transport e)"
        "on_session [] wr (transport e) = w @ delivery_bytes cr m"
      and fin: "transport d = snd (t_close (e_ops (wasi_env W)) (transport e))" "state d = Closed"
        "audit d = audit c @ AuthCompleted (mechanism_name auth_mechanism.Plain) # events_of tr @
         [MessageAccepted (code_of_text (to_message tr)),
          if isl (fst (t_close (e_ops (wasi_env W)) (transport e))) then SessionAborted else QuitCompleted]"
    using c(3) ok unfolding feat by blast
  obtain s' where "wt_inner (transport e) = Tls s'" using e(1) by (auto simp: on_session_ready)
  then show ?thesis
    using d e(2) fin
    by (intro exI [of _ d] exI [of _ s'] exI [of _ "transport e"]) (simp add: delivery_events_def)
qed

subsection \<open>Implicit TLS\<close>

lemma implicit_connects:
  fixes W :: "('der, 'store, 'anchor, 'config, 'name, 'conn, 'h, 'w, 'q, 's) wasi_world"
  assumes tls: "tls_answers W inc rd wr"
    and conn: "connect_implicit_tls W host port options w = Some (Ok t, w')" "wt_inner t = Tls s" "rd s"
    and dm: "validate_ehlo_domain dm = Ok ()"
    and script: "inc s = say greeting @ say ehlo @ rest" and srv: "accepts greeting" "accepts ehlo"
  obtains c where "connect_smtps_with W host port dm options w = Some (Ok c, w')"
    and "follows (on_session [] inc) (on_session False rd) (on_session [] wr) c rest
       (wr s @ format_command_arg (lit ''EHLO'') dm) c"
    and "state c = Authentication" "policy c = default_policy" "capabilities c = drop 1 (snd ehlo)"
    and "audit c = [Connected, GreetingReceived (code_of_text greeting), EhloCompleted]"
proof -
  let ?inc = "on_session [] inc" and ?rd = "on_session False rd" and ?wr = "on_session [] wr"
  have t: "?rd t" "?inc t = say greeting @ say ehlo @ rest" "?wr t = wr s"
    using conn(2,3) script by simp_all
  obtain c where c: "connect (wasi_env W) t dm = (Ok (), c)"
    and at: "follows ?inc ?rd ?wr (ehlo_client (heard False ehlo)
        (told [Connected, GreetingReceived (code_of_text greeting)]
          ((client_new t dm default_policy [])\<lparr>state := Ehlo\<rparr>))) rest
      (wr s @ format_command_arg (lit ''EHLO'') dm) c"
    using client_talk.connect_completes [OF tls_talk [OF tls] t(1,2) srv dm] t(3)
    by (auto simp: holds_def split: prod.splits sum.splits)
  have "connect_smtps_with W host port dm options w = Some (Ok c, w')"
    using conn(1) c by (simp add: connect_smtps_with_def connected_def)
  then show thesis
    using that [of c] at
    by (simp add: follows_def quiet_def ehlo_client_def on_event_def told_def heard_def client_new_def
        store_capabilities_def)
qed

subsection \<open>Properties\<close>

text \<open>
  C16: the component delivers with implicit TLS and the login PLAIN: when the connection is made, the
  TLS session answers, and the server offers PLAIN as the mechanism that is chosen and accepts the
  greeting, EHLO, the login, the sender, every recipient and the message, then sending succeeds with the code of the server's last reply.  Inside the session the client has written EHLO,
  the login, the envelope, the dot-stuffed message and QUIT, in this order and nothing else; then the
  transport is closed, and the audit log has every step.
\<close>

theorem component_completes:
  fixes W :: "('der, 'store, 'anchor, 'config, 'name, 'conn, 'h, 'w, 'q, 's) wasi_world"
  assumes tls: "tls_answers W inc rd wr"
    and conn: "connect_implicit_tls W (cf_host config) (cf_port config) (component_options config) w =
       Some (Ok t, w')" "wt_inner t = Tls s" "rd s"
    and mode: "cf_tls_mode config = Implicit" "validate_ehlo_domain (cf_ehlo_domain config) = Ok ()"
    and script: "inc s = say greeting @ say ehlo @ delivery_script hello tr bye @ rest"
    and srv: "accepts greeting" "accepts ehlo" "delivery_accepts hello tr bye (msg_to m)"
    and mech: "select_auth_mechanism (ww_features W) (drop 1 (snd ehlo)) = Some auth_mechanism.Plain"
    and ok: "delivery_valid (ww_features W) cr m"
  shows "\<exists>d s' t'. send_impl W config cr m w = Some (Ok (code_of_text (to_message tr)), Some d) \<and>
     wr s' = wr s @ format_command_arg (lit ''EHLO'') (cf_ehlo_domain config) @ delivery_bytes cr m \<and>
     wt_inner t' = Tls s' \<and> transport d = snd (wasi_transport_close (ww_tls W) (ww_io W) t') \<and>
     state d = Closed \<and>
     audit d = session_events greeting tr @
       [if isl (fst (wasi_transport_close (ww_tls W) (ww_io W) t')) then SessionAborted else QuitCompleted]"
proof -
  obtain c where c: "connect_smtps_with W (cf_host config) (cf_port config) (cf_ehlo_domain config)
      (component_options config) w = Some (Ok c, w')"
    and at: "follows (on_session [] inc) (on_session False rd) (on_session [] wr) c
       (delivery_script hello tr bye @ rest)
       (wr s @ format_command_arg (lit ''EHLO'') (cf_ehlo_domain config)) c"
    and st: "state c = Authentication" "policy c = default_policy" "capabilities c = drop 1 (snd ehlo)"
      "audit c = [Connected, GreetingReceived (code_of_text greeting), EhloCompleted]"
    by (rule implicit_connects [OF tls conn mode(2) script srv(1,2)])
  have mech': "select_auth_mechanism (ww_features W) (capabilities c) = Some auth_mechanism.Plain"
    using mech st(3) by simp
  show ?thesis
    using session_delivers [OF tls at st(1,2) mech' srv(3) ok] c mode(1) st(4)
    by (fastforce simp: send_impl_def session_events_def)
qed

text \<open>A host whose TLS session has a script, and a server that accepts one message.\<close>

definition scripted_tls :: "byte list \<Rightarrow> (byte list \<times> byte list, 'h, byte list list, str) rustls" where
  "scripted_tls script =
     \<lparr>new_connection = (\<lambda>_ _. Ok (script, [])),
      tls_read = (\<lambda>_ ((i, o'), h) n. (Ok (take n i), ((drop n i, o'), h))),
      tls_write_all = (\<lambda>_ ((i, o'), h) b. (Ok (), ((i, o' @ b), h))),
      tls_flush = (\<lambda>_ s. (Ok (), s)),
      send_close_notify = (\<lambda>c. c), write_tls = (\<lambda>c. ([], c))\<rparr>"

definition quiet_io :: "unit wasi_io" where
  "quiet_io =
     \<lparr>blocking_read = (\<lambda>h _. (Err StreamClosed, h)), await_readable = (\<lambda>h. h),
      blocking_write_and_flush = (\<lambda>h _. (Ok (), h)), shutdown_both = (\<lambda>h. (Ok (), h)),
      quote_debug = (\<lambda>s. s)\<rparr>"

text \<open>One address for every name, and one stream; the lookup's state is whether it has been given.\<close>

definition one_host :: "'h \<Rightarrow> (unit, bool, unit, 'h) wasi_net" where
  "one_host h =
     \<lparr>resolve_addresses = (\<lambda>_ w. (Ok False, w)), await_address = (\<lambda>q w. (q, w)),
      resolve_next_address = (\<lambda>q w. (Ok (if q then None else Some (Ipv4 (127, 0, 0, 1))), True, w)),
      create_tcp_socket = (\<lambda>_ w. (Ok (), w)), start_connect = (\<lambda>s _ w. (Ok s, w)),
      await_connected = (\<lambda>s w. (s, w)), finish_connect = (\<lambda>s w. (Ok h, w))\<rparr>"

definition sample_ehlo :: reply_text where
  "sample_ehlo = (250, [lit ''mx'', lit ''AUTH PLAIN''])"

definition sample_script :: "byte list" where
  "sample_script = say (220, [lit ''ok'']) @ say sample_ehlo @
     delivery_script [lit ''ok''] sample_transaction (221, [lit ''ok''])"

definition sample_world :: "(byte list, byte list list, byte list, byte list list, str,
    byte list \<times> byte list, unit, unit, bool, unit) wasi_world" where
  "sample_world =
     \<lparr>ww_lib = lax_lib, ww_roots = bundled_build, ww_tls = scripted_tls sample_script,
      ww_io = quiet_io, ww_net = one_host (), ww_features = default_features, ww_crypto = toy_crypto,
      ww_entropy = None\<rparr>"

definition sample_config :: "byte list list config_state" where
  "sample_config = \<lparr>cf_host = lit ''mx'', cf_port = 465, cf_ehlo_domain = lit ''c'',
     cf_tls_mode = Implicit, cf_roots = None\<rparr>"

lemma sample_tls_answers: "tls_answers sample_world (fst \<circ> fst) (\<lambda>_. True) (snd \<circ> fst)"
  by (auto simp: tls_answers_def sample_world_def scripted_tls_def split: prod.splits)

lemma one_host_connects: "tcp_connect (one_host h) host port w = Some (Ok h, w)"
proof -
  have "collect_addresses (one_host h) host as True w = Some (Ok as, w)" for as
    by (subst collect_addresses.simps) (simp add: one_host_def)
  then have "collect_addresses (one_host h) host [] False w = Some (Ok [Ipv4 (127, 0, 0, 1)], w)"
    by (subst collect_addresses.simps) (simp add: one_host_def)
  moreover have "resolve_addresses (one_host h) host w = (Ok False, w)" by (simp add: one_host_def)
  ultimately have "wasi_resolve (one_host h) host w = Some (Ok [Ipv4 (127, 0, 0, 1)], w)"
    by (simp add: wasi_resolve_def some_addresses_def)
  moreover have "wasi_connect (one_host h) a port w = (Ok h, w)" for a
    by (simp add: wasi_connect_def) (simp add: one_host_def)
  ultimately show ?thesis by (simp add: tcp_connect_def)
qed

lemma sample_session_connected:
  "\<exists>t. connect_implicit_tls sample_world (lit ''mx'') 465 (component_options sample_config) () =
     Some (Ok t, ()) \<and> wt_inner t = Tls ((sample_script, []), ())"
proof -
  have "tcp_connect (one_host ()) (lit ''mx'') 465 () = Some (Ok (), ())" by (rule one_host_connects)
  moreover have "\<exists>sni cfg. tls_target sample_world (lit ''mx'') (component_options sample_config) = Ok (sni, cfg)"
    by (simp add: tls_target_def sample_world_def sample_config_def component_options_def
        connect_options_default_def wasi_server_name_def make_tls_config_def wasi_default_root_store_def
        bundled_build_def lax_lib_def lax_pki_def pki.defs)
  ultimately show ?thesis
    by (auto simp: connect_implicit_tls_def tls_handshake_def sample_world_def scripted_tls_def)
qed

theorem component_completes_witness:
  "\<exists>d. send_impl sample_world sample_config
       \<lparr>cr_username = lit ''u'', cr_password = lit ''p''\<rparr>
       \<lparr>msg_from = lit ''a@b'', msg_to = [lit ''c@d'', lit ''e@f''], msg_raw = lit ''hi''\<rparr> () =
     Some (Ok 250, Some d) \<and> state d = Closed"
proof -
  obtain t where t: "connect_implicit_tls sample_world (lit ''mx'') 465 (component_options sample_config) () =
      Some (Ok t, ())" "wt_inner t = Tls ((sample_script, []), ())"
    using sample_session_connected by blast
  have lines: "list_all line_ok [lit ''ok'', lit ''mx'', lit ''AUTH PLAIN'']"
    by (simp add: line_ok_def valid_utf8_ascii is_ascii_def lit_def MAX_REPLY_LINE_LEN_def)
  have ok: "accepts (220, [lit ''ok''])" "accepts sample_ehlo"
    "delivery_accepts [lit ''ok''] sample_transaction (221, [lit ''ok'']) [a, b]" for a b
    using lines sample_accepting [of a b]
    by (simp_all add: accepts_def sayable_def sample_ehlo_def delivery_accepts_def MAX_REPLY_LINES_def)
  have mech: "select_auth_mechanism default_features (drop 1 (snd sample_ehlo)) = Some auth_mechanism.Plain"
    by code_simp
  have valid: "delivery_valid default_features \<lparr>cr_username = lit ''u'', cr_password = lit ''p''\<rparr>
      \<lparr>msg_from = lit ''a@b'', msg_to = [lit ''c@d'', lit ''e@f''], msg_raw = lit ''hi''\<rparr>"
    by code_simp
  have dm: "validate_ehlo_domain (lit ''c'') = Ok ()" by code_simp
  have code: "code_of_text (to_message sample_transaction) = 250"
    by (simp add: sample_transaction_def code_of_text_def)
  show ?thesis
    using component_completes [OF sample_tls_answers, of sample_config "()" t "()"
        "((sample_script, []), ())" "(220, [lit ''ok''])" sample_ehlo "[lit ''ok'']"
        sample_transaction "(221, [lit ''ok''])" "[]"
        "\<lparr>msg_from = lit ''a@b'', msg_to = [lit ''c@d'', lit ''e@f''], msg_raw = lit ''hi''\<rparr>"
        "\<lparr>cr_username = lit ''u'', cr_password = lit ''p''\<rparr>"] t ok mech valid dm code
    by (auto simp: sample_config_def sample_world_def sample_script_def)
qed

end
