(* ===== verification/Component_Trust.thy ===== *)
theory Component_Trust
  imports Component_Session
begin

text \<open>
  With whom the component speaks TLS: a send with custom trust anchors opens TLS sessions with the
  configuration of those anchors and for the name of the configured host, and with no other.

  The client asks its transport for an upgrade at one place, in \<open>starttls\<close>.  So everything else it
  does is the same whatever the upgrade does (\<open>with_upgrade\<close>), and up to that place the transport
  keeps the name and the configuration it was made with.
\<close>

subsection \<open>The client without upgrades\<close>

definition with_upgrade :: "('t \<Rightarrow> (io_error + unit) \<times> 't) \<Rightarrow> 't env \<Rightarrow> 't env" where
  "with_upgrade u env = env\<lparr>e_ops := (e_ops env)\<lparr>t_upgrade_to_tls := u\<rparr>\<rparr>"

named_theorems same_client

lemma with_upgrade_fields [same_client]:
  "t_read (e_ops (with_upgrade u env)) = t_read (e_ops env)"
  "t_write_all (e_ops (with_upgrade u env)) = t_write_all (e_ops env)"
  "t_flush (e_ops (with_upgrade u env)) = t_flush (e_ops env)"
  "t_close (e_ops (with_upgrade u env)) = t_close (e_ops env)"
  "e_features (with_upgrade u env) = e_features env"
  "e_crypto (with_upgrade u env) = e_crypto env"
  "e_entropy (with_upgrade u env) = e_entropy env"
  by (simp_all add: with_upgrade_def)

lemma same_io [same_client]:
  "write_all (with_upgrade u env) b c = write_all env b c"
  "flush (with_upgrade u env) c = flush env c"
  "fill_buf (with_upgrade u env) c = fill_buf env c"
  by (simp_all add: write_all_def flush_def fill_buf_def same_client)

lemma same_read_line [same_client]: "read_line (with_upgrade u env) c = read_line env c"
proof (induction env c rule: read_line.induct)
  case (1 env c)
  show ?case
    by (subst (1 2) read_line.simps)
       (auto simp: same_client and_then_def 1 split: option.split prod.split sum.split)
qed

lemma same_read_reply_loop [same_client]:
  "read_reply_loop (with_upgrade u env) lines code c = read_reply_loop env lines code c"
proof (induction env lines code c rule: read_reply_loop.induct)
  case (1 env lines code c)
  show ?case
    by (subst (1 2) read_reply_loop.simps)
       (auto simp: same_client and_then_def 1 split: option.split prod.split sum.split)
qed

lemma same_read_reply [same_client]: "read_reply (with_upgrade u env) c = read_reply env c"
  by (simp only: read_reply_def same_client)

text \<open>The rest is composed of these; rewriting reaches below every branch.\<close>

lemma same_replies [same_client]:
  "expect_code (with_upgrade u env) n during c = expect_code env n during c"
  "expect_class (with_upgrade u env) k during c = expect_class env k during c"
  "read_greeting (with_upgrade u env) c = read_greeting env c"
  "send_ehlo (with_upgrade u env) dm c = send_ehlo env dm c"
  by (unfold expect_code_def expect_class_def read_greeting_def send_ehlo_def same_client) (rule refl)+

lemma same_exchanges [same_client]:
  "scram_finish (with_upgrade u env) sig r c = scram_finish env sig r c"
  "run_auth_plain (with_upgrade u env) user pass c = run_auth_plain env user pass c"
  "run_auth_login (with_upgrade u env) user pass c = run_auth_login env user pass c"
  "run_auth_xoauth2 (with_upgrade u env) user pass c = run_auth_xoauth2 env user pass c"
  "run_auth_oauthbearer (with_upgrade u env) user pass c = run_auth_oauthbearer env user pass c"
  "read_rcpt_reply (with_upgrade u env) c = read_rcpt_reply env c"
  "read_mail_reply (with_upgrade u env) c = read_mail_reply env c"
  "finish_data (with_upgrade u env) c = finish_data env c"
  "connect (with_upgrade u env) t dm = connect env t dm"
  "request_tls (with_upgrade u env) c = request_tls env c"
  "quit (with_upgrade u env) c = quit env c"
  by (unfold scram_finish_def run_auth_plain_def run_auth_login_def run_auth_xoauth2_def
      run_auth_oauthbearer_def read_rcpt_reply_def read_mail_reply_def finish_data_def connect_def
      connect_with_def request_tls_def quit_def quit_exchange_def same_client) (rule refl)+

lemma same_scram_answer [same_client]:
  "scram_answer (with_upgrade u env) user pass nonce r c = scram_answer env user pass nonce r c"
  by (unfold scram_answer_def same_client) (rule refl)

lemma same_login [same_client]: "login (with_upgrade u env) user cred c = login env user cred c"
  by (unfold login_def login_with_def run_mechanism_def run_auth_scram_sha256_def same_client) (rule refl)

lemma same_recipients [same_client]:
  "read_rcpt_replies (with_upgrade u env) to c = read_rcpt_replies env to c"
  "rcpt_exchange (with_upgrade u env) to c = rcpt_exchange env to c"
  by (induction to arbitrary: c) (simp_all add: same_client)

lemma same_send_mail [same_client]:
  "send_mail (with_upgrade u env) sender to b c = send_mail env sender to b c"
  by (unfold send_mail_def run_envelope_def same_client) (rule refl)

lemma same_deliver [same_client]: "deliver (with_upgrade u env) cr m c = deliver env cr m c"
  by (unfold deliver_def same_client) (rule refl)

subsection \<open>What the transport keeps\<close>

text \<open>The name and the configuration a transport would be upgraded with.\<close>

definition same_target ::
    "('conn, 'h, 'config, 'name) wasi_transport client \<Rightarrow> ('conn, 'h, 'config, 'name) wasi_transport client \<Rightarrow>
     bool" where
  "same_target c d \<longleftrightarrow> wt_tls_config (transport d) = wt_tls_config (transport c) \<and>
     wt_sni (transport d) = wt_sni (transport c)"

interpretation keeps_target: speaking_relation "wasi_env W" same_target for W
  by unfold_locales
     (auto simp: same_target_def on_event_def compact_rx_def store_capabilities_def
        wasi_transport_read_def wasi_transport_write_all_def wasi_transport_flush_def
        split: wasi_inner.splits prod.splits)

subsection \<open>Another way to make connections\<close>

definition with_connections ::
    "('config \<Rightarrow> 'name \<Rightarrow> str + 'conn) \<Rightarrow>
     ('der, 'store, 'anchor, 'config, 'name, 'conn, 'h, 'w, 'q, 's) wasi_world \<Rightarrow>
     ('der, 'store, 'anchor, 'config, 'name, 'conn, 'h, 'w, 'q, 's) wasi_world" where
  "with_connections nc W = W\<lparr>ww_tls := (ww_tls W)\<lparr>new_connection := nc\<rparr>\<rparr>"

lemma with_connections_fields [simp]:
  "ww_lib (with_connections nc W) = ww_lib W" "ww_roots (with_connections nc W) = ww_roots W"
  "ww_io (with_connections nc W) = ww_io W" "ww_net (with_connections nc W) = ww_net W"
  "ww_tls (with_connections nc W) = (ww_tls W)\<lparr>new_connection := nc\<rparr>"
  by (simp_all add: with_connections_def)

lemma same_stream [simp]:
  "wasi_transport_read (T\<lparr>new_connection := nc\<rparr>) = wasi_transport_read T"
  "wasi_transport_write_all b (T\<lparr>new_connection := nc\<rparr>) = wasi_transport_write_all b T"
  "wasi_transport_flush (T\<lparr>new_connection := nc\<rparr>) = wasi_transport_flush T"
  "wasi_transport_close (T\<lparr>new_connection := nc\<rparr>) = wasi_transport_close T"
  by (simp_all add: fun_eq_iff wasi_transport_read_def wasi_transport_write_all_def
      wasi_transport_flush_def wasi_transport_close_def Let_def split: wasi_inner.split prod.split)

lemma wasi_env_with_connections:
  "wasi_env (with_connections nc W) =
     with_upgrade (wasi_upgrade_to_tls ((ww_tls W)\<lparr>new_connection := nc\<rparr>) (ww_io W)) (wasi_env W)"
  by (simp add: wasi_env_def with_upgrade_def with_connections_def wasi_ops_def)

lemma tls_target_with_connections [simp]:
  "tls_target (with_connections nc W) host opts = tls_target W host opts"
  by (simp add: tls_target_def split: sum.split)

text \<open>\<open>nc\<close> makes the connection of this configuration and name as the library does.\<close>

definition agrees_at ::
    "('config \<Rightarrow> 'name \<Rightarrow> str + 'conn) \<Rightarrow> ('conn, 'h, 'config, 'name) rustls \<Rightarrow> 'config \<Rightarrow> 'name \<Rightarrow> bool" where
  "agrees_at nc T cfg name \<longleftrightarrow> nc cfg name = new_connection T cfg name"

lemma handshake_agrees:
  "agrees_at nc T cfg name \<Longrightarrow>
   tls_handshake (T\<lparr>new_connection := nc\<rparr>) H h name cfg = tls_handshake T H h name cfg"
  by (simp add: tls_handshake_def agrees_at_def split: sum.split)

lemma upgrade_agrees:
  "(\<And>cfg. wt_tls_config t = Some cfg \<Longrightarrow> agrees_at nc T cfg (wt_sni t)) \<Longrightarrow>
   wasi_upgrade_to_tls (T\<lparr>new_connection := nc\<rparr>) H t = wasi_upgrade_to_tls T H t"
  by (auto simp: wasi_upgrade_to_tls_def handshake_agrees Let_def split: option.split wasi_inner.split)

lemma connect_starttls_agrees:
  assumes "\<And>cfg. wt_tls_config t = Some cfg \<Longrightarrow> agrees_at nc (ww_tls W) cfg (wt_sni t)"
  shows "connect_starttls (wasi_env (with_connections nc W)) t dm = connect_starttls (wasi_env W) t dm"
proof -
  let ?env = "wasi_env W" and ?env' = "wasi_env (with_connections nc W)"
  note same = wasi_env_with_connections same_client
  have up: "upgrade ?env' c = upgrade ?env c"
    if "wt_tls_config (transport c) = wt_tls_config t" "wt_sni (transport c) = wt_sni t" for c
    using upgrade_agrees [of "transport c" nc "ww_tls W" "ww_io W"] assms that
    by (simp add: upgrade_def)
  have "starttls ?env' c = starttls ?env c" if "connect ?env t dm = (Ok u, c)" for u c
  proof -
    have c: "same_target (client_new t dm (o_policy options_new) (o_audit options_new)) c"
      using keeps_target.R_connect [of t dm options_new W] that by (simp add: connect_def)
    have d: "upgrade ?env' (d\<lparr>capabilities := []\<rparr>) = upgrade ?env (d\<lparr>capabilities := []\<rparr>)"
      if "request_tls ?env c = (Ok v, d)" for v d
      using keeps_target.R_request_tls [of c W] that c by (simp add: same_target_def client_new_def up)
    have "request_tls ?env' c = request_tls ?env c" "send_ehlo ?env' = send_ehlo ?env"
      by (simp_all add: same fun_eq_iff)
    then show ?thesis
      unfolding starttls_def by (auto intro!: and_then_cong simp: d)
  qed
  moreover have "connect ?env' t dm = connect ?env t dm" by (simp add: same)
  ultimately show ?thesis
    unfolding connect_starttls_def by (auto intro!: and_then_cong)
qed

subsection \<open>A send\<close>

lemma wasi_server_name_Ok: "wasi_server_name L host = Ok n \<longleftrightarrow> parse_server_name L host = Ok n"
  by (simp add: wasi_server_name_def split: sum.split)

text \<open>With options for a store, that store and the host determine what a connection aims at.\<close>

lemma store_target:
  assumes "tls_target W host (wasi_with_root_store store connect_options_default) = Ok (sni, cfg)"
  shows "client_config (ww_lib W) store = Ok cfg \<and> parse_server_name (ww_lib W) host = Ok sni"
  using assms
  by (auto simp: tls_target_def wasi_with_root_store_def connect_options_default_def wasi_server_name_def
      make_tls_config_store split: sum.splits)

text \<open>\<open>nc\<close> differs from the library at most for other configurations and names.\<close>

definition agrees_for ::
    "('config \<Rightarrow> 'name \<Rightarrow> str + 'conn) \<Rightarrow>
     ('der, 'store, 'anchor, 'config, 'name, 'conn, 'h, 'w, 'q, 's) wasi_world \<Rightarrow> 'store \<Rightarrow> str \<Rightarrow> bool" where
  "agrees_for nc W store host \<longleftrightarrow>
     (\<forall>cfg name. client_config (ww_lib W) store = Ok cfg \<and> parse_server_name (ww_lib W) host = Ok name \<longrightarrow>
        nc cfg name = new_connection (ww_tls W) cfg name)"

lemma connects_agree:
  assumes "agrees_for nc W store host"
  defines "opts \<equiv> wasi_with_root_store store connect_options_default"
  shows "connect_smtps_with (with_connections nc W) host port dm opts w = connect_smtps_with W host port dm opts w"
    and "connect_smtp_starttls_with (with_connections nc W) host port dm opts w =
      connect_smtp_starttls_with W host port dm opts w"
proof -
  have target: "agrees_at nc (ww_tls W) cfg sni" if "tls_target W host opts = Ok (sni, cfg)" for sni cfg
    using store_target [OF that [unfolded opts_def]] assms(1) by (simp add: agrees_at_def agrees_for_def)
  have "connect_implicit_tls (with_connections nc W) host port opts w = connect_implicit_tls W host port opts w"
    by (auto simp: connect_implicit_tls_def handshake_agrees target split: option.split sum.split)
  moreover have "connect (wasi_env (with_connections nc W)) t dm = connect (wasi_env W) t dm" for t
    by (simp add: wasi_env_with_connections same_client)
  ultimately show "connect_smtps_with (with_connections nc W) host port dm opts w =
      connect_smtps_with W host port dm opts w"
    by (simp add: connect_smtps_with_def split: option.split sum.split prod.split)
  have "connect_plain (with_connections nc W) host port opts w = connect_plain W host port opts w"
    by (unfold connect_plain_def with_connections_fields tls_target_with_connections) (rule refl)
  moreover have "connect_starttls (wasi_env (with_connections nc W)) t dm = connect_starttls (wasi_env W) t dm"
    if "connect_plain W host port opts w = Some (Ok t, w')" for t w'
    by (rule connect_starttls_agrees)
       (use that target in \<open>auto simp: connect_plain_def split: option.splits sum.splits prod.splits\<close>)
  ultimately show "connect_smtp_starttls_with (with_connections nc W) host port dm opts w =
      connect_smtp_starttls_with W host port dm opts w"
    by (auto simp: connect_smtp_starttls_with_def split: option.split sum.split prod.split)
qed

lemma send_impl_agrees:
  assumes "agrees_for nc W store (cf_host config)" and "cf_roots config = Some store"
  shows "send_impl (with_connections nc W) config cr m w = send_impl W config cr m w"
proof -
  have "component_options config = wasi_with_root_store store connect_options_default"
    using assms(2) by (simp add: component_options_def)
  moreover have "deliver (wasi_env (with_connections nc W)) cr m = deliver (wasi_env W) cr m"
    by (simp add: wasi_env_with_connections same_client fun_eq_iff)
  ultimately show ?thesis
    using connects_agree [OF assms(1)] by (cases "cf_tls_mode config")
      (simp_all add: send_impl_def Let_def split: option.split sum.split prod.split)
qed

text \<open>A library that makes no connection gives no client.\<close>

lemma refused_handshake: "(\<And>cfg name. isl (new_connection T cfg name)) \<Longrightarrow> tls_handshake T H h name cfg \<noteq> Ok s"
  by (cases "new_connection T cfg name") (auto simp: tls_handshake_def dest: arg_cong [of _ _ isl])

lemma refused_session:
  assumes no: "\<And>cfg name. isl (new_connection (ww_tls W) cfg name)"
  shows "send_impl W config cr m w \<noteq> Some (r, Some d)"
proof -
  have "encrypted_client (wasi_env W) (\<lambda>_. False)"
  proof
    show False if "t_upgrade_to_tls (e_ops (wasi_env W)) t = (Ok u, t')" for t u t'
      using that wasi_upgrade_spec [where T = "ww_tls W" and H = "ww_io W" and t = t]
      by (auto simp: refused_handshake [OF no])
  qed auto
  from encrypted_client.connect_starttls_secures [OF this]
  have "connect_starttls (wasi_env W) t dm \<noteq> (Ok u, c)" for t dm u c by metis
  then have "connect_smtp_starttls_with W host port dm opts w \<noteq> Some (Ok c, w')" for host port dm opts c w'
    by (auto simp: connect_smtp_starttls_with_def connected_def split: option.splits sum.splits prod.splits)
  moreover have "connect_smtps_with W host port dm opts w \<noteq> Some (Ok c, w')" for host port dm opts c w'
    by (auto simp: connect_smtps_with_def connect_implicit_tls_def refused_handshake [OF no]
        split: option.splits sum.splits prod.splits)
  ultimately show ?thesis
    by (auto simp: send_impl_def Let_def split: option.splits sum.splits prod.splits tls_mode.splits)
qed

lemma send_impl_refused:
  assumes "\<And>cfg name. client_config (ww_lib W) store = Ok cfg \<Longrightarrow>
      parse_server_name (ww_lib W) (cf_host config) = Ok name \<Longrightarrow> isl (new_connection (ww_tls W) cfg name)"
    and "cf_roots config = Some store"
  shows "send_impl W config cr m w \<noteq> Some (r, Some d)"
proof -
  let ?nc = "\<lambda>cfg name. case new_connection (ww_tls W) cfg name of Err e \<Rightarrow> Err e | Ok _ \<Rightarrow> Err []"
  have "agrees_for ?nc W store (cf_host config)"
    using assms(1) by (fastforce simp: agrees_for_def isl_def split: sum.split)
  note same = send_impl_agrees [OF this assms(2), of cr m w]
  have "send_impl (with_connections ?nc W) config cr m w \<noteq> Some (r, Some d)"
    by (intro refused_session) (simp split: sum.split)
  then show ?thesis by (simp only: same not_False_eq_True)
qed

subsection \<open>Properties\<close>

text \<open>
  C30: custom trust anchors are the only ones: if a configuration is created with them, the store it
  connects with holds all the certificates of the given text and nothing else.  A send with it, in
  either TLS mode, depends on no other TLS connections than those with the rustls configuration of that
  store and for the name of the configured host: it is the same however the library makes all the
  others, and if the library makes none of these, there is no client, so nothing is sent.
\<close>

theorem component_trusts_only_custom:
  fixes W :: "('der, 'store, 'anchor, 'config, 'name, 'conn, 'h, 'w, 'q, 's) wasi_world"
  defines "L \<equiv> ww_lib W"
  assumes "config_validate (pki.truncate L) host port dm mode (CustomAnchors pem) = Ok config"
  shows "\<exists>bs store. pem_bundle (split_inclusive LF pem) bs \<and> bs \<noteq> [] \<and>
     load_certs (pki.truncate L) bs (store_empty L) = Some store \<and>
     map_err wasi_message (make_tls_config L F (component_options config)) =
       map_err (\<lambda>e. lit ''rustls rejected the default protocol versions: '' @ e) (client_config L store) \<and>
     (\<forall>nc. (\<forall>cfg name. client_config L store = Ok cfg \<and> parse_server_name L host = Ok name \<longrightarrow>
          nc cfg name = new_connection (ww_tls W) cfg name) \<longrightarrow>
        (\<forall>cr m w. send_impl (W\<lparr>ww_tls := (ww_tls W)\<lparr>new_connection := nc\<rparr>\<rparr>) config cr m w =
          send_impl W config cr m w)) \<and>
     ((\<forall>cfg name. client_config L store = Ok cfg \<and> parse_server_name L host = Ok name \<longrightarrow>
          isl (new_connection (ww_tls W) cfg name)) \<longrightarrow>
        (\<forall>cr m w r d. send_impl W config cr m w \<noteq> Some (r, Some d)))"
proof -
  have "\<exists>store. parse_custom (pki.truncate L) pem = Ok store \<and> cf_roots config = Some store \<and>
      cf_host config = host"
    using assms(2)
    by (cases "parse_custom (pki.truncate L) pem")
       (auto simp: config_validate_def Let_def resolve_trust_def split: sum.splits)
  then obtain store where p: "parse_custom (pki.truncate L) pem = Ok store"
    and roots: "cf_roots config = Some store" and h: "cf_host config = host" by blast
  from p obtain bs where bs: "pem_bundle (split_inclusive LF pem) bs" "bs \<noteq> []"
    "load_certs (pki.truncate L) bs (store_empty L) = Some store"
    by (auto simp: parse_custom_Ok pki.defs)
  have "map_err wasi_message (make_tls_config L F (component_options config)) =
      map_err (\<lambda>e. lit ''rustls rejected the default protocol versions: '' @ e) (client_config L store)"
    using roots
    by (simp add: component_options_def wasi_with_root_store_def connect_options_default_def
          make_tls_config_store split: sum.split)
  moreover have "send_impl (W\<lparr>ww_tls := (ww_tls W)\<lparr>new_connection := nc\<rparr>\<rparr>) config cr m w =
      send_impl W config cr m w"
    if "\<forall>cfg name. client_config L store = Ok cfg \<and> parse_server_name L host = Ok name \<longrightarrow>
          nc cfg name = new_connection (ww_tls W) cfg name" for nc cr m w
    using send_impl_agrees [OF _ roots, of nc W cr m w] that
    by (simp add: agrees_for_def h L_def with_connections_def)
  moreover have "send_impl W config cr m w \<noteq> Some (r, Some d)"
    if "\<forall>cfg name. client_config L store = Ok cfg \<and> parse_server_name L host = Ok name \<longrightarrow>
          isl (new_connection (ww_tls W) cfg name)" for cr m w r d
    by (rule send_impl_refused [OF _ roots]) (use that in \<open>simp add: h L_def\<close>)
  ultimately show ?thesis using bs by (intro exI [of _ bs] exI [of _ store]) blast
qed

text \<open>Two libraries: one that connects with the custom store and no other, and one that refuses it.\<close>

abbreviation only_custom :: "byte list list \<Rightarrow> str \<Rightarrow> str + (byte list \<times> byte list)" where
  "only_custom cfg name \<equiv>
     (if cfg = [drop 5 sample_pem] \<and> name = lit ''mx'' then Ok (sample_script, []) else Err [])"

abbreviation never_custom :: "byte list list \<Rightarrow> str \<Rightarrow> str + (byte list \<times> byte list)" where
  "never_custom cfg name \<equiv> (if cfg = [drop 5 sample_pem] then Err [] else Ok (sample_script, []))"

theorem component_trusts_only_custom_witness:
  "\<exists>config. config_validate lax_pki (lit ''mx'') 465 (lit ''c'') Implicit (CustomAnchors sample_pem) = Ok config \<and>
     make_tls_config lax_lib bundled_build (component_options config) = Ok [drop 5 sample_pem] \<and>
     (\<forall>cr m. send_impl (sample_world\<lparr>ww_tls := (ww_tls sample_world)\<lparr>new_connection := only_custom\<rparr>\<rparr>) config cr m () =
       send_impl sample_world config cr m ()) \<and>
     (\<forall>cr m r d. send_impl (sample_world\<lparr>ww_tls := (ww_tls sample_world)\<lparr>new_connection := never_custom\<rparr>\<rparr>)
       config cr m () \<noteq> Some (r, Some d))"
proof -
  let ?V = "sample_world\<lparr>ww_tls := (ww_tls sample_world)\<lparr>new_connection := never_custom\<rparr>\<rparr>"
  let ?config = "\<lparr>cf_host = lit ''mx'', cf_port = 465, cf_ehlo_domain = lit ''c'', cf_tls_mode = Implicit,
    cf_roots = Some [drop 5 sample_pem]\<rparr>"
  have lax: "pki.truncate lax_lib = lax_pki" by (simp add: lax_lib_def pki.defs)
  have lib: "ww_lib sample_world = lax_lib" "ww_lib ?V = lax_lib"
    "new_connection (ww_tls ?V) = never_custom"
    "new_connection (ww_tls sample_world) cfg name = Ok (sample_script, [])" for cfg name
    by (simp_all add: sample_world_def scripted_tls_def)
  have L: "client_config lax_lib s = Ok s" "parse_server_name lax_lib h = Ok h" for s h
    by (simp_all add: lax_lib_def pki.defs)
  have c: "config_validate lax_pki (lit ''mx'') 465 (lit ''c'') Implicit (CustomAnchors sample_pem) = Ok ?config"
    using sample_domain sample_parsed by (simp add: config_validate_def resolve_trust_def)
  have tls: "make_tls_config lax_lib bundled_build (component_options ?config) = Ok [drop 5 sample_pem]"
    by (simp add: component_options_def wasi_with_root_store_def connect_options_default_def
        make_tls_config_store L)
  from component_trusts_only_custom [of sample_world "lit ''mx''" 465 "lit ''c''" Implicit sample_pem ?config bundled_build]
  obtain store where s: "Ok store = (Ok [drop 5 sample_pem] :: str + byte list list)"
    and same: "\<And>nc. \<forall>cfg name. client_config lax_lib store = Ok cfg \<and> parse_server_name lax_lib (lit ''mx'') = Ok name \<longrightarrow>
          nc cfg name = new_connection (ww_tls sample_world) cfg name \<Longrightarrow>
        \<forall>cr m w. send_impl (sample_world\<lparr>ww_tls := (ww_tls sample_world)\<lparr>new_connection := nc\<rparr>\<rparr>) ?config cr m w =
          send_impl sample_world ?config cr m w"
    unfolding lib lax using c tls L(1) by (auto simp: L)
  have "\<forall>cr m w. send_impl (sample_world\<lparr>ww_tls := (ww_tls sample_world)\<lparr>new_connection := only_custom\<rparr>\<rparr>) ?config cr m w =
      send_impl sample_world ?config cr m w"
    by (rule same) (use s in \<open>simp add: L lib(4)\<close>)
  moreover from component_trusts_only_custom [of ?V "lit ''mx''" 465 "lit ''c''" Implicit sample_pem ?config bundled_build]
  obtain store where s: "Ok store = (Ok [drop 5 sample_pem] :: str + byte list list)"
    and never: "\<forall>cfg name. client_config lax_lib store = Ok cfg \<and> parse_server_name lax_lib (lit ''mx'') = Ok name \<longrightarrow>
          isl (new_connection (ww_tls ?V) cfg name) \<Longrightarrow>
        \<forall>cr m w r d. send_impl ?V ?config cr m w \<noteq> Some (r, Some d)"
    unfolding lib lax using c tls L(1) by (auto simp: L)
  have "\<forall>cr m w r d. send_impl ?V ?config cr m w \<noteq> Some (r, Some d)"
    by (rule never) (use s in \<open>simp add: L lib(3)\<close>)
  ultimately show ?thesis using c tls by blast
qed

end
