(* ===== verification/Component_Upgrade.thy ===== *)
theory Component_Upgrade
  imports Component_Session
begin

text \<open>
  A send of the component in STARTTLS mode: a host stream whose peer answers in plaintext, a TLS
  handshake on it that succeeds, and the session that follows.  What the host's streams and rustls do
  then are named hypotheses (\<open>plain_answers\<close>, \<open>upgrade_answers_on\<close>, \<open>tls_answers\<close>).
\<close>

subsection \<open>A plain stream whose peer answers\<close>

text \<open>
  Reading blocks until there are bytes, at most as many as asked for, or the peer has closed; a write
  of at most 4096 bytes is taken whole.
\<close>

definition plain_answers ::
    "'h wasi_io \<Rightarrow> ('h \<Rightarrow> byte list) \<Rightarrow> ('h \<Rightarrow> bool) \<Rightarrow> ('h \<Rightarrow> byte list) \<Rightarrow> bool" where
  "plain_answers H inc rd wr \<longleftrightarrow>
     (\<forall>h n. rd h \<longrightarrow> 0 < n \<longrightarrow>
        (\<exists>h'. rd h' \<and> wr h' = wr h \<and>
           (if inc h = [] then blocking_read H h n = (Err StreamClosed, h') \<and> inc h' = []
            else \<exists>bs. blocking_read H h n = (Ok bs, h') \<and> bs \<noteq> [] \<and> length bs \<le> n \<and>
                   inc h = bs @ inc h'))) \<and>
     (\<forall>h b. rd h \<longrightarrow> b \<noteq> [] \<longrightarrow> length b \<le> MAX_BLOCKING_WRITE \<longrightarrow>
        (\<exists>h'. blocking_write_and_flush H h b = (Ok (), h') \<and> rd h' \<and> inc h' = inc h \<and>
           wr h' = wr h @ b))"

lemma plain_reads:
  assumes "plain_answers H inc rd wr" and "rd h" and "0 < n"
  shows "\<exists>bs h'. wasi_read_outcome H n h = (Ok bs, h') \<and> rd h' \<and> wr h' = wr h \<and>
     inc h = bs @ inc h' \<and> (bs = [] \<longleftrightarrow> inc h = [])"
proof -
  obtain h' where h': "rd h'" "wr h' = wr h"
    and read: "if inc h = [] then blocking_read H h n = (Err StreamClosed, h') \<and> inc h' = []
       else \<exists>bs. blocking_read H h n = (Ok bs, h') \<and> bs \<noteq> [] \<and> length bs \<le> n \<and> inc h = bs @ inc h'"
    using assms unfolding plain_answers_def by meson
  show ?thesis
  proof (cases "inc h = []")
    case True
    then have c: "blocking_read H h n = (Err StreamClosed, h')" "inc h' = []" using read by simp_all
    from c(1) have "read_answer n (blocking_read H h n) = Some (Ok [], h')" by (simp add: read_answer_def)
    then have "wasi_read H n h = Some (Ok [], h')" by (rule wasi_read_answers)
    then have "wasi_read_outcome H n h = (Ok [], h')" by (simp add: wasi_read_outcome_def)
    then show ?thesis using True c(2) h' by (intro exI [of _ "[]"] exI [of _ h']) simp
  next
    case False
    with read obtain bs where bs: "blocking_read H h n = (Ok bs, h')" "bs \<noteq> []" "length bs \<le> n"
      "inc h = bs @ inc h'" by (simp only: if_False) blast
    from bs(1-3) have "read_answer n (blocking_read H h n) = Some (Ok bs, h')"
      by (simp add: read_answer_def)
    then have "wasi_read H n h = Some (Ok bs, h')" by (rule wasi_read_answers)
    then have "wasi_read_outcome H n h = (Ok bs, h')" by (simp add: wasi_read_outcome_def)
    then show ?thesis using bs(2,4) h' False by blast
  qed
qed

lemma plain_writes:
  assumes "plain_answers H inc rd wr" and "rd h"
  shows "\<exists>h'. wasi_write_all H b h = (Ok (), h') \<and> rd h' \<and> inc h' = inc h \<and> wr h' = wr h @ b"
proof -
  have "\<exists>h'. wasi_write_chunks H cs h = (Ok (), h') \<and> rd h' \<and> inc h' = inc h \<and> wr h' = wr h @ concat cs"
    if "rd h" "list_all (\<lambda>p. 0 < length p \<and> length p \<le> MAX_BLOCKING_WRITE) cs" for cs
    using that
  proof (induction cs arbitrary: h)
    case (Cons c cs)
    then have "c \<noteq> []" "length c \<le> MAX_BLOCKING_WRITE" by auto
    then obtain h1 where h1: "blocking_write_and_flush H h c = (Ok (), h1)" "rd h1" "inc h1 = inc h"
      "wr h1 = wr h @ c"
      using assms(1) Cons(2) unfolding plain_answers_def by meson
    from Cons.IH [OF h1(2)] Cons(3) h1 show ?case by auto
  qed simp
  from this [OF assms(2) chunks_sizes, of b] show ?thesis
    unfolding wasi_write_all_def
    using concat_chunks [of MAX_BLOCKING_WRITE b] by (simp add: MAX_BLOCKING_WRITE_def)
qed

subsection \<open>The upgrade\<close>

text \<open>
  On a plain stream without unread bytes the handshake with this name and configuration succeeds, and
  the session says \<open>script\<close>; \<open>wr\<close> goes on from what has been written to the stream.
\<close>

definition upgrade_answers_on ::
    "('der, 'store, 'anchor, 'config, 'name, 'conn, 'h, 'w, 'q, 's) wasi_world \<Rightarrow> 'name \<Rightarrow> 'config \<Rightarrow>
     ('h \<Rightarrow> byte list) \<Rightarrow> ('h \<Rightarrow> bool) \<Rightarrow> ('h \<Rightarrow> byte list) \<Rightarrow>
     ('conn \<times> 'h \<Rightarrow> byte list) \<Rightarrow> ('conn \<times> 'h \<Rightarrow> bool) \<Rightarrow> ('conn \<times> 'h \<Rightarrow> byte list) \<Rightarrow> byte list \<Rightarrow> bool" where
  "upgrade_answers_on W sni config pinc prd pwr inc rd wr script \<longleftrightarrow>
     (\<exists>conn. new_connection (ww_tls W) config sni = Ok conn \<and>
        (\<forall>h. prd h \<longrightarrow> pinc h = [] \<longrightarrow>
           (\<exists>s. tls_flush (ww_tls W) (wasi_stream_io (ww_io W)) (conn, h) = (Ok (), s) \<and> rd s \<and>
              inc s = script \<and> wr s = pwr h)))"

definition on_plain :: "'a \<Rightarrow> ('h \<Rightarrow> 'a) \<Rightarrow> ('conn, 'h, 'config, 'name) wasi_transport \<Rightarrow> 'a" where
  "on_plain z f t = (case wt_inner t of Plain h \<Rightarrow> f h | Tls _ \<Rightarrow> z | NoStream \<Rightarrow> z)"

definition plain_ready ::
    "'name \<Rightarrow> 'config \<Rightarrow> ('h \<Rightarrow> bool) \<Rightarrow> ('conn, 'h, 'config, 'name) wasi_transport \<Rightarrow> bool" where
  "plain_ready sni config rd t \<longleftrightarrow>
     wt_sni t = sni \<and> wt_tls_config t = Some config \<and> (\<exists>h. wt_inner t = Plain h \<and> rd h)"

lemma on_plain_Plain [simp]: "wt_inner t = Plain h \<Longrightarrow> on_plain z f t = f h"
  by (simp add: on_plain_def)

lemma plain_talk:
  fixes W :: "('der, 'store, 'anchor, 'config, 'name, 'conn, 'h, 'w, 'q, 's) wasi_world"
  assumes "plain_answers (ww_io W) inc rd wr"
  shows "client_talk (wasi_env W) (on_plain [] inc) (plain_ready sni config rd) (on_plain [] wr)"
proof
  fix t :: "('conn, 'h, 'config, 'name) wasi_transport" and n :: nat
  assume t: "plain_ready sni config rd t" and "0 < n"
  then obtain h where h: "wt_inner t = Plain h" "rd h" by (auto simp: plain_ready_def)
  obtain bs h' where "wasi_read_outcome (ww_io W) n h = (Ok bs, h')" "rd h'" "wr h' = wr h"
    "inc h = bs @ inc h'" "bs = [] \<longleftrightarrow> inc h = []"
    using plain_reads [OF assms h(2) \<open>0 < n\<close>] by blast
  then show "\<exists>bs t'. t_read (e_ops (wasi_env W)) t n = (Ok bs, t') \<and> plain_ready sni config rd t' \<and>
      on_plain [] wr t' = on_plain [] wr t \<and> on_plain [] inc t = bs @ on_plain [] inc t' \<and>
      (bs = [] \<longleftrightarrow> on_plain [] inc t = [])"
    using h t by (intro exI [of _ bs] exI [of _ "t\<lparr>wt_inner := Plain h'\<rparr>"])
      (simp add: wasi_transport_read_def on_plain_def plain_ready_def)
next
  fix t :: "('conn, 'h, 'config, 'name) wasi_transport" and b
  assume t: "plain_ready sni config rd t"
  then obtain h where h: "wt_inner t = Plain h" "rd h" by (auto simp: plain_ready_def)
  obtain h' where "wasi_write_all (ww_io W) b h = (Ok (), h')" "rd h'" "inc h' = inc h"
    "wr h' = wr h @ b" using plain_writes [OF assms h(2)] by blast
  then show "\<exists>t'. t_write_all (e_ops (wasi_env W)) t b = (Ok (), t') \<and> plain_ready sni config rd t' \<and>
      on_plain [] inc t' = on_plain [] inc t \<and> on_plain [] wr t' = on_plain [] wr t @ b"
    using h t by (intro exI [of _ "t\<lparr>wt_inner := Plain h'\<rparr>"])
      (simp add: wasi_transport_write_all_def on_plain_def plain_ready_def)
next
  fix t :: "('conn, 'h, 'config, 'name) wasi_transport"
  assume t: "plain_ready sni config rd t"
  then obtain h where h: "wt_inner t = Plain h" "rd h" by (auto simp: plain_ready_def)
  then show "\<exists>t'. t_flush (e_ops (wasi_env W)) t = (Ok (), t') \<and> plain_ready sni config rd t' \<and>
      on_plain [] inc t' = on_plain [] inc t \<and> on_plain [] wr t' = on_plain [] wr t"
    using t by (intro exI [of _ t]) (simp add: wasi_transport_flush_def wasi_flush_def)
qed

text \<open>A WASI transport over such a host is a connection that answers and can be upgraded.\<close>

lemma wasi_upgrades:
  fixes W :: "('der, 'store, 'anchor, 'config, 'name, 'conn, 'h, 'w, 'q, 's) wasi_world"
  assumes plain: "plain_answers (ww_io W) pinc prd pwr" and tls: "tls_answers W inc rd wr"
    and up: "upgrade_answers_on W sni config pinc prd pwr inc rd wr script"
  shows "client_upgrade (wasi_env W) (on_plain [] pinc) (plain_ready sni config prd) (on_plain [] pwr)
     (on_session [] inc) (on_session False rd) (on_session [] wr) (\<lambda>w. w) script"
proof (intro client_upgrade.intro plain_talk [OF plain] tls_talk [OF tls] client_upgrade_axioms.intro)
  fix t :: "('conn, 'h, 'config, 'name) wasi_transport"
  assume t: "plain_ready sni config prd t" and none: "on_plain [] pinc t = []"
  then obtain h where h: "wt_inner t = Plain h" "prd h" by (auto simp: plain_ready_def)
  obtain conn s where "new_connection (ww_tls W) config sni = Ok conn"
    "tls_flush (ww_tls W) (wasi_stream_io (ww_io W)) (conn, h) = (Ok (), s)"
    and s: "rd s" "inc s = script" "wr s = pwr h"
    using up h none unfolding upgrade_answers_on_def by auto
  then show "\<exists>t'. t_upgrade_to_tls (e_ops (wasi_env W)) t = (Ok (), t') \<and> on_session False rd t' \<and>
      on_session [] inc t' = script \<and> on_session [] wr t' = on_plain [] pwr t"
    using h t by (intro exI [of _ "t\<lparr>wt_tls_config := None, wt_inner := Tls s\<rparr>"])
      (simp add: wasi_upgrade_to_tls_def tls_handshake_def Let_def on_session_def plain_ready_def)
qed

subsection \<open>Connecting\<close>

lemma starttls_connects:
  fixes W :: "('der, 'store, 'anchor, 'config, 'name, 'conn, 'h, 'w, 'q, 's) wasi_world"
  assumes plain: "plain_answers (ww_io W) pinc prd pwr" and tls: "tls_answers W inc rd wr"
    and up: "upgrade_answers_on W sni config pinc prd pwr inc rd wr (say ehlo @ rest)"
    and conn: "connect_plain W host port options w = Some (Ok t, w')" "wt_inner t = Plain h" "prd h"
      "tls_target W host options = Ok (sni, config)"
    and script: "pinc h = say greeting @ say offer @ say go" "pwr h = []"
    and srv: "accepts greeting" "accepts offer" "sayable go" "fst go = 220" "accepts ehlo"
    and adv: "ehlo_advertises_starttls (drop 1 (snd offer))" and dm: "validate_ehlo_domain dm = Ok ()"
  obtains c where "connect_smtp_starttls_with W host port dm options w = Some (Ok c, w')"
    and "follows (on_session [] inc) (on_session False rd) (on_session [] wr) c rest
       ((format_command_arg (lit ''EHLO'') dm @ format_command (lit ''STARTTLS'')) @
        format_command_arg (lit ''EHLO'') dm) c"
    and "state c = Authentication" and "policy c = default_policy"
    and "capabilities c = drop 1 (snd ehlo)"
    and "audit c = [Connected, GreetingReceived (code_of_text greeting), EhloCompleted, TlsUpgraded,
       EhloCompleted]"
proof -
  have "wt_sni t = sni" "wt_tls_config t = Some config"
    using conn(1,4) by (auto simp: connect_plain_def split: option.splits prod.splits sum.splits)
  then have t: "plain_ready sni config prd t" "on_plain [] pinc t = say greeting @ say offer @ say go"
    "on_plain [] pwr t = []"
    using conn(2,3) script by (simp_all add: plain_ready_def)
  obtain c d where "connect (wasi_env W) t dm = (Ok (), c)" "starttls (wasi_env W) c = (Ok (), d)"
    and d: "state d = Authentication" "capabilities d = drop 1 (snd ehlo)" "policy d = default_policy"
    "audit d = [Connected, GreetingReceived (code_of_text greeting), EhloCompleted, TlsUpgraded,
       EhloCompleted]"
    "follows (on_session [] inc) (on_session False rd) (on_session [] wr) d rest
       ((format_command_arg (lit ''EHLO'') dm @ format_command (lit ''STARTTLS'')) @
        format_command_arg (lit ''EHLO'') dm) d"
    by (rule client_upgrade.connect_starttls_answers
          [OF wasi_upgrades [OF plain tls up] t refl srv adv dm])
  then have "connect_starttls (wasi_env W) t dm = (Ok (), d)" by (simp add: connect_starttls_def)
  then have "connect_smtp_starttls_with W host port dm options w = Some (Ok d, w')"
    using conn(1) by (simp add: connect_smtp_starttls_with_def connected_def)
  then show thesis using that d by blast
qed

end
