(* ===== verification/Harness_Wire.thy ===== *)
theory Harness_Wire
  imports Smoke_Session Component_Upgrade
begin

text \<open>
  A guest on the WASI adapter against the scripted responder, in either TLS mode: the bytes of both
  sides, what the responder records on the guest's bytes, and the guest's connection in a world that
  says what the responder says.  The two sides are composed over the plaintext of one TLS session.
  The component's harness and the smoke driver share it.
\<close>

subsection \<open>The bytes of both sides\<close>

text \<open>What the responder says, in plaintext and inside TLS.\<close>

primrec plain_script :: "tls_mode \<Rightarrow> byte list" where
  "plain_script Implicit = []"
| "plain_script Starttls = before_tls"

primrec tls_script :: "tls_mode \<Rightarrow> byte list" where
  "tls_script Implicit = GREETING_LINES @ EHLO_TLS_LINES @ after_ehlo"
| "tls_script Starttls = EHLO_TLS_LINES @ after_ehlo"

text \<open>What the guest writes, up to the EHLO inside TLS and in all.\<close>

definition session_start :: "expected \<Rightarrow> tls_mode \<Rightarrow> byte list" where
  "session_start e mode = (case mode of Implicit \<Rightarrow> [] | Starttls \<Rightarrow> plain_bytes e) @
     ehlo_line (exp_ehlo e) @ CRLF"

definition session_wire :: "expected \<Rightarrow> str \<Rightarrow> str list \<Rightarrow> tls_mode \<Rightarrow> byte list" where
  "session_wire e auth ls mode = session_start e mode @ after_ehlo_bytes e auth ls"

lemma session_wire_modes:
  "session_wire e auth ls Implicit = tls_bytes e auth ls"
  "session_wire e auth ls Starttls = plain_bytes e @ tls_bytes e auth ls"
  by (simp_all add: session_wire_def session_start_def tls_bytes_def)

lemma responder_script:
  "tls_script Implicit = say (220, [lit ''smoke.test ESMTP ready'']) @
     say (250, lit ''smoke.test'' # smoke_caps) @ after_ehlo"
  "tls_script Starttls = say (250, lit ''smoke.test'' # smoke_caps) @ after_ehlo"
  "plain_script Starttls = say (220, [lit ''smoke.test ESMTP ready'']) @
     say (250, map lit [''smoke.test'', ''PIPELINING'', ''STARTTLS'', ''SMTPUTF8'']) @
     say (220, [lit ''2.0.0 Ready to start TLS''])"
  by (simp_all add: smoke_replies(1,2)) (simp add: before_tls_def smoke_replies)

text \<open>After EHLO it says the script of a delivery.\<close>

lemma after_ehlo_script:
  "after_ehlo = delivery_script [lit ''2.7.0 Authentication successful''] smoke_transaction
     (221, [lit ''2.0.0 Bye''])"
  by (simp add: after_ehlo_def delivery_script_def)

lemma responder_accepts:
  "delivery_accepts [lit ''2.7.0 Authentication successful''] smoke_transaction
     (221, [lit ''2.0.0 Bye'']) [rcpt]"
  using smoke_accepts(5,6) smoke_lines_ok
  by (simp add: delivery_accepts_def MAX_REPLY_LINES_def)

lemma responder_message: "code_of_text (to_message smoke_transaction) = 250"
  by (simp add: smoke_transaction_def code_of_text_def)

subsection \<open>The responder on what the guest writes\<close>

definition session_recording :: "expected \<Rightarrow> str \<Rightarrow> str list \<Rightarrow> tls_mode \<Rightarrow> recording" where
  "session_recording e auth ls mode =
     \<lparr>rec_lines = (case mode of Implicit \<Rightarrow> []
        | Starttls \<Rightarrow> [(PlainLeg, ehlo_line (exp_ehlo e)), (PlainLeg, lit ''STARTTLS'')]) @
        map (Pair TlsLeg) (session_lines False e auth),
      rec_body = crlf_text (map dotted ls)\<rparr>"

text \<open>It says exactly the script, ends without an error, and its recording passes the assertion.\<close>

lemma responder_says:
  assumes mail: "smoke_mail f e user pass ls"
  defines "auth \<equiv> build_auth_plain_initial_response user pass"
  shows "smtp_phase wire_io recording_default (session_wire e auth ls Implicit, GREETING_LINES) =
     Some (Ok (), session_recording e auth ls Implicit, ([], tls_script Implicit))"
    and "plaintext_leg wire_io recording_default (session_wire e auth ls Starttls, GREETING_LINES) =
     Some (Ok (), \<lparr>rec_lines = take 2 (rec_lines (session_recording e auth ls Starttls)), rec_body = []\<rparr>,
       (session_wire e auth ls Implicit, plain_script Starttls))"
    and "smtp_phase wire_io
       \<lparr>rec_lines = take 2 (rec_lines (session_recording e auth ls Starttls)), rec_body = []\<rparr>
       (session_wire e auth ls Implicit, []) =
     Some (Ok (), session_recording e auth ls Starttls, ([], tls_script Starttls))"
  using responder_session [OF smoke_mail_args(1) [OF mail], of recording_default GREETING_LINES]
    responder_starttls(1,2) [OF mail]
  by (simp_all add: session_wire_modes session_recording_def recording_default_def auth_def)

lemma session_served:
  assumes mail: "smoke_mail f e user pass ls"
  defines "auth \<equiv> build_auth_plain_initial_response user pass"
  shows "(if mode = Starttls
     then serve_starttls wire_io wire_io (\<lambda>(i, _). Ok (i, [])) (session_wire e auth ls mode, [])
     else serve_implicit wire_io wire_io (\<lambda>(i, _). Ok (i, [])) (session_wire e auth ls mode, [])) =
   Some (session_recording e auth ls mode, Ok ())"
  using responder_starttls(3) [OF mail] responder_says(1) [OF mail]
  by (cases mode)
     (simp_all add: session_wire_modes session_recording_def auth_def serve_implicit_def
       serve_def serve_inner_def tls_leg_def greet_def)

lemma session_checked:
  assumes mail: "smoke_mail f e user pass ls"
  shows "check_session (session_recording e auth ls mode) (mode = Starttls) e = Ok ()"
proof (rule smoke_recording_passes [OF mail, where auth = auth])
  show "rec_lines (session_recording e auth ls mode) =
      zip (session_legs (mode = Starttls)) (session_lines (mode = Starttls) e auth)"
    by (cases mode) (simp_all only: session_recording_def session_lines_parts(2,3) tls_mode.simps
        recording.simps append_Nil simp_thms)
qed (simp add: session_recording_def)

subsection \<open>The guest on what the responder says\<close>

text \<open>
  A world in which the guest's connection to the harness is made, in either mode, and says what the
  responder says.
\<close>

definition responder_heard ::
    "('der, 'store, 'anchor, 'config, 'name, 'conn, 'h, 'w, 'q, 's) wasi_world \<Rightarrow> tls_mode \<Rightarrow> u16 \<Rightarrow>
     'store connect_options \<Rightarrow> 'w \<Rightarrow> ('conn \<times> 'h \<Rightarrow> byte list) \<Rightarrow> ('conn \<times> 'h \<Rightarrow> bool) \<Rightarrow>
     ('conn \<times> 'h \<Rightarrow> byte list) \<Rightarrow> bool" where
  "responder_heard W mode port options w inc rd wr \<longleftrightarrow>
     (case mode of
        Implicit \<Rightarrow> \<exists>t s w'. connect_implicit_tls W (lit ''127.0.0.1'') port options w = Some (Ok t, w') \<and>
          wt_inner t = Tls s \<and> rd s \<and> inc s = tls_script Implicit \<and> wr s = []
      | Starttls \<Rightarrow> \<exists>t h w' sni config pinc prd pwr. plain_answers (ww_io W) pinc prd pwr \<and>
          tls_target W (lit ''127.0.0.1'') options = Ok (sni, config) \<and>
          upgrade_answers_on W sni config pinc prd pwr inc rd wr (tls_script Starttls) \<and>
          connect_plain W (lit ''127.0.0.1'') port options w = Some (Ok t, w') \<and>
          wt_inner t = Plain h \<and> prd h \<and> pinc h = plain_script Starttls \<and> pwr h = [])"

text \<open>Either way there is a client that has said EHLO inside TLS.\<close>

lemma session_connects:
  fixes W :: "('der, 'store, 'anchor, 'config, 'name, 'conn, 'h, 'w, 'q, 's) wasi_world"
  assumes tls: "tls_answers W inc rd wr"
    and heard: "responder_heard W mode port options w inc rd wr"
    and dm: "validate_ehlo_domain (exp_ehlo e) = Ok ()"
  obtains c w' where "(case mode of
       Implicit \<Rightarrow> connect_smtps_with W (lit ''127.0.0.1'') port (exp_ehlo e) options w
     | Starttls \<Rightarrow> connect_smtp_starttls_with W (lit ''127.0.0.1'') port (exp_ehlo e) options w) =
       Some (Ok c, w')"
    and "follows (on_session [] inc) (on_session False rd) (on_session [] wr) c after_ehlo
       (session_start e mode) c"
    and "state c = Authentication" and "policy c = default_policy" and "capabilities c = smoke_caps"
proof (cases mode)
  case Implicit
  then obtain t s w' where conn: "connect_implicit_tls W (lit ''127.0.0.1'') port options w = Some (Ok t, w')"
      "wt_inner t = Tls s" "rd s" and s: "inc s = tls_script Implicit" "wr s = []"
    using heard by (auto simp: responder_heard_def)
  have b: "wr s @ format_command_arg (lit ''EHLO'') (exp_ehlo e) = session_start e Implicit"
    by (simp add: s(2) session_start_def format_command_arg_def ehlo_line_def lit_def)
  show thesis
    by (rule implicit_connects [OF tls conn dm s(1) [unfolded responder_script] smoke_accepts(1,2)],
        rule that) (simp_all add: Implicit b)
next
  case Starttls
  then obtain t h w' sni config pinc prd pwr where plain: "plain_answers (ww_io W) pinc prd pwr"
    and up: "upgrade_answers_on W sni config pinc prd pwr inc rd wr (tls_script Starttls)"
    and conn: "connect_plain W (lit ''127.0.0.1'') port options w = Some (Ok t, w')" "wt_inner t = Plain h"
      "prd h" "tls_target W (lit ''127.0.0.1'') options = Ok (sni, config)"
    and h: "pinc h = plain_script Starttls" "pwr h = []"
    using heard by (auto simp: responder_heard_def)
  have adv: "ehlo_advertises_starttls (drop 1 (snd (250 :: nat,
      map lit [''smoke.test'', ''PIPELINING'', ''STARTTLS'', ''SMTPUTF8''])))"
    by simp code_simp
  have b: "(format_command_arg (lit ''EHLO'') (exp_ehlo e) @ format_command (lit ''STARTTLS'')) @
      format_command_arg (lit ''EHLO'') (exp_ehlo e) = session_start e Starttls"
    by (simp add: session_start_def plain_bytes_def format_command_def format_command_arg_def
        ehlo_line_def lit_def)
  show thesis
    by (rule starttls_connects [OF plain tls up [unfolded responder_script(2)] conn
          h(1) [unfolded responder_script(3)] h(2) smoke_accepts(1,3,4) _ smoke_accepts(2) adv dm],
        simp, rule that) (simp_all only: Starttls tls_mode.case b snd_conv list.sel drop_Suc_Cons drop_0 One_nat_def)
qed

subsection \<open>A world and a responder on a script\<close>

text \<open>A host with one stream, and a rustls, that both follow a script.\<close>

definition stream_io :: "(byte list \<times> byte list) wasi_io" where
  "stream_io =
     \<lparr>blocking_read = (\<lambda>(i, o') n. if i = [] then (Err StreamClosed, (i, o')) else (Ok (take n i), (drop n i, o'))),
      await_readable = (\<lambda>h. h), blocking_write_and_flush = (\<lambda>(i, o') b. (Ok (), (i, o' @ b))),
      shutdown_both = (\<lambda>h. (Ok (), h)), quote_debug = (\<lambda>s. s)\<rparr>"

definition harness_world :: "tls_mode \<Rightarrow> (byte list, byte list list, byte list, byte list list, str,
    byte list \<times> byte list, byte list \<times> byte list, unit, bool, unit) wasi_world" where
  "harness_world mode =
     \<lparr>ww_lib = lax_lib, ww_roots = bundled_build, ww_tls = scripted_tls (tls_script mode),
      ww_io = stream_io, ww_net = one_host (plain_script mode, []), ww_features = default_features,
      ww_crypto = toy_crypto, ww_entropy = None\<rparr>"

lemma stream_io_answers: "plain_answers stream_io fst (\<lambda>_. True) snd"
proof -
  have "\<exists>h'. snd h' = snd h \<and>
      (if fst h = [] then blocking_read stream_io h n = (Err StreamClosed, h') \<and> fst h' = []
       else \<exists>bs. blocking_read stream_io h n = (Ok bs, h') \<and> bs \<noteq> [] \<and> length bs \<le> n \<and>
              fst h = bs @ fst h')" if "0 < n" for h and n :: nat
    using that
    by (intro exI [of _ "if fst h = [] then h else (drop n (fst h), snd h)"])
       (simp add: stream_io_def split: prod.split)
  then show ?thesis by (simp add: plain_answers_def) (simp add: stream_io_def)
qed

lemma harness_world_answers:
  "tls_answers (harness_world mode) (fst \<circ> fst) (\<lambda>_. True) (\<lambda>s. snd (snd s) @ snd (fst s))"
  by (auto simp: tls_answers_def harness_world_def scripted_tls_def split: prod.splits)

lemma harness_target:
  "tls_target (harness_world mode) host (wasi_with_root_store store connect_options_default) = Ok (host, store)"
  by (simp add: tls_target_def harness_world_def wasi_with_root_store_def connect_options_default_def
      wasi_server_name_def make_tls_config_store lax_lib_def pki.defs)

lemma harness_world_heard:
  "responder_heard (harness_world mode) mode port (wasi_with_root_store store connect_options_default) ()
     (fst \<circ> fst) (\<lambda>_. True) (\<lambda>s. snd (snd s) @ snd (fst s))"
proof -
  let ?W = "harness_world mode" and ?opts = "wasi_with_root_store store connect_options_default"
  have tcp: "tcp_connect (ww_net ?W) (lit ''127.0.0.1'') port () = Some (Ok (plain_script mode, []), ())"
    by (simp add: harness_world_def one_host_connects)
  show ?thesis
  proof (cases mode)
    case Implicit
    have "tls_handshake (ww_tls ?W) (ww_io ?W) ([], []) (lit ''127.0.0.1'') store =
        Ok ((tls_script Implicit, []), ([], []))"
      by (simp add: tls_handshake_def harness_world_def scripted_tls_def Implicit)
    then show ?thesis
      using tcp harness_target [of mode "lit ''127.0.0.1''" store] Implicit
      by (auto simp: responder_heard_def connect_implicit_tls_def)
  next
    case Starttls
    have "plain_answers (ww_io ?W) fst (\<lambda>_. True) snd"
      using stream_io_answers by (simp add: harness_world_def)
    moreover have "upgrade_answers_on ?W (lit ''127.0.0.1'') store fst (\<lambda>_. True) snd
        (fst \<circ> fst) (\<lambda>_. True) (\<lambda>s. snd (snd s) @ snd (fst s)) (tls_script Starttls)"
      by (simp add: upgrade_answers_on_def harness_world_def scripted_tls_def Starttls)
    moreover have "connect_plain ?W (lit ''127.0.0.1'') port ?opts () =
        Some (Ok \<lparr>wt_inner = Plain (plain_script Starttls, []), wt_sni = lit ''127.0.0.1'',
          wt_tls_config = Some store\<rparr>, ())"
      using tcp harness_target [of mode "lit ''127.0.0.1''" store] Starttls by (simp add: connect_plain_def)
    ultimately show ?thesis
      using harness_target [of mode "lit ''127.0.0.1''" store] Starttls
      unfolding responder_heard_def by fastforce
  qed
qed

end
