(* ===== verification/Component_Harness.thy ===== *)
theory Component_Harness
  imports Harness_Wire Component_Smoke
begin

text \<open>
  The component under its harness: what \<open>tools/component-smoke\<close> asserts of the artifact holds of the
  component's model.
\<close>

subsection \<open>What the harness sends\<close>

definition component_lines :: "str list" where
  "component_lines = map lit [''From: smoke@example.com'', ''To: rcpt@example.org'',
     ''Subject: component smoke'', [], ''first line'', ''.leading-dot'', ''last line'']"

lemma component_message_lines: "msg_raw COMPONENT_MESSAGE = crlf_text component_lines"
  by (simp add: COMPONENT_MESSAGE_def component_lines_def)

lemma component_mail:
  "smoke_mail f COMPONENT (cr_username COMPONENT_CREDENTIALS) (cr_password COMPONENT_CREDENTIALS)
     component_lines"
proof -
  have "validate_ehlo_domain (exp_ehlo COMPONENT) = Ok ()"
    "validate_address (exp_from COMPONENT) = Ok ()" "validate_address (exp_rcpt COMPONENT) = Ok ()"
    by code_simp+
  moreover have "validate_credentials f auth_mechanism.Plain (cr_username COMPONENT_CREDENTIALS)
      (cr_password COMPONENT_CREDENTIALS) = Ok ()"
    by code_simp
  ultimately show ?thesis
    by (simp add: smoke_mail_def valid_utf8_ascii is_ascii_def)
       (simp add: COMPONENT_def COMPONENT_CREDENTIALS_def component_lines_def lit_def valid_utf8_ascii
         is_ascii_def)
qed

definition component_auth :: str where
  "component_auth = build_auth_plain_initial_response (cr_username COMPONENT_CREDENTIALS)
     (cr_password COMPONENT_CREDENTIALS)"

lemma component_bytes:
  "session_start COMPONENT mode @ delivery_bytes COMPONENT_CREDENTIALS COMPONENT_MESSAGE =
   session_wire COMPONENT component_auth component_lines mode"
proof -
  have m: "msg_from COMPONENT_MESSAGE = exp_from COMPONENT" "msg_to COMPONENT_MESSAGE = [exp_rcpt COMPONENT]"
    by (simp_all add: COMPONENT_MESSAGE_def)
  note ls = smoke_mail_args(3,4) [OF component_mail]
  show ?thesis
    using client_line_bytes [OF ls, of component_auth COMPONENT]
    by (simp add: session_wire_def delivery_bytes_def component_auth_def m component_message_lines)
qed

lemma component_delivery_valid: "delivery_valid f COMPONENT_CREDENTIALS COMPONENT_MESSAGE"
  using smoke_mail_args(2) [OF component_mail] component_mail [of f]
  by (simp add: delivery_valid_def smoke_mail_def COMPONENT_MESSAGE_def)

text \<open>What the component writes; the mechanism it chooses is PLAIN in every build.\<close>

definition component_wire :: "tls_mode \<Rightarrow> byte list" where
  "component_wire = session_wire COMPONENT component_auth component_lines"

lemma responder_mechanism: "select_auth_mechanism f smoke_caps = Some auth_mechanism.Plain"
proof -
  have "\<not> ehlo_advertises_auth smoke_caps (mechanism_name ScramSha256)" by code_simp
  then show ?thesis using smoke_auth_advertised by (simp add: select_auth_mechanism_def)
qed

subsection \<open>The responder on what the component writes\<close>

text \<open>
  A host whose listener and certificate work, and whose responder, once the guest connects, reads
  \<open>b\<close>; its TLS layer hands the responder what is left of it as the plaintext of the session.
\<close>

definition harness_reads ::
    "('der, 'key, 'cfg, byte list \<times> byte list, byte list \<times> byte list) component_host \<Rightarrow> str \<Rightarrow> str \<Rightarrow>
     u16 \<Rightarrow> tls_mode \<Rightarrow> byte list \<Rightarrow> bool" where
  "harness_reads H cert_pem key_pem port mode b \<longleftrightarrow>
     ch_bind H = Ok (Ok port) \<and> ch_nonblocking H = Ok () \<and> ch_plain H = wire_io \<and> ch_tls H = wire_io \<and>
     (\<exists>cfg. server_config (ch_server H) cert_pem key_pem = Ok cfg \<and>
        ch_accept H cfg = (\<lambda>(i, _). Ok (i, []))) \<and>
     accept_loop (ch_polls H mode (CustomAnchors cert_pem)) 0 = Some (Ok (b, []))"

definition positive_case :: "tls_mode \<Rightarrow> component_case" where
  "positive_case mode = (case mode of Implicit \<Rightarrow> CustomImplicit | Starttls \<Rightarrow> CustomStartTls)"

lemma positive_passes:
  assumes H: "harness_reads H cert_pem key_pem port mode (component_wire mode)"
    and send: "create_and_send A (ch_debug H) port mode (CustomAnchors cert_pem) = Some (Ok (SentOk 250))"
  shows "run_case H A (positive_case mode) (Ok (cert_pem, key_pem)) = Some (Ok ())"
proof -
  obtain cfg where h: "ch_bind H = Ok (Ok port)" "ch_nonblocking H = Ok ()"
    "server_config (ch_server H) cert_pem key_pem = Ok cfg"
    and io: "ch_plain H = wire_io" "ch_tls H = wire_io" "ch_accept H cfg = (\<lambda>(i, _). Ok (i, []))"
    "accept_loop (ch_polls H mode (CustomAnchors cert_pem)) 0 = Some (Ok (component_wire mode, []))"
    using H by (auto simp: harness_reads_def)
  let ?r = "session_recording COMPONENT component_auth component_lines mode"
  have "serve_case H (mode = Starttls) cfg (ch_polls H mode (CustomAnchors cert_pem)) = Some (?r, Ok ())"
    using session_served [OF component_mail, of mode]
    by (simp add: serve_case_def io component_wire_def component_auth_def split: if_splits)
  then have "positive H A (mode = Starttls) cert_pem key_pem = Some (Ok ())"
    using h send session_checked [OF component_mail, of component_auth mode]
    by (cases mode) (simp_all add: positive_def with_responder_def)
  then show ?thesis by (cases mode) (simp_all add: run_case_def positive_case_def)
qed

subsection \<open>The component on what the responder says\<close>

text \<open>The configuration the harness creates.\<close>

definition harness_config :: "tls_mode \<Rightarrow> u16 \<Rightarrow> 'store \<Rightarrow> 'store config_state" where
  "harness_config mode port store =
     \<lparr>cf_host = lit ''127.0.0.1'', cf_port = port, cf_ehlo_domain = exp_ehlo COMPONENT,
      cf_tls_mode = mode, cf_roots = Some store\<rparr>"

lemma component_domain: "validate_ehlo_domain (exp_ehlo COMPONENT) = Ok ()"
  by code_simp

lemma component_sends:
  assumes "parse_custom (pki.truncate (ww_lib W)) cert_pem = Ok store"
    and "send_impl W (harness_config mode port store) COMPONENT_CREDENTIALS COMPONENT_MESSAGE w =
       Some (Ok code, d)"
  shows "create_and_send (component_artifact W w) debug port mode (CustomAnchors cert_pem) =
     Some (Ok (SentOk code))"
proof -
  have "config_validate (pki.truncate (ww_lib W)) (lit ''127.0.0.1'') port (exp_ehlo COMPONENT)
      mode (CustomAnchors cert_pem) = Ok (harness_config mode port store)"
    using assms(1) component_domain
    by (simp add: config_validate_def resolve_trust_def harness_config_def)
  then show ?thesis using assms(2) by (simp add: create_and_send_def component_artifact_def guest_create_def
        guest_send_def)
qed

subsection \<open>The negative case\<close>

text \<open>
  With the bundled anchors the handshake with the harness's certificate fails: when the adapter reports
  it with a text that names the certificate, the component has no client, writes nothing, and fails
  with this text; and the case passes with any responder that has recorded nothing.
\<close>

lemma bundled_case_passes:
  assumes failed: "connect_implicit_tls W (lit ''127.0.0.1'') port connect_options_default w = Some (Err e, w')"
    and names: "names_any CERTIFICATE_WORDS
       (to_lowercase (ch_lower H) (ch_debug H (IoSendError (wasi_message e))))"
    and host: "ch_bind H = Ok (Ok port)" "ch_nonblocking H = Ok ()"
      "server_config (ch_server H) cert_pem key_pem = Ok cfg"
    and silent: "serve_case H False cfg (ch_polls H Implicit BundledAnchors) = Some (r, result)" "rec_lines r = []"
  shows "run_case H (component_artifact W w) BundledRefused (Ok (cert_pem, key_pem)) = Some (Ok ())"
proof -
  let ?config = "\<lparr>cf_host = lit ''127.0.0.1'', cf_port = port, cf_ehlo_domain = exp_ehlo COMPONENT,
     cf_tls_mode = Implicit, cf_roots = None\<rparr>"
  have "guest_create (pki.truncate (ww_lib W)) (\<lambda>s. s) (lit ''127.0.0.1'') port (exp_ehlo COMPONENT)
      Implicit BundledAnchors = Ok ?config"
    using component_domain by (simp add: guest_create_def config_validate_def resolve_trust_def)
  moreover have "send_impl W ?config cr m w = Some (Err (IoSendError (wasi_message e)), None)" for cr m
    using failed
    by (simp add: send_impl_def component_options_def connect_smtps_with_def smtp_error_to_wit_def
        io_error_of_wasi_def with_source_def)
  ultimately have "create_and_send (component_artifact W w) (ch_debug H) port Implicit BundledAnchors =
      Some (Ok (SentErr (ch_debug H (IoSendError (wasi_message e)))))"
    by (simp add: create_and_send_def component_artifact_def guest_send_def)
  moreover have "check_refused r False (exp_ehlo COMPONENT) = Ok ()"
    using silent(2) check_refused_exact [of r False] by simp
  ultimately show ?thesis
    using host silent(1) names
    by (simp add: run_case_def refused_def with_responder_def check_refusal_def)
qed

subsection \<open>Properties\<close>

text \<open>
  C8: the component passes the positive cases of its own harness, with implicit TLS and with STARTTLS:
  with the harness's certificate as the custom anchor, in a world whose connection is made and says
  what the scripted responder says, creating the configuration and sending succeed with 250; the
  connection has been given exactly the bytes of the component; and with a responder that reads these
  bytes the case passes, its assertion on the recording included.
\<close>

theorem component_passes_harness:
  fixes W :: "('der, 'store, 'anchor, 'config, 'name, 'conn, 'h, 'w, 'q, 's) wasi_world"
  assumes tls: "tls_answers W inc rd wr"
    and anchors: "parse_custom (pki.truncate (ww_lib W)) cert_pem = Ok store"
    and heard: "responder_heard W mode port (wasi_with_root_store store connect_options_default) w inc rd wr"
    and host: "harness_reads H cert_pem key_pem port mode (component_wire mode)"
  shows "\<exists>d s' t'. send_impl W (harness_config mode port store) COMPONENT_CREDENTIALS COMPONENT_MESSAGE w =
       Some (Ok 250, Some d) \<and> wt_inner t' = Tls s' \<and> wr s' = component_wire mode \<and>
     transport d = snd (wasi_transport_close (ww_tls W) (ww_io W) t') \<and>
     run_case H (component_artifact W w) (positive_case mode) (Ok (cert_pem, key_pem)) = Some (Ok ())"
proof -
  let ?config = "harness_config mode port store"
  have opts: "component_options ?config = wasi_with_root_store store connect_options_default"
    by (simp add: component_options_def harness_config_def)
  obtain c w' where conn: "(case mode of
       Implicit \<Rightarrow> connect_smtps_with W (lit ''127.0.0.1'') port (exp_ehlo COMPONENT) (component_options ?config) w
     | Starttls \<Rightarrow> connect_smtp_starttls_with W (lit ''127.0.0.1'') port (exp_ehlo COMPONENT)
         (component_options ?config) w) = Some (Ok c, w')"
    and at: "follows (on_session [] inc) (on_session False rd) (on_session [] wr) c after_ehlo
       (session_start COMPONENT mode) c"
    and c: "state c = Authentication" "policy c = default_policy" "capabilities c = smoke_caps"
    unfolding opts by (rule session_connects [OF tls heard component_domain])
  have at': "follows (on_session [] inc) (on_session False rd) (on_session [] wr) c
      (delivery_script [lit ''2.7.0 Authentication successful''] smoke_transaction (221, [lit ''2.0.0 Bye'']) @ [])
      (session_start COMPONENT mode) c"
    using at by (simp add: after_ehlo_script)
  have mech: "select_auth_mechanism (ww_features W) (capabilities c) = Some auth_mechanism.Plain"
    by (simp add: c(3) responder_mechanism)
  have srv: "delivery_accepts [lit ''2.7.0 Authentication successful''] smoke_transaction
      (221, [lit ''2.0.0 Bye'']) (msg_to COMPONENT_MESSAGE)"
    using responder_accepts by (simp add: COMPONENT_MESSAGE_def)
  obtain d s' t' where d: "deliver (wasi_env W) COMPONENT_CREDENTIALS COMPONENT_MESSAGE c = (Ok 250, d)"
    and t': "wt_inner t' = Tls s'" "wr s' = component_wire mode"
      "transport d = snd (wasi_transport_close (ww_tls W) (ww_io W) t')"
    using session_delivers [OF tls at' c(1,2) mech srv component_delivery_valid]
    unfolding component_bytes responder_message component_wire_def by blast
  have sent: "send_impl W ?config COMPONENT_CREDENTIALS COMPONENT_MESSAGE w = Some (Ok 250, Some d)"
    using conn d by (cases mode) (simp_all add: send_impl_def harness_config_def)
  show ?thesis
    using sent t' positive_passes [OF host component_sends [OF anchors sent]] by blast
qed

text \<open>A harness whose responder reads the script.\<close>

definition sample_host :: "(unit, unit, unit, byte list \<times> byte list, byte list \<times> byte list) component_host" where
  "sample_host =
     \<lparr>ch_server = \<lparr>pem_slice_iter = (\<lambda>_. []), key_from_pem_slice = (\<lambda>_. Ok ()),
        default_protocol_versions = Ok (), with_single_cert = (\<lambda>_ _. Ok ())\<rparr>,
      ch_bind = Ok (Ok 465), ch_nonblocking = Ok (),
      ch_polls = (\<lambda>mode _ _. Accepted (Ok (component_wire mode, []))), ch_plain = wire_io, ch_tls = wire_io,
      ch_accept = (\<lambda>_ (i, _). Ok (i, [])), ch_lower = (\<lambda>_ _. []), ch_debug = (\<lambda>_. [])\<rparr>"

lemma sample_host_reads: "harness_reads sample_host cert_pem key_pem 465 mode (component_wire mode)"
proof -
  have "accept_loop (ch_polls sample_host mode (CustomAnchors cert_pem)) 0 =
      Some (Ok (component_wire mode, []))"
    by (subst accept_loop.simps) (simp add: sample_host_def)
  then show ?thesis
    by (simp add: harness_reads_def) (simp add: sample_host_def server_config_def)
qed

theorem component_passes_harness_witness:
  "\<exists>d. send_impl (harness_world Starttls) (harness_config Starttls 465 [drop 5 sample_pem])
       COMPONENT_CREDENTIALS COMPONENT_MESSAGE () = Some (Ok 250, Some d) \<and>
     run_case sample_host (component_artifact (harness_world Starttls) ()) CustomStartTls
       (Ok (sample_pem, [])) = Some (Ok ())"
proof -
  have "pki.truncate lax_lib = lax_pki" by (simp add: lax_lib_def pki.defs)
  then have "parse_custom (pki.truncate (ww_lib (harness_world Starttls))) sample_pem = Ok [drop 5 sample_pem]"
    using sample_parsed by (simp add: harness_world_def)
  from component_passes_harness [OF harness_world_answers this harness_world_heard sample_host_reads]
  show ?thesis by (auto simp: positive_case_def)
qed

end
