(* ===== verification/Guest_Harness.thy ===== *)
theory Guest_Harness
  imports Harness_Wire Smoke_Driver
begin

text \<open>
  The on-target smoke test as a whole: the guest of \<open>wasm-smtp-wasi/examples/smoke.rs\<close>, run by the
  driver of \<open>tools/smoke/src/main.rs\<close> with the arguments the driver gives it, on a connection that
  says what the driver's responder says.
\<close>

subsection \<open>What the guest sends\<close>

definition guest_lines :: "str list" where
  "guest_lines = map lit [''From: smoke@example.com'', ''To: rcpt@example.org'', ''Subject: smoke'', [],
     ''first line'', ''.leading-dot'', ''last line'']"

lemma guest_message_lines: "GUEST_MESSAGE = crlf_text guest_lines"
  by (simp add: GUEST_MESSAGE_def guest_lines_def)

lemma guest_mail: "smoke_mail f SMOKE (lit ''smoke@example.com'') (lit ''secret'') guest_lines"
proof -
  have "validate_ehlo_domain (exp_ehlo SMOKE) = Ok ()"
    "validate_address (exp_from SMOKE) = Ok ()" "validate_address (exp_rcpt SMOKE) = Ok ()"
    by code_simp+
  moreover have "validate_credentials f auth_mechanism.Plain (lit ''smoke@example.com'') (lit ''secret'') = Ok ()"
    by code_simp
  ultimately show ?thesis
    by (simp add: smoke_mail_def)
       (simp add: SMOKE_def guest_lines_def lit_def valid_utf8_ascii is_ascii_def)
qed

definition guest_auth :: str where
  "guest_auth = build_auth_plain_initial_response (lit ''smoke@example.com'') (lit ''secret'')"

definition guest_wire :: "tls_mode \<Rightarrow> byte list" where
  "guest_wire = session_wire SMOKE guest_auth guest_lines"

subsection \<open>The guest's session\<close>

context client_talk
begin

text \<open>Unlike the component's, it fails when closing the connection does.\<close>

lemma guest_session_talk:
  assumes at: "at c after_ehlo w c" and c: "state c = Authentication" "policy c = default_policy"
    "capabilities c = smoke_caps"
    and close: "\<And>t. ready t \<Longrightarrow> \<not> isl (fst (t_close (e_ops env) t))"
  shows "\<exists>d (e :: 't client). guest_session env c = (Ok (), d) \<and> ready (transport e) \<and>
     written (transport e) = w @ after_ehlo_bytes SMOKE guest_auth guest_lines \<and>
     transport d = snd (t_close (e_ops env) (transport e)) \<and> state d = Closed"
proof -
  let ?hello = "[lit ''2.7.0 Authentication successful'']" and ?bye = "(221, [lit ''2.0.0 Bye''])"
  have hello: "?hello \<noteq> []" "list_all line_ok ?hello" "length ?hello \<le> MAX_REPLY_LINES"
    using smoke_lines_ok by (simp_all add: MAX_REPLY_LINES_def)
  have adv: "ehlo_advertises_auth (capabilities c) (mechanism_name auth_mechanism.Plain)"
    using c(3) smoke_auth_advertised by simp
  have script: "at c (render_reply 235 ?hello @ server_says smoke_transaction @ say ?bye @ []) w c"
    using at by (simp add: after_ehlo_def)
  have valid: "validate_credentials (e_features env) auth_mechanism.Plain (lit ''smoke@example.com'') (lit ''secret'') = Ok ()"
    using guest_mail by (simp add: smoke_mail_def)
  obtain c1 c2 o' where run: "login_with env auth_mechanism.Plain (lit ''smoke@example.com'') (lit ''secret'') c = (Ok (), c1)"
    "send_mail env (exp_from SMOKE) [exp_rcpt SMOKE] GUEST_MESSAGE c1 = (Ok o', c2)"
    and at2: "at c2 (say ?bye @ []) (w @ lit ''AUTH PLAIN '' @ guest_auth @ CRLF @
       envelope_bytes (format_mail_from (exp_from SMOKE)) [exp_rcpt SMOKE] @ dot_stuff_and_terminate GUEST_MESSAGE) c2"
    and c2: "state c2 = MailFrom"
    by (rule mail_talk [OF script c(1) hello smoke_accepts(6) valid smoke_mail_args(2) [OF guest_mail] adv c(2),
          of GUEST_MESSAGE]) (auto simp: guest_auth_def)
  obtain e :: "'t client" where e: "ready (transport e)"
      "written (transport e) = w @ after_ehlo_bytes SMOKE guest_auth guest_lines"
    and fin: "transport (snd (quit env c2)) = snd (t_close (e_ops env) (transport e))"
      "fst (quit env c2) = map_err Io (fst (t_close (e_ops env) (transport e)))"
      "state (snd (quit env c2)) = Closed"
    using quit_talk [OF at2 _ smoke_accepts(5)] c2
      client_line_bytes [OF smoke_mail_args(3,4) [OF guest_mail], of guest_auth SMOKE]
    by (auto simp: guest_message_lines)
  have "fst (quit env c2) = Ok ()"
    using fin(2) close [OF e(1)] by (cases "fst (t_close (e_ops env) (transport e))") simp_all
  then have "quit env c2 = (Ok (), snd (quit env c2))" by (simp add: prod_eq_iff)
  then have "guest_session env c = (Ok (), snd (quit env c2))"
    using run by (simp add: guest_session_def) (simp add: SMOKE_def)
  then show ?thesis using e fin(1,3) by blast
qed

end

text \<open>Over the WASI adapter closing succeeds when shutting the socket down does.\<close>

lemma wasi_closes:
  assumes "\<And>h. \<not> isl (fst (shutdown_both H h))"
  shows "\<not> isl (fst (wasi_transport_close T H t))"
proof -
  have closed: "\<not> isl (map_err io_error_of_wasi (fst (wasi_close H h)))" for h
    using assms [of h] by (cases "shutdown_both H h"; cases "fst (shutdown_both H h)") (auto simp: wasi_close_def)
  show ?thesis
    by (cases "wt_inner t") (simp_all add: wasi_transport_close_def Let_def closed split: prod.split)
qed

subsection \<open>The driver and its guest\<close>

definition guest_tls :: "smoke_mode \<Rightarrow> tls_mode" where
  "guest_tls mode = (if speaks_starttls mode then Starttls else Implicit)"

text \<open>
  A host for the driver whose listener and certificate work, and which runs the guest: the arguments
  after wasmtime's own are the guest's, the exit code is the guest's, and the responder reads \<open>b\<close> and,
  from the TLS layer, what is left of it as the plaintext of the session.
\<close>

definition guest_args ::
    "('der, 'key, 'cfg, 'sock, 'tls) smoke_host \<Rightarrow> str \<Rightarrow> smoke_mode \<Rightarrow> u16 \<Rightarrow> str \<Rightarrow> str list" where
  "guest_args H guest mode port ca_path = drop 7 (wasmtime_args H guest mode port ca_path)"

definition driver_runs ::
    "('d, 'key, 'cfg, byte list \<times> byte list, byte list \<times> byte list) smoke_host \<Rightarrow>
     (str list \<Rightarrow> ((guest_error + unit) \<times> 'c) option) \<Rightarrow> smoke_mode \<Rightarrow> str \<Rightarrow> str \<Rightarrow> str \<Rightarrow> str \<Rightarrow> u16 \<Rightarrow>
     byte list \<Rightarrow> bool" where
  "driver_runs H run mode guest ca_path cert_pem key_pem port b \<longleftrightarrow>
     sh_bind H = Ok (Ok port) \<and> sh_plain H = wire_io \<and> sh_tls H = wire_io \<and>
     (\<exists>cfg. server_config (sh_server H) cert_pem key_pem = Ok cfg \<and> sh_accept H cfg = (\<lambda>(i, _). Ok (i, []))) \<and>
     (\<exists>res. sh_run H (wasmtime_program H) (wasmtime_args H guest mode port ca_path) =
          (Ok res, Some (Ok (b, []))) \<and>
        (\<forall>r c. run (guest_args H guest mode port ca_path) = Some (r, c) \<longrightarrow>
           out_status res = Exited (guest_exit r)))"

lemma guest_args:
  "guest_args H guest mode port ca_path =
   [guest, guest_arg mode, lit ''127.0.0.1'', show_nat (unat port), ca_path]"
  by (simp add: guest_args_def wasmtime_args_def Let_def)

lemma positive_modes:
  assumes "mode \<in> {SmokeImplicit, SmokeStartTls}"
  shows "guest_arg mode = (case guest_tls mode of Implicit \<Rightarrow> lit ''implicit'' | Starttls \<Rightarrow> lit ''starttls'')"
    and "\<not> is_negative mode" and "speaks_starttls mode \<longleftrightarrow> guest_tls mode = Starttls"
    and "mode = SmokeStartTls \<longleftrightarrow> guest_tls mode = Starttls"
  using assms by (auto simp: guest_arg_def guest_tls_def speaks_starttls_def is_negative_def)

lemma driver_passes:
  assumes mode: "mode \<in> {SmokeImplicit, SmokeStartTls}"
    and H: "driver_runs H run mode guest ca_path cert_pem key_pem port (guest_wire (guest_tls mode))"
    and run: "run (guest_args H guest mode port ca_path) = Some (Ok (), c)"
  shows "run_mode H mode guest ca_path cert_pem key_pem = Some (Ok ())"
proof -
  let ?r = "session_recording SMOKE guest_auth guest_lines (guest_tls mode)"
  obtain cfg ran where h: "server_config (sh_server H) cert_pem key_pem = Ok cfg" "sh_bind H = Ok (Ok port)"
    "sh_run H (wasmtime_program H) (wasmtime_args H guest mode port ca_path) =
       (Ok ran, Some (Ok (guest_wire (guest_tls mode), [])))"
    and out: "out_status ran = Exited 0"
    and io: "sh_plain H = wire_io" "sh_tls H = wire_io" "sh_accept H cfg = (\<lambda>(i, _). Ok (i, []))"
    using H run by (auto simp: driver_runs_def guest_exit_def)
  have served: "responder H mode cfg (Some (Ok (guest_wire (guest_tls mode), []))) = Some (?r, Ok ())"
    using session_served [OF guest_mail, of "guest_tls mode"]
    by (simp add: responder_def io positive_modes(3) [OF mode] guest_wire_def guest_auth_def split: if_splits)
  have "check_smoke mode ?r = Ok ()"
    using session_checked [OF guest_mail, of guest_auth "guest_tls mode"]
    by (simp add: check_smoke_def positive_modes(4) [OF mode])
  then have "judge (sh_lower H) mode ran (?r, Ok ()) = Ok ()"
    using judge_positive [OF positive_modes(2) [OF mode], of "sh_lower H" ran "(?r, Ok ())"] out
    by (simp add: success_def)
  then show ?thesis using h served by (simp add: run_mode_def)
qed

subsection \<open>Properties\<close>

text \<open>
  C9: the on-target smoke test passes, with implicit TLS and with STARTTLS: in a world whose connection
  is made and says what the scripted responder says, whose CA file has the certificate, and whose
  sockets can be shut down, the guest on the arguments the driver gives it ends without an error,
  closing included; its connection has been given exactly the bytes of its session; and a driver
  that runs this guest, with a responder that reads these bytes, reports the mode as passed.
\<close>

theorem guest_passes_driver:
  fixes W :: "('der, 'store, 'anchor, 'config, 'name, 'conn, 'h, 'w, 'q, 's) wasi_world"
  assumes tls: "tls_answers W inc rd wr" and shut: "\<And>h. \<not> isl (fst (shutdown_both (ww_io W) h))"
    and ca: "pem_file_iter ca_path = Ok certs" "add_ca_certs (ww_lib W) certs (store_empty (ww_lib W)) = Ok roots"
    and heard: "responder_heard W (guest_tls mode) port (wasi_with_root_store roots connect_options_default) w inc rd wr"
    and mode: "mode \<in> {SmokeImplicit, SmokeStartTls}"
    and host: "driver_runs H (\<lambda>args. guest_run W pem_file_iter args w) mode guest ca_path cert_pem key_pem port
       (guest_wire (guest_tls mode))"
  shows "\<exists>d s' t'. guest_run W pem_file_iter (guest_args H guest mode port ca_path) w = Some (Ok (), Some d) \<and>
     wt_inner t' = Tls s' \<and> wr s' = guest_wire (guest_tls mode) \<and>
     transport d = snd (wasi_transport_close (ww_tls W) (ww_io W) t') \<and> state d = Closed \<and>
     run_mode H mode guest ca_path cert_pem key_pem = Some (Ok ())"
proof -
  let ?options = "wasi_with_root_store roots connect_options_default"
  have dm: "validate_ehlo_domain (exp_ehlo SMOKE) = Ok ()" using guest_mail by (simp add: smoke_mail_def)
  obtain c w' where conn: "(case guest_tls mode of
       Implicit \<Rightarrow> connect_smtps_with W (lit ''127.0.0.1'') port (exp_ehlo SMOKE) ?options w
     | Starttls \<Rightarrow> connect_smtp_starttls_with W (lit ''127.0.0.1'') port (exp_ehlo SMOKE) ?options w) =
       Some (Ok c, w')"
    and at: "follows (on_session [] inc) (on_session False rd) (on_session [] wr) c after_ehlo
       (session_start SMOKE (guest_tls mode)) c"
    and c: "state c = Authentication" "policy c = default_policy" "capabilities c = smoke_caps"
    by (rule session_connects [OF tls heard dm])
  have close: "\<not> isl (fst (t_close (e_ops (wasi_env W)) t))" for t :: "('conn, 'h, 'config, 'name) wasi_transport"
    using wasi_closes [OF shut, of "ww_tls W" t] by simp
  obtain d and e :: "('conn, 'h, 'config, 'name) wasi_transport client"
    where d: "guest_session (wasi_env W) c = (Ok (), d)" "state d = Closed"
      and e: "on_session False rd (transport e)"
        "on_session [] wr (transport e) = guest_wire (guest_tls mode)"
        "transport d = snd (wasi_transport_close (ww_tls W) (ww_io W) (transport e))"
    using client_talk.guest_session_talk [OF tls_talk [OF tls] at c close]
    by (auto simp: guest_wire_def session_wire_def)
  obtain s' where s': "wt_inner (transport e) = Tls s'" using e(1) by (auto simp: on_session_ready)
  have "unat port \<le> 65535" using unsigned_less [where ?'a = nat, of port] by simp
  then have "parse_uint 65535 (show_nat (unat port)) = Some (unat port)" by (rule parse_uint_show_nat)
  then have ran: "guest_run W pem_file_iter (guest_args H guest mode port ca_path) w = Some (Ok (), Some d)"
    using ca conn d(1) positive_modes(1) [OF mode]
    by (cases "guest_tls mode")
      (simp_all add: guest_run_def guest_args guest_connected_def SMOKE_def lit_def)
  show ?thesis
    using ran driver_passes [OF mode host ran] s' e(2,3) d(2)
    by (intro exI [of _ d] exI [of _ s'] exI [of _ "transport e"]) simp
qed

text \<open>A driver that runs a guest, and the guest's file.\<close>

definition sample_driver ::
    "(str list \<Rightarrow> ((guest_error + unit) \<times> 'c) option) \<Rightarrow> smoke_mode \<Rightarrow>
     (unit, unit, unit, byte list \<times> byte list, byte list \<times> byte list) smoke_host" where
  "sample_driver run mode =
     \<lparr>sh_server = \<lparr>pem_slice_iter = (\<lambda>_. []), key_from_pem_slice = (\<lambda>_. Ok ()),
        default_protocol_versions = Ok (), with_single_cert = (\<lambda>_ _. Ok ())\<rparr>,
      sh_bind = Ok (Ok 465),
      sh_run = (\<lambda>program args.
        (Ok \<lparr>out_status = (case run (drop 7 args) of
               None \<Rightarrow> Signalled 9 | Some (r, c) \<Rightarrow> Exited (guest_exit r)), out_stderr = []\<rparr>,
         Some (Ok (guest_wire (guest_tls mode), [])))),
      sh_plain = wire_io, sh_tls = wire_io, sh_accept = (\<lambda>_ (i, _). Ok (i, [])),
      sh_parent = (\<lambda>_. None), sh_wasmtime = None, sh_lower = (\<lambda>_ _. [])\<rparr>"

lemma sample_driver_runs:
  "driver_runs (sample_driver run mode) run mode guest ca_path cert_pem key_pem 465 (guest_wire (guest_tls mode))"
  by (simp add: driver_runs_def guest_args_def) (auto simp: sample_driver_def server_config_def)

theorem guest_passes_driver_witness:
  "\<exists>d. guest_run (harness_world Starttls) (\<lambda>_. Ok [Ok [1]]) (guest_args
       (sample_driver (\<lambda>args. guest_run (harness_world Starttls) (\<lambda>_. Ok [Ok [1]]) args ()) SmokeStartTls)
       [] SmokeStartTls 465 []) () = Some (Ok (), Some d) \<and>
     run_mode (sample_driver (\<lambda>args. guest_run (harness_world Starttls) (\<lambda>_. Ok [Ok [1]]) args ()) SmokeStartTls)
       SmokeStartTls [] [] [] [] = Some (Ok ())"
proof -
  let ?W = "harness_world Starttls"
  have tls: "guest_tls SmokeStartTls = Starttls" by (simp add: guest_tls_def speaks_starttls_def)
  have shut: "\<not> isl (fst (shutdown_both (ww_io ?W) h))" for h
    by (simp add: harness_world_def) (simp add: stream_io_def)
  have ca: "\<exists>roots. add_ca_certs (ww_lib ?W) [Ok [1]] (store_empty (ww_lib ?W)) = Ok roots"
    by (simp add: harness_world_def) (simp add: lax_lib_def lax_pki_def pki.defs)
  then obtain roots where roots: "add_ca_certs (ww_lib ?W) [Ok [1]] (store_empty (ww_lib ?W)) = Ok roots" ..
  have heard: "responder_heard ?W (guest_tls SmokeStartTls) 465
      (wasi_with_root_store roots connect_options_default) () (fst \<circ> fst) (\<lambda>_. True)
      (\<lambda>s. snd (snd s) @ snd (fst s))"
    unfolding tls by (rule harness_world_heard)
  have ca_file: "(\<lambda>_. Ok [Ok [1]]) p = Ok [Ok [1]]" for p :: str by simp
  have "SmokeStartTls \<in> {SmokeImplicit, SmokeStartTls}" by simp
  from guest_passes_driver [where pem_file_iter = "\<lambda>_. Ok [Ok [1]]" and ca_path = "[]",
      OF harness_world_answers shut ca_file roots heard this sample_driver_runs]
  show ?thesis by blast
qed

end
