(* ===== verification/Error_Chain.thy ===== *)
theory Error_Chain
  imports Errors
begin

text \<open>
  The errors of \<open>wasm-smtp/src/error.rs\<close> as \<open>std::error::Error\<close>s: the remaining \<open>Display\<close> texts, the
  conversions into \<open>SmtpError\<close>, and the \<open>source\<close> chain that a caller walks from it.
\<close>

definition show_io_error :: "io_error \<Rightarrow> str" where
  "show_io_error e = io_message e"

definition show_policy_error :: "policy_error \<Rightarrow> str" where
  "show_policy_error e = policy_message e"

definition show_invalid_input_error :: "invalid_input_error \<Rightarrow> str" where
  "show_invalid_input_error e = reason e"

definition show_smtp_op :: "smtp_op \<Rightarrow> str" where
  "show_smtp_op op = op_as_str op"

text \<open>An error of the library, seen as a \<open>dyn Error\<close>: none of them is an \<open>std::io::Error\<close>.\<close>

definition io_error_as_std :: "io_error \<Rightarrow> std_error" where
  "io_error_as_std e = OtherError (show_io_error e) (io_source e)"

definition smtp_error_source :: "features \<Rightarrow> smtp_error \<Rightarrow> std_error option" where
  "smtp_error_source f e =
     (case e of
        Io x \<Rightarrow> Some (io_error_as_std x)
      | Protocol x \<Rightarrow> Some (OtherError (show_protocol_error x) None)
      | Auth x \<Rightarrow> Some (OtherError (show_auth_error f x) None)
      | InvalidInput x \<Rightarrow> Some (OtherError (show_invalid_input_error x) None)
      | Policy x \<Rightarrow> Some (OtherError (show_policy_error x) None))"

definition smtp_error_as_std :: "features \<Rightarrow> smtp_error \<Rightarrow> std_error" where
  "smtp_error_as_std f e = OtherError (show_smtp_error f e) (smtp_error_source f e)"

text \<open>The chain as a caller prints it.\<close>

fun chain_texts :: "std_error \<Rightarrow> str list" where
  "chain_texts (StdIoError k m None) = [m]"
| "chain_texts (StdIoError k m (Some e)) = m # chain_texts e"
| "chain_texts (OtherError m None) = [m]"
| "chain_texts (OtherError m (Some e)) = m # chain_texts e"

text \<open>
  Wrapping keeps the cause: walking from an \<open>SmtpError\<close> finds the kind that \<open>io_kind\<close> finds, and none
  for the errors that have no transport error below them.
\<close>

theorem smtp_error_kind:
  "kind_in_chain (smtp_error_as_std f e) = (case e of Io x \<Rightarrow> io_kind x | _ \<Rightarrow> None)"
proof -
  have "kind_in_chain (io_error_as_std x) = io_kind x" for x
    by (cases "io_source x") (simp_all add: io_error_as_std_def io_kind_def)
  then show ?thesis
    by (simp add: smtp_error_as_std_def smtp_error_source_def split: smtp_error.split)
qed

text \<open>
  What the chain shows: the text of the error is a category and then the text of its source, which is
  the next entry; an adapter's context and the texts below it follow in order.
\<close>

theorem smtp_error_chain:
  "\<exists>category src. smtp_error_source f e = Some src \<and>
     show_smtp_error f e = category @ std_error_text src \<and>
     chain_texts (smtp_error_as_std f e) = show_smtp_error f e # chain_texts src"
  "chain_texts (io_error_as_std (with_source context src)) = context # chain_texts src"
  by (cases e; simp add: smtp_error_source_def smtp_error_as_std_def show_smtp_error_def
        io_error_as_std_def show_io_error_def show_invalid_input_error_def show_policy_error_def)
     (simp add: io_error_as_std_def with_source_def show_io_error_def)

end
