(* ===== verification/Audit_Sink.thy ===== *)
theory Audit_Sink
  imports Client_Session
begin

text \<open>
  The sinks of \<open>wasm-smtp/src/audit.rs\<close> on a session: \<open>NoopAuditSink\<close>, and \<open>VecAuditSink\<close>, which
  collects the label of every event (its \<open>on_event\<close> is in \<open>Hooks\<close>).  The mutex around the labels is
  held for one call at a time and is not modelled.
\<close>

definition noop_on_event :: "unit \<Rightarrow> audit_event \<Rightarrow> unit" where
  "noop_on_event s e = s"

definition vec_sink_default :: "str list" where
  "vec_sink_default = []"

definition vec_sink_events :: "str list \<Rightarrow> str list" where
  "vec_sink_events s = s"

definition vec_sink_len :: "str list \<Rightarrow> nat" where
  "vec_sink_len s = length s"

definition vec_sink_is_empty :: "str list \<Rightarrow> bool" where
  "vec_sink_is_empty s = (s = [])"

text \<open>A label tells the event, the reply code and the mechanism included.\<close>

lemma debug_code_inj: "debug_code name c = debug_code name c' \<Longrightarrow> c = c'"
  by (simp add: debug_code_def show_word_def) (simp add: word_unat_eq_iff show_nat_inj)

lemma debug_event_inj: "debug_event e = debug_event e' \<longleftrightarrow> e = e'"
proof
  assume eq: "debug_event e = debug_event e'"
  show "e = e'"
  proof (cases e; cases e')
  qed (use eq debug_code_inj in \<open>auto simp: debug_code_def lit_def show_word_def dest: show_nat_inj\<close>)
qed simp

text \<open>
  What a \<open>VecAuditSink\<close> has collected at the end of any sequence of public methods tells exactly what
  the session did: two sessions left the same labels just if they went through the same events.
\<close>

theorem vec_sink_complete:
  "vec_sink_events (foldl vec_sink_on_event vec_sink_default (audit c)) =
     vec_sink_events (foldl vec_sink_on_event vec_sink_default (audit d)) \<longleftrightarrow> audit c = audit d"
  "vec_sink_len (foldl vec_sink_on_event vec_sink_default (audit c)) = length (audit c)"
  "vec_sink_is_empty (foldl vec_sink_on_event vec_sink_default (audit c)) \<longleftrightarrow> audit c = []"
proof -
  have "map debug_event es = map debug_event fs \<longleftrightarrow> es = fs" for es fs
    by (induction es arbitrary: fs) (auto simp: debug_event_inj Cons_eq_map_conv map_eq_Cons_conv)
  then show "vec_sink_events (foldl vec_sink_on_event vec_sink_default (audit c)) =
     vec_sink_events (foldl vec_sink_on_event vec_sink_default (audit d)) \<longleftrightarrow> audit c = audit d"
    by (simp add: vec_sink_events_def vec_sink_default_def vec_sink_log)
qed (simp_all add: vec_sink_default_def vec_sink_log vec_sink_len_def vec_sink_is_empty_def)

end
