(* ===== verification/Futures.thy ===== *)
theory Futures
  imports Client_Stream
begin

text \<open>
  Futures and the three copies of \<open>block_on\<close>: of \<open>wasm-smtp-test/src/lib.rs\<close>, of
  \<open>wasm-smtp-component/src/lib.rs\<close> and of \<open>wasm-smtp-wasi/examples/smoke.rs\<close>, each of which polls a
  future once and panics when it is pending.

  A future is its first poll, as a function of the state it borrows: a value, or \<open>Pending\<close>.  What it
  would do when polled again does not matter to \<open>block_on\<close>.  The operations of the other theories are
  the values of their futures; this theory shows when they are, and when \<open>block_on\<close> panics instead.
\<close>

datatype 'a poll = Ready 'a | Pending

type_synonym ('s, 'a) future = "'s \<Rightarrow> 'a poll \<times> 's"

text \<open>A panic, with its message.\<close>

datatype panic = Panic str

definition poll_once :: "string \<Rightarrow> ('s, 'a) future \<Rightarrow> 's \<Rightarrow> (panic + 'a) \<times> 's" where
  "poll_once msg fut s =
     (case fut s of
        (Ready v, s) \<Rightarrow> (Ok v, s)
      | (Pending, s) \<Rightarrow> (Err (Panic (lit msg)), s))"

definition block_on :: "('s, 'a) future \<Rightarrow> 's \<Rightarrow> (panic + 'a) \<times> 's" where
  "block_on = poll_once (''block_on: future returned Pending - '' @
     ''the MockTransport is probably out of scripted responses, or the future performs real async I/O'')"

definition component_block_on :: "('s, 'a) future \<Rightarrow> 's \<Rightarrow> (panic + 'a) \<times> 's" where
  "component_block_on = poll_once (''block_on: future returned Pending - '' @
     ''the WASI transport is expected to resolve on the first poll'')"

definition smoke_block_on :: "('s, 'a) future \<Rightarrow> 's \<Rightarrow> (panic + 'a) \<times> 's" where
  "smoke_block_on = poll_once ''smoke: future returned Pending; the WASI transport never yields''"

subsection \<open>Asynchronous functions\<close>

text \<open>A body that awaits nothing; \<open>.await\<close> followed by the rest; and \<open>.await?\<close>.\<close>

definition async :: "('s \<Rightarrow> 'a \<times> 's) \<Rightarrow> ('s, 'a) future" where
  "async f s = (case f s of (a, s) \<Rightarrow> (Ready a, s))"

definition await :: "('s, 'a) future \<Rightarrow> ('a \<Rightarrow> ('s, 'b) future) \<Rightarrow> ('s, 'b) future" where
  "await fut k s =
     (case fut s of
        (Ready a, s) \<Rightarrow> k a s
      | (Pending, s) \<Rightarrow> (Pending, s))"

definition await_try ::
    "('s, 'e + 'a) future \<Rightarrow> ('a \<Rightarrow> ('s, 'e + 'b) future) \<Rightarrow> ('s, 'e + 'b) future" where
  "await_try fut k = await fut (\<lambda>r. case r of Inl e \<Rightarrow> async (Pair (Inl e)) | Inr a \<Rightarrow> k a)"

text \<open>
  So \<open>async\<close> takes the model's composition of results to the composition of futures: what awaits
  only futures that are ready at once is ready at once, with the result of the model.
\<close>

lemma async_await: "await (async f) (\<lambda>a. async (g a)) = async (\<lambda>s. case f s of (a, s) \<Rightarrow> g a s)"
  by (rule ext) (simp add: await_def async_def split: prod.split)

lemma async_try: "await_try (async f) (\<lambda>a. async (g a)) = async (\<lambda>s. and_then (f s) g)"
  by (rule ext) (auto simp: await_try_def await_def async_def and_then_def split: prod.split sum.split)

lemma block_on_async [simp]:
  "poll_once msg (async f) s = (Ok (fst (f s)), snd (f s))"
  by (simp add: poll_once_def async_def split: prod.split)

lemma await_pending: "fut s = (Pending, s') \<Longrightarrow> await_try fut k s = (Pending, s')"
  by (simp add: await_try_def await_def)

subsection \<open>Receiving, with a transport of futures\<close>

text \<open>The futures of a transport, and the receiving operations of the client as they await them.\<close>

record 't transport_futures =
  read_future :: "nat \<Rightarrow> ('t, io_error + byte list) future"
  write_all_future :: "byte list \<Rightarrow> ('t, io_error + unit) future"

definition on_transport :: "('t, 'a) future \<Rightarrow> ('t client, 'a) future" where
  "on_transport fut c = (case fut (transport c) of (r, t) \<Rightarrow> (r, c\<lparr>transport := t\<rparr>))"

definition write_all_async ::
    "'t transport_futures \<Rightarrow> byte list \<Rightarrow> ('t client, smtp_error + unit) future" where
  "write_all_async F buf =
     await (on_transport (write_all_future F buf))
       (\<lambda>r. case r of Inr _ \<Rightarrow> async (Pair (Ok ())) | Inl e \<Rightarrow> async (abort_with (Io e)))"

definition fill_buf_async :: "'t transport_futures \<Rightarrow> ('t client, smtp_error + nat) future" where
  "fill_buf_async F =
     await (on_transport (read_future F READ_CHUNK))
       (\<lambda>r. case r of
          Inl e \<Rightarrow> async (abort_with (Io e))
        | Inr tmp \<Rightarrow> async (\<lambda>c. (Ok (length tmp), c\<lparr>rx_buf := rx_buf c @ tmp\<rparr>)))"

lemma await_try_cong [fundef_cong]:
  assumes "s = s'" and "fut s' = fut' s'"
    and "\<And>a t. fut' s' = (Ready (Inr a), t) \<Longrightarrow> k a t = k' a t"
  shows "await_try fut k s = await_try fut' k' s'"
  using assms by (auto simp: await_try_def await_def split: prod.split poll.split sum.split)

lemma fill_buf_async_grows:
  "fill_buf_async F c = (Ready (Inr n), d) \<Longrightarrow>
   rx_pos d = rx_pos c \<and> length (rx_buf d) = length (rx_buf c) + n"
  by (auto simp: fill_buf_async_def await_def on_transport_def async_def abort_with_def
      split: prod.splits poll.splits sum.splits)

function read_line_async ::
    "'t transport_futures \<Rightarrow> 't client \<Rightarrow> (smtp_error + byte list) poll \<times> 't client" where
  "read_line_async F c =
     (case find_crlf (drop (rx_pos c) (rx_buf c)) of
        Some pos \<Rightarrow>
          let abs_end = rx_pos c + pos;
              line = slice (rx_buf c) (rx_pos c) abs_end;
              c1 = compact_rx (c\<lparr>rx_pos := abs_end + 2\<rparr>)
          in if MAX_REPLY_LINE_LEN < length line then async (abort_with (Protocol LineTooLong)) c1
             else async (Pair (Ok line)) c1
      | None \<Rightarrow>
          if RX_BUF_HARD_LIMIT < length (rx_buf c) - rx_pos c then
            async (abort_with (Protocol LineTooLong)) c
          else await_try (fill_buf_async F) (\<lambda>n c1.
            if n = 0 then async (abort_with (Protocol UnexpectedClose)) c1
            else read_line_async F c1) c)"
  by pat_completeness auto
termination
proof (relation "measure (\<lambda>(F, c). Suc RX_BUF_HARD_LIMIT + rx_pos c - length (rx_buf c))")
  fix F :: "'t transport_futures" and c c1 :: "'t client" and n
  assume le: "\<not> RX_BUF_HARD_LIMIT < length (rx_buf c) - rx_pos c"
    and fill: "fill_buf_async F c = (Ready (Inr n), c1)" and n: "n \<noteq> 0"
  from fill_buf_async_grows [OF fill] le n
  show "((F, c1), (F, c)) \<in> measure (\<lambda>(F, c). Suc RX_BUF_HARD_LIMIT + rx_pos c - length (rx_buf c))"
    by simp
qed auto

declare read_line_async.simps [simp del]

text \<open>The loop over the lines of a reply, and the reply.\<close>

function read_reply_loop_async ::
    "'t transport_futures \<Rightarrow> str list \<Rightarrow> u16 option \<Rightarrow> 't client \<Rightarrow>
     (smtp_error + reply) poll \<times> 't client" where
  "read_reply_loop_async F lines code c =
     (if MAX_REPLY_LINES \<le> length lines then async (abort_with too_many_lines) c
      else await_try (read_line_async F) (\<lambda>line c.
        case parse_reply_line line of
          Err e \<Rightarrow> async (abort_with (Protocol e)) c
        | Ok parsed \<Rightarrow>
            (case code of
               Some prev \<Rightarrow>
                 if prev \<noteq> rl_code parsed then
                   async (abort_with (Protocol (InconsistentMultiline prev (rl_code parsed)))) c
                 else if rl_is_last parsed then
                   async (Pair (Ok (finish_reply (enhanced_status_enabled c) prev
                          (lines @ [from_utf8_lossy (rl_text parsed)])))) c
                 else read_reply_loop_async F (lines @ [from_utf8_lossy (rl_text parsed)]) (Some prev) c
             | None \<Rightarrow>
                 if rl_is_last parsed then
                   async (Pair (Ok (finish_reply (enhanced_status_enabled c) (rl_code parsed)
                          (lines @ [from_utf8_lossy (rl_text parsed)])))) c
                 else read_reply_loop_async F (lines @ [from_utf8_lossy (rl_text parsed)])
                        (Some (rl_code parsed)) c)) c)"
  by pat_completeness auto
termination
  by (relation "measure (\<lambda>(F, lines, code, c). MAX_REPLY_LINES - length lines)") auto

declare read_reply_loop_async.simps [simp del]

definition read_reply_async :: "'t transport_futures \<Rightarrow> ('t client, smtp_error + reply) future" where
  "read_reply_async F c = read_reply_loop_async F [] None c"

subsection \<open>A transport that is ready at once\<close>

text \<open>
  \<open>prompt F ops\<close>: the functions of the transport await nothing, and give what the operations say.
\<close>

definition prompt :: "'t transport_futures \<Rightarrow> 't transport_ops \<Rightarrow> bool" where
  "prompt F ops \<longleftrightarrow> (\<forall>n. read_future F n = async (\<lambda>t. t_read ops t n)) \<and>
     (\<forall>buf. write_all_future F buf = async (\<lambda>t. t_write_all ops t buf))"

lemma write_all_prompt:
  "prompt F (e_ops env) \<Longrightarrow> write_all_async F buf = async (write_all env buf)"
  by (rule ext) (auto simp: prompt_def write_all_async_def write_all_def await_def on_transport_def async_def
      abort_with_def split: prod.split sum.split)

lemma fill_buf_prompt: "prompt F (e_ops env) \<Longrightarrow> fill_buf_async F = async (fill_buf env)"
  by (rule ext) (auto simp: prompt_def fill_buf_async_def fill_buf_def await_def on_transport_def async_def
      abort_with_def split: prod.split sum.split)

text \<open>Reading a line on it is ready on the first poll, with the line of the model.\<close>

lemma read_line_prompt:
  "prompt F (e_ops env) \<Longrightarrow> read_line_async F c = async (read_line env) c"
proof (induction F c rule: read_line_async.induct)
  case (1 F c)
  note filling = fill_buf_prompt [OF 1(2)]
  show ?case
  proof (cases "find_crlf (drop (rx_pos c) (rx_buf c)) = None \<and> \<not> RX_BUF_HARD_LIMIT < length (rx_buf c) - rx_pos c")
    case False
    then show ?thesis
      by (subst read_line_async.simps) (auto simp: async_def read_line.simps [of env c] Let_def split: option.split)
  next
    case True
    then have line: "read_line env c = and_then (fill_buf env c) (\<lambda>n c1.
        if n = 0 then abort_with (Protocol UnexpectedClose) c1 else read_line env c1)"
      and line_async: "read_line_async F c = await_try (fill_buf_async F) (\<lambda>n c1.
        if n = 0 then async (abort_with (Protocol UnexpectedClose)) c1 else read_line_async F c1) c"
      by (simp_all add: read_line.simps [of env c] read_line_async.simps [of F c])
    have "await_try (fill_buf_async F) (\<lambda>n c1.
        if n = 0 then async (abort_with (Protocol UnexpectedClose)) c1 else read_line_async F c1) c =
      await_try (async (fill_buf env)) (\<lambda>n. async (\<lambda>c1.
        if n = 0 then abort_with (Protocol UnexpectedClose) c1 else read_line env c1)) c"
    proof (rule await_try_cong [OF refl])
      fix n c1 assume "async (fill_buf env) c = (Ready (Inr n), c1)"
      then have "fill_buf_async F c = (Ready (Inr n), c1)" by (simp add: filling)
      with True 1 show "(if n = 0 then async (abort_with (Protocol UnexpectedClose)) c1 else read_line_async F c1) =
          async (\<lambda>c1. if n = 0 then abort_with (Protocol UnexpectedClose) c1 else read_line env c1) c1"
        by (simp add: async_def)
    qed (simp add: filling)
    then show ?thesis unfolding line_async async_try by (simp add: async_def line)
  qed
qed

text \<open>So is reading a reply.\<close>

lemma read_reply_loop_prompt:
  "prompt F (e_ops env) \<Longrightarrow>
   read_reply_loop_async F lines code c = async (read_reply_loop env lines code) c"
proof (induction F lines code c rule: read_reply_loop_async.induct)
  case (1 F lines code c)
  show ?case
  proof (cases "MAX_REPLY_LINES \<le> length lines")
    case True
    then show ?thesis
      by (subst read_reply_loop_async.simps) (simp add: async_def read_reply_loop.simps [of env lines])
  next
    case False
    obtain r d where line: "read_line env c = (r, d)" by fastforce
    have ready: "read_line_async F c = (Ready r, d)"
      by (simp add: read_line_prompt [OF 1(3)] async_def line)
    show ?thesis
    proof (cases r)
      case (Inl e)
      then show ?thesis
        using False ready line
        by (subst read_reply_loop_async.simps)
           (simp add: await_try_def await_def async_def read_reply_loop.simps [of env lines])
    next
      case (Inr l)
      note IH = 1(1,2) [OF False ready [unfolded Inr]]
      show ?thesis
        using False ready line Inr IH 1(3)
        by (subst read_reply_loop_async.simps)
           (auto simp: await_try_def await_def async_def read_reply_loop.simps [of env lines]
             split: sum.split option.split)
    qed
  qed
qed

lemma read_reply_prompt: "prompt F (e_ops env) \<Longrightarrow> read_reply_async F = async (read_reply env)"
  by (rule ext) (simp add: read_reply_async_def read_reply_loop_prompt async_def read_reply_def)

text \<open>
  The futures of \<open>MockTransport\<close> await nothing.  So no test over it can make \<open>block_on\<close> panic, not even
  when the script has run out: reading is then the end of the connection.
\<close>

definition mock_futures :: "mock transport_futures" where
  "mock_futures = \<lparr>read_future = (\<lambda>n. async (\<lambda>t. mock_read t n)),
     write_all_future = (\<lambda>buf. async (\<lambda>t. mock_write_all t buf))\<rparr>"

lemma mock_prompt: "prompt mock_futures mock_ops"
  by (simp add: prompt_def mock_futures_def)

lemma block_on_exhausted:
  assumes "m_incoming (transport c) = []" and "find_crlf (drop (rx_pos c) (rx_buf c)) = None"
    and "length (rx_buf c) - rx_pos c \<le> RX_BUF_HARD_LIMIT"
  shows "block_on (read_line_async mock_futures) c =
     (Ok (Err (Protocol UnexpectedClose)), mark_closed c)"
proof -
  let ?env = "mock_env f k ent um"
  have "prompt mock_futures (e_ops ?env)" using mock_prompt by (simp add: mock_env_def)
  then have run: "read_line_async mock_futures c = async (read_line ?env) c" by (rule read_line_prompt)
  have "read_line ?env c = (Err (Protocol UnexpectedClose), mark_closed c)"
    using assms by (subst read_line.simps) (simp add: fill_buf_def mock_env_def mock_read_def abort_with_def)
  then show ?thesis by (simp add: block_on_def poll_once_def run async_def)
qed

text \<open>With a transport that is pending, \<open>block_on\<close> panics when the client has to wait for a line.\<close>

lemma block_on_pending:
  assumes "read_future F READ_CHUNK (transport c) = (Pending, t)"
    and "find_crlf (drop (rx_pos c) (rx_buf c)) = None"
    and "length (rx_buf c) - rx_pos c \<le> RX_BUF_HARD_LIMIT"
  shows "\<exists>msg. component_block_on (read_line_async F) c = (Err (Panic msg), c\<lparr>transport := t\<rparr>)"
proof -
  have "fill_buf_async F c = (Pending, c\<lparr>transport := t\<rparr>)"
    using assms(1) by (simp add: fill_buf_async_def await_def on_transport_def)
  then have "read_line_async F c = (Pending, c\<lparr>transport := t\<rparr>)"
    using assms(2,3) by (subst read_line_async.simps) (simp add: await_pending)
  then show ?thesis by (simp add: component_block_on_def poll_once_def)
qed

end
