(* ===== verification/Spec2Isabelle.thy ===== *)
theory Spec2Isabelle
  imports Prelude Rust_Str Rust_Num Utf8 Errors Session Reply Command DotStuff Base64 Mechanism Scram
    Outcome Hooks Message_Body Transport Client_IO Client_Stream Client_Talk Client_Auth Client_Send
    Client_Wire Client_Session Trust Tls_Options Tokio_Build Wasi_Stream Encrypted_Client Wasi_Transport
    Tokio_Transport Cloudflare_Transport Component
    Contact_Form Smoke Smoke_Session Smoke_Driver Component_Smoke Client_Strings Component_Session
    Component_Trust Component_Upgrade Harness_Wire Component_Harness Guest_Harness Error_Chain Audit_Sink Futures
begin

text \<open>
  A verification development for \<open>wasm-smtp\<close>: an SMTP submission client in Rust that does no input
  or output of its own, adapters that give it sockets and TLS, a WebAssembly component around it,
  and the harnesses that run the component and an adapter against a scripted server.

  \<^bold>\<open>The program.\<close>  \<open>crates/wasm-smtp\<close> is the client.  An \<open>SmtpClient\<close> owns a \<open>Transport\<close> (five
  operations: read, write, flush, close and, for STARTTLS, upgrade), a receive buffer, the state of
  the session, what the server has advertised, a policy and an audit sink.  Its methods write command
  lines, read replies, and move the session along a table; every error after which the connection
  is not in a known state poisons the session.  The adapters (\<open>wasm-smtp-wasi\<close>, \<open>wasm-smtp-tokio\<close>,
  \<open>wasm-smtp-cloudflare\<close>) implement \<open>Transport\<close> and connect.  \<open>wasm-smtp-component\<close> checks a
  configuration with its trust anchors once, and sends with one function.  \<open>tools/smoke\<close> holds a
  scripted responder, assertions on what it has recorded, and a driver; \<open>tools/component-smoke\<close>
  runs the component.

  \<^bold>\<open>Theories and sources\<close> (under \<open>src/\<close>; \<open>core\<close> is \<open>crates/wasm-smtp/src\<close>).
  \<^item> \<open>Prelude\<close>, \<open>Rust_Str\<close>, \<open>Rust_Num\<close>, \<open>Utf8\<close>: what the source uses of Rust.  A \<open>String\<close> or
    \<open>&str\<close> is the list of its bytes (\<open>str\<close>), an integer a word of its width where it can wrap and a
    natural number where it is a length; \<open>Result\<close> is a sum, \<open>?\<close> is \<open>and_then\<close>, and a mutable
    receiver is returned beside the result.
  \<^item> \<open>Errors\<close>, \<open>Session\<close>, \<open>Reply\<close>, \<open>Command\<close>, \<open>DotStuff\<close>, \<open>Base64\<close>, \<open>Mechanism\<close>, \<open>Scram\<close>,
    \<open>Outcome\<close>, \<open>Hooks\<close>, \<open>Message_Body\<close>: the pure parts, \<open>core/error.rs\<close>, \<open>session.rs\<close>,
    \<open>protocol.rs\<close> (five theories), \<open>scram.rs\<close>, \<open>outcome.rs\<close>, \<open>policy.rs\<close> with \<open>audit.rs\<close>, and
    \<open>message_body.rs\<close>.  \<open>Error_Chain\<close>: the errors as \<open>std::error::Error\<close>; \<open>Audit_Sink\<close>: the two sinks
    of \<open>audit.rs\<close>.
  \<^item> \<open>Transport\<close>: \<open>core/transport.rs\<close> as a record of operations, and \<open>MockTransport\<close> of
    \<open>crates/wasm-smtp-test\<close>.
  \<^item> \<open>Client_IO\<close>, \<open>Client_Auth\<close>, \<open>Client_Send\<close>, \<open>Client_Session\<close>: \<open>core/client/io.rs\<close>, \<open>auth.rs\<close>,
    \<open>send.rs\<close>, and \<open>mod.rs\<close> with \<open>starttls.rs\<close>; the record \<open>client\<close> has the fields of \<open>SmtpClient\<close>, and
    what its sink has been told is its \<open>audit\<close>.  \<open>Client_Stream\<close>, \<open>Client_Talk\<close>, \<open>Client_Wire\<close> and
    \<open>Client_Strings\<close> add no code: they hold the reference semantics and the lemmas on them.
  \<^item> \<open>Trust\<close>, \<open>Tls_Options\<close>: \<open>wasm-smtp-component/src/trust.rs\<close>, and the TLS set-up of the WASI and
    the Tokio adapter.  \<open>Tokio_Build\<close>: the build guards of \<open>wasm-smtp-tokio/src/lib.rs\<close> and the crypto
    provider they leave.  \<open>Wasi_Stream\<close>, \<open>Wasi_Transport\<close>, \<open>Tokio_Transport\<close>, \<open>Cloudflare_Transport\<close>:
    the adapters.  \<open>Component\<close>: \<open>wasm-smtp-component/src/lib.rs\<close>.
  \<^item> \<open>Contact_Form\<close>: the worker of \<open>wasm-smtp-cloudflare/examples\<close>.
  \<^item> \<open>Smoke\<close>, \<open>Smoke_Driver\<close>, \<open>Component_Smoke\<close>: \<open>tools/smoke/src/lib.rs\<close>, \<open>tools/smoke/src/main.rs\<close>
    with the guest \<open>wasm-smtp-wasi/examples/smoke.rs\<close>, and \<open>tools/component-smoke/src/main.rs\<close>.
    \<open>Smoke_Session\<close>, \<open>Component_Session\<close>, \<open>Component_Upgrade\<close>, \<open>Harness_Wire\<close>, \<open>Component_Harness\<close>
    and \<open>Guest_Harness\<close> compose the parts: the client with the responder, the component with a server
    over TLS in both modes, the component with its harness, and the guest with its driver.
    \<open>Component_Trust\<close>: which TLS connections a send of the component depends on.
  \<^item> \<open>Futures\<close>: the three copies of \<open>block_on\<close>, and the client's receiving operations as the
    \<open>async fn\<close>s they are.

  \<^bold>\<open>Interfaces\<close> are locales, interpreted where the operations are defined.  \<open>transport_contract\<close> and
  \<open>scripted_transport\<close> say what a read returns, \<open>recording_transport\<close> what has been written,
  \<open>answering_transport\<close> both, with writes that succeed; \<open>MockTransport\<close> provides them, and the WASI
  transport provides the last on any TLS session that answers.  \<open>reading_relation\<close>,
  \<open>speaking_relation\<close> and \<open>client_relation\<close> are the rules by which a relation between clients holds
  over every operation: the bound of the receive buffer, the growth of the log, the moves of the
  state, the frame of the configuration, the texts heard and the security of the transport are each an
  interpretation.  \<open>client_talk\<close> follows a conversation step by step, and \<open>client_upgrade\<close> one with an
  upgrade.  \<open>encrypting_transport\<close> and \<open>encrypted_client\<close> say what an upgrade owes, for the three
  adapters.  \<open>chunked_encoder\<close> is the
  streaming dot-stuffer, \<open>streaming_body\<close> a body read in pieces.

  \<^bold>\<open>What is shown.\<close>  The session: its invariant along every sequence of calls, that a poisoned session
  is inert, how each call can end, and what it does then to the log (\<open>Client_Session\<close>, \<open>Client_Auth\<close>,
  \<open>Client_Wire\<close>).  Reading: the client's replies are those of the stream the server sends, however it
  is cut into reads, and they are bounded strings (\<open>Client_Stream\<close>, \<open>Client_Strings\<close>).  Writing: the bytes
  of a successful send, read by a server, are the envelope and the message; streaming gives the same
  bytes; no checked argument can add a command; nothing is written before the checks.  STARTTLS:
  nothing heard in plain text survives, injected bytes are refused, and each adapter never goes back
  to plain text.  Authentication: no credentials for a mechanism that is not advertised, and SCRAM
  succeeds only with a server that knows the keys; the identity of OAUTHBEARER, which nothing checks,
  can inject fields.  Trust: exactly which inputs are accepted, with which store, that a send depends
  on no TLS connection but those with that store, and that no private key is taken or repeated.
  The contact form: what passes its gate, and that on success it has written one message with its own
  six headers to its socket, if the socket records what it is written (\<open>workers_record\<close>).  Liveness: with a server that accepts, sending, SCRAM, the whole send of the component and the whole
  sessions of both harnesses succeed.  The harnesses: what the assertions assert, what the responder
  can record, and when a run passes.

  \<^bold>\<open>Bounds and termination.\<close>  A reply line has at most 998 bytes, a line without an end is given up after
  1996, a read asks for 1024, the buffer is compacted at 4096, a reply has at most 128 lines; these
  make reading a line and a reply total (the measures are the free room of the buffer and the lines
  left).  A streamed body is read in pieces of 8192 bytes, WASI writes in pieces of 4096, trust
  anchors have at most 256 KiB and 64 blocks, the responder's lines 64 KiB.  No fuel is used: loops
  that follow the peer and may not end (streaming a body, waiting for the host's bytes or addresses,
  the responder, polling a listener) are partial functions into \<open>option\<close>, \<open>None\<close> being a call that
  does not return, and what is said of them either holds for every outcome or says that there is one.

  \<^bold>\<open>Parameters.\<close>  Code of other crates and of the host is an argument: the cryptographic primitives
  (\<open>crypto\<close>; the properties of SCRAM assume of them only that digests have 32 bytes), random bytes,
  \<open>mail-builder\<close>, rustls and its certificates (\<open>pki\<close>, \<open>tls_lib\<close>, \<open>rustls\<close>, \<open>server_lib\<close>), the WASI
  interfaces (\<open>wasi_io\<close>, \<open>wasi_net\<close>), the Workers runtime, Tokio's sockets, the Unicode tables of
  \<open>to_lowercase\<close> beyond ASCII, wasmtime and the processes it runs.  The caller's code is an argument
  as well: the transport, the body, the policy.

  \<^bold>\<open>Not modelled.\<close>  Suspension: outside \<open>Futures\<close> every operation is its result, which
  is the value of its future when the transport is ready at once; how often a runtime polls, and
  dropping a future half-way, are not modelled.  Logging
  (\<open>core/tracing_helpers.rs\<close>).  Arithmetic overflow of \<open>usize\<close> on lengths of lists held in memory.
  Printing for \<open>Debug\<close>, except where an error is built from it.  The bindings that
  \<open>wit-bindgen\<close> generates, re-exports, documentation (\<open>tools/book\<close>) and tests.  In the harnesses, a
  thread that panics, files and the environment, which are given by their outcomes.
\<close>

end
